(* ===== verification/Prelude.thy ===== *)
theory Prelude
  imports Complex_Main
begin

text \<open>
  Shared ground of the development: the exceptions that the Python code can raise, a
  state-and-exception monad in which the stateful operations are written, the Hoare-style
  predicate \<open>keeps\<close> for invariants with its rules, and generic facts on lists.

  An operation of type \<open>('s, 'a) py\<close> maps the state to a result and the state that is left.
  The state is returned also when the result is an exception: the program runs in Django's
  autocommit mode, so what was written before an exception was raised stays written.
\<close>

section \<open>Exceptions\<close>

datatype pyexn =
    AttributeError string
  | TypeError string
  | ValueError string
  | KeyError string
  | IndexError string
  | NameError string
  | AssertionError
  | OverflowError string
  | CommandError string
  | DoesNotExist
  | MultipleObjectsReturned
  | IntegrityError string
  | DataError string
  | NoReverseMatch string
  | OtherError string

section \<open>The monad\<close>

type_synonym ('s, 'a) py = "'s \<Rightarrow> (pyexn + 'a) \<times> 's"

definition ret :: "'a \<Rightarrow> ('s, 'a) py" where
  "ret x s = (Inr x, s)"

definition raise :: "pyexn \<Rightarrow> ('s, 'a) py" where
  "raise e s = (Inl e, s)"

definition andThen :: "('s, 'a) py \<Rightarrow> ('a \<Rightarrow> ('s, 'b) py) \<Rightarrow> ('s, 'b) py" where
  "andThen m f s = (case m s of (Inl e, t) \<Rightarrow> (Inl e, t) | (Inr x, t) \<Rightarrow> f x t)"

definition reads :: "('s \<Rightarrow> 'a) \<Rightarrow> ('s, 'a) py" where
  "reads g s = (Inr (g s), s)"

definition writes :: "('s \<Rightarrow> 's) \<Rightarrow> ('s, unit) py" where
  "writes g s = (Inr (), g s)"

definition lift :: "pyexn + 'a \<Rightarrow> ('s, 'a) py" where
  "lift r s = (r, s)"

text \<open>A \<open>for\<close> loop that carries an accumulator; an exception in the body ends it.\<close>

fun for_acc :: "('x \<Rightarrow> 'a \<Rightarrow> ('s, 'a) py) \<Rightarrow> 'x list \<Rightarrow> 'a \<Rightarrow> ('s, 'a) py" where
  "for_acc body [] a = ret a"
| "for_acc body (x # xs) a = andThen (body x a) (for_acc body xs)"

text \<open>\<open>try: m; except ValueError as err: h(err)\<close>\<close>

definition except_ValueError :: "('s, 'a) py \<Rightarrow> (string \<Rightarrow> ('s, 'a) py) \<Rightarrow> ('s, 'a) py" where
  "except_ValueError m h s =
     (case m s of
        (Inl (ValueError msg), t) \<Rightarrow> h msg t
      | other \<Rightarrow> other)"

definition for_each :: "('x \<Rightarrow> ('s, unit) py) \<Rightarrow> 'x list \<Rightarrow> ('s, unit) py" where
  "for_each body xs = for_acc (\<lambda>x _. body x) xs ()"

definition raised :: "pyexn + 'a \<Rightarrow> bool" where
  "raised r = (case r of Inl _ \<Rightarrow> True | Inr _ \<Rightarrow> False)"

named_theorems py_simps "evaluation of the monad's operations"

lemma ret_eval [py_simps]: "ret x s = (Inr x, s)"
  by (simp add: ret_def)

lemma raise_eval [py_simps]: "raise e s = (Inl e, s)"
  by (simp add: raise_def)

lemma reads_eval [py_simps]: "reads g s = (Inr (g s), s)"
  by (simp add: reads_def)

lemma writes_eval [py_simps]: "writes g s = (Inr (), g s)"
  by (simp add: writes_def)

lemma lift_eval [py_simps]: "lift r s = (r, s)"
  by (simp add: lift_def)

lemma andThen_Inl [py_simps]: "m s = (Inl e, t) \<Longrightarrow> andThen m f s = (Inl e, t)"
  by (simp add: andThen_def)

lemma andThen_Inr [py_simps]: "m s = (Inr x, t) \<Longrightarrow> andThen m f s = f x t"
  by (simp add: andThen_def)

lemma andThen_cases:
  obtains (raised) e t where "m s = (Inl e, t)" "andThen m f s = (Inl e, t)"
  | (returned) x t where "m s = (Inr x, t)" "andThen m f s = f x t"
  by (cases "m s", cases "fst (m s)") (auto simp: andThen_def)

lemma andThen_InrE:
  assumes "andThen m f s = (Inr y, u)"
  obtains x t where "m s = (Inr x, t)" "f x t = (Inr y, u)"
  using assms by (rule_tac m = m and s = s and f = f in andThen_cases) auto

lemma andThen_assoc: "andThen (andThen m f) g = andThen m (\<lambda>x. andThen (f x) g)"
  by (rule ext) (simp add: andThen_def split: prod.splits sum.splits)

lemma ret_andThen [simp]: "andThen (ret x) f = f x"
  by (rule ext) (simp add: andThen_def ret_def)

lemma raise_andThen [simp]: "andThen (raise e) f = raise e"
  by (rule ext) (simp add: andThen_def raise_def)

lemma for_acc_append: "for_acc b (xs @ ys) a = andThen (for_acc b xs a) (for_acc b ys)"
proof (induction xs arbitrary: a)
  case Nil
  then show ?case by simp
next
  case (Cons x xs)
  then have "for_acc b (xs @ ys) = (\<lambda>a. andThen (for_acc b xs a) (for_acc b ys))"
    by (rule ext)
  then show ?case by (simp add: andThen_assoc)
qed

text \<open>
  Induction over a loop that ran to its end: \<open>P done acc s\<close> relates the items already
  visited, the accumulator and the state.
\<close>

lemma for_acc_induct:
  assumes "for_acc body xs a s = (Inr a', s')" and "P [] a s"
    and "\<And>ds x a s a' s'. P ds a s \<Longrightarrow> x \<in> set xs \<Longrightarrow> body x a s = (Inr a', s') \<Longrightarrow> P (ds @ [x]) a' s'"
  shows "P xs a' s'"
proof -
  have "P (ds @ ys) a' s'"
    if "for_acc body ys b t = (Inr a', s')" "P ds b t" "set ys \<subseteq> set xs" for ds ys b t
    using that
  proof (induction ys arbitrary: ds b t)
    case Nil
    then show ?case by (simp add: ret_def)
  next
    case (Cons y ys)
    from Cons.prems(1) obtain c u where u: "body y b t = (Inr c, u)" "for_acc body ys c u = (Inr a', s')"
      by (auto elim: andThen_InrE)
    with Cons.prems have "P (ds @ [y]) c u" by (intro assms(3)) auto
    with Cons.IH [OF u(2), of "ds @ [y]"] Cons.prems(3) show ?case by simp
  qed
  from this [OF assms(1,2)] show ?thesis by simp
qed

section \<open>Invariants\<close>

text \<open>\<open>keeps I m\<close>: from every state with \<open>I\<close>, \<open>m\<close> ends in one, whether it returns or raises.\<close>

definition keeps :: "('s \<Rightarrow> bool) \<Rightarrow> ('s, 'a) py \<Rightarrow> bool" where
  "keeps I m \<longleftrightarrow> (\<forall>s. I s \<longrightarrow> I (snd (m s)))"

named_theorems keeps_intros "rules that prove keeps of a composed operation"

lemma keepsI: "(\<And>s. I s \<Longrightarrow> I (snd (m s))) \<Longrightarrow> keeps I m"
  by (simp add: keeps_def)

lemma keepsD: "keeps I m \<Longrightarrow> I s \<Longrightarrow> I (snd (m s))"
  by (simp add: keeps_def)

lemma keeps_resultD: "keeps I m \<Longrightarrow> I s \<Longrightarrow> m s = (r, t) \<Longrightarrow> I t"
  using keepsD [of I m s] by simp

lemma keeps_ret [keeps_intros]: "keeps I (ret x)"
  by (simp add: keeps_def ret_def)

lemma keeps_raise [keeps_intros]: "keeps I (raise e)"
  by (simp add: keeps_def raise_def)

lemma keeps_reads [keeps_intros]: "keeps I (reads g)"
  by (simp add: keeps_def reads_def)

lemma keeps_lift [keeps_intros]: "keeps I (lift r)"
  by (simp add: keeps_def lift_def)

lemma keeps_writes: "(\<And>s. I s \<Longrightarrow> I (g s)) \<Longrightarrow> keeps I (writes g)"
  by (simp add: keeps_def writes_def)

lemma keeps_andThen [keeps_intros]:
  assumes "keeps I m" and "\<And>x. keeps I (f x)"
  shows "keeps I (andThen m f)"
proof (rule keepsI)
  fix s assume "I s"
  show "I (snd (andThen m f s))"
  proof (rule andThen_cases [of m s f])
    fix e t assume "m s = (Inl e, t)" "andThen m f s = (Inl e, t)"
    with assms(1) \<open>I s\<close> show ?thesis by (auto dest: keeps_resultD)
  next
    fix x t assume m: "m s = (Inr x, t)" and "andThen m f s = f x t"
    moreover from m assms(1) \<open>I s\<close> have "I t" by (auto dest: keeps_resultD)
    ultimately show ?thesis using assms(2) by (auto dest: keepsD)
  qed
qed

lemma keeps_if [keeps_intros]:
  "(b \<Longrightarrow> keeps I m) \<Longrightarrow> (\<not> b \<Longrightarrow> keeps I n) \<Longrightarrow> keeps I (if b then m else n)"
  by simp

lemma keeps_for_acc [keeps_intros]:
  assumes "\<And>x a. keeps I (body x a)"
  shows "keeps I (for_acc body xs a)"
  by (induction xs arbitrary: a) (auto intro!: keeps_ret keeps_andThen assms)

lemma keeps_conj: "keeps I m \<Longrightarrow> keeps J m \<Longrightarrow> keeps (\<lambda>s. I s \<and> J s) m"
  by (simp add: keeps_def)

lemma keeps_except:
  "keeps I m \<Longrightarrow> (\<And>msg. keeps I (h msg)) \<Longrightarrow> keeps I (except_ValueError m h)"
  by (auto simp: keeps_def except_ValueError_def split: prod.split sum.split pyexn.split)

lemma keeps_for_each: "(\<And>x. keeps I (body x)) \<Longrightarrow> keeps I (for_each body xs)"
  unfolding for_each_def by (rule keeps_for_acc)

lemma keeps_case_option:
  "keeps I m \<Longrightarrow> (\<And>x. keeps I (f x)) \<Longrightarrow> keeps I (case v of None \<Rightarrow> m | Some x \<Rightarrow> f x)"
  by (cases v) simp_all

lemma keeps_split: "(\<And>x y. keeps I (f x y)) \<Longrightarrow> keeps I (case p of (x, y) \<Rightarrow> f x y)"
  by (cases p) simp

text \<open>A bind whose second part only runs on results that the first can give.\<close>

lemma keeps_bind:
  assumes "keeps I m" "\<And>s x t. I s \<Longrightarrow> m s = (Inr x, t) \<Longrightarrow> I t \<Longrightarrow> I (snd (f x t))"
  shows "keeps I (andThen m f)"
proof (rule keepsI)
  fix s assume s: "I s"
  show "I (snd (andThen m f s))"
    by (rule andThen_cases [of m s f]) (use assms s in \<open>auto dest: keeps_resultD\<close>)
qed

lemma keeps_start:
  assumes "I (snd (m s))" "\<And>x. keeps I (f x)"
  shows "I (snd (andThen m f s))"
  by (rule andThen_cases [of m s f]) (use assms in \<open>auto dest: keepsD\<close>)

text \<open>\<open>unaltered g m\<close>: \<open>m\<close> does not change what \<open>g\<close> reads of the state.\<close>

definition unaltered :: "('s \<Rightarrow> 'v) \<Rightarrow> ('s, 'a) py \<Rightarrow> bool" where
  "unaltered g m \<longleftrightarrow> (\<forall>s. g (snd (m s)) = g s)"

lemma unalteredD: "unaltered g m \<Longrightarrow> g (snd (m s)) = g s"
  by (simp add: unaltered_def)

lemma unaltered_iff_keeps: "unaltered g m \<longleftrightarrow> (\<forall>v. keeps (\<lambda>s. g s = v) m)"
  by (auto simp: unaltered_def keeps_def)

section \<open>Lists\<close>

lemma filter_map_distinct:
  "distinct (map f xs) \<Longrightarrow> x \<in> set xs \<Longrightarrow> filter (\<lambda>y. f y = f x) xs = [x]"
  by (induction xs) (auto simp: filter_empty_conv image_iff)

lemma distinct_map_eqD: "distinct (map f xs) \<Longrightarrow> x \<in> set xs \<Longrightarrow> y \<in> set xs \<Longrightarrow> f x = f y \<Longrightarrow> x = y"
  by (auto simp: distinct_map inj_on_def)

lemma distinct_map_filterI: "distinct (map f xs) \<Longrightarrow> distinct (map f (filter P xs))"
  by (induction xs) auto

lemma hd_sort_key_min: "x \<in> set xs \<Longrightarrow> f (hd (sort_key f xs)) \<le> f x"
proof -
  assume x: "x \<in> set xs"
  then have ne: "sort_key f xs \<noteq> []" by (metis empty_iff list.set(1) set_sort)
  have "sorted (map f (sort_key f xs))" by simp
  then have "\<forall>y \<in> set (sort_key f xs). f (hd (sort_key f xs)) \<le> f y"
    using ne by (cases "sort_key f xs") auto
  then show ?thesis using x by simp
qed

lemma hd_sort_key_in: "xs \<noteq> [] \<Longrightarrow> hd (sort_key f xs) \<in> set xs"
  by (metis hd_in_set length_0_conv length_sort set_sort)

text \<open>The first element of a list, \<open>None\<close> when it is empty: Django's \<open>QuerySet.first\<close>.\<close>

definition head :: "'a list \<Rightarrow> 'a option" where
  "head xs = (case xs of [] \<Rightarrow> None | x # _ \<Rightarrow> Some x)"

lemma head_simps [simp]: "head [] = None" "head (x # xs) = Some x"
  by (simp_all add: head_def)

lemma head_None_iff [simp]: "head xs = None \<longleftrightarrow> xs = []"
  by (simp add: head_def split: list.splits)

lemma head_Some_in: "head xs = Some x \<Longrightarrow> x \<in> set xs"
  by (auto simp: head_def split: list.splits)

lemma head_Some_hd: "head xs = Some x \<Longrightarrow> xs \<noteq> [] \<and> x = hd xs"
  by (auto simp: head_def split: list.splits)

end
