(* ===== verification/Focus.thy ===== *)
theory Focus
  imports Prelude
begin

text \<open>
  A program whose state has several parts: an operation on one part (the database, the
  registry of plug-ins) runs inside an operation on the whole. A part is given by how it is
  read and replaced; the locale states the laws of the two and what they give, and each
  state of the front ends (\<open>Views\<close>, \<open>Console\<close>) interprets it.
\<close>

definition focused :: "('s \<Rightarrow> 'v) \<Rightarrow> ('v \<Rightarrow> 's \<Rightarrow> 's) \<Rightarrow> ('v, 'a) py \<Rightarrow> ('s, 'a) py" where
  "focused get put m s = (case m (get s) of (out, v) \<Rightarrow> (out, put v s))"

lemma focused_eval: "m (get s) = (out, v) \<Longrightarrow> focused get put m s = (out, put v s)"
  by (simp add: focused_def)

locale focus =
  fixes get :: "'s \<Rightarrow> 'v"
    and put :: "'v \<Rightarrow> 's \<Rightarrow> 's"
  assumes get_put [simp]: "get (put v s) = v"
    and put_get [simp]: "put (get s) s = s"
    and put_put [simp]: "put v (put u s) = put v s"
begin

lemma focused_ret: "focused get put (ret x) = ret x"
  by (rule ext) (simp add: focused_def ret_def)

lemma focused_raise: "focused get put (raise e) = raise e"
  by (rule ext) (simp add: focused_def raise_def)

lemma focused_reads: "focused get put (reads g) = reads (\<lambda>s. g (get s))"
  by (rule ext) (simp add: focused_def reads_def)

lemma focused_andThen:
  "focused get put (andThen m f) = andThen (focused get put m) (\<lambda>x. focused get put (f x))"
  by (rule ext) (simp add: focused_def andThen_def split: prod.splits sum.splits)

lemma focused_for_acc:
  "focused get put (for_acc body xs a) = for_acc (\<lambda>x a. focused get put (body x a)) xs a"
proof (induction xs arbitrary: a)
  case (Cons x xs)
  have "(\<lambda>a. focused get put (for_acc body xs a)) = for_acc (\<lambda>x a. focused get put (body x a)) xs"
    by (rule ext) (rule Cons.IH)
  then show ?case by (simp add: focused_andThen)
qed (simp add: focused_ret)

lemma focused_keeps: "keeps I m \<Longrightarrow> keeps (\<lambda>s. I (get s)) (focused get put m)"
  by (rule keepsI) (auto simp: focused_def dest: keeps_resultD split: prod.split)

text \<open>What the operation cannot reach: anything that replacing the part does not change.\<close>

lemma focused_unaltered: "(\<And>v s. g (put v s) = g s) \<Longrightarrow> unaltered g (focused get put m)"
  by (simp add: unaltered_def focused_def split: prod.split)

end

end
