(* ===== verification/Py_Str.thy ===== *)
theory Py_Str
  imports Prelude
begin

text \<open>
  Python's \<open>str\<close>, as far as the program uses it. A string is a list of \<open>char\<close>: the code
  points 0 to 255 (Latin-1), on which the methods below agree with CPython 3.11. Text
  outside that range is not represented.
\<close>

section \<open>Character classes\<close>

definition code :: "char \<Rightarrow> nat" where
  "code c = of_char c"

text \<open>\<open>str.isspace\<close>: what \<open>strip\<close> and \<open>split\<close> without argument remove.\<close>

definition is_space :: "char \<Rightarrow> bool" where
  "is_space c \<longleftrightarrow> (let n = code c in 9 \<le> n \<and> n \<le> 13 \<or> 28 \<le> n \<and> n \<le> 32 \<or> n = 133 \<or> n = 160)"

text \<open>The decimal digits, \<open>\d\<close> of a regular expression.\<close>

definition is_dec :: "char \<Rightarrow> bool" where
  "is_dec c \<longleftrightarrow> (let n = code c in 48 \<le> n \<and> n \<le> 57)"

text \<open>\<open>str.isdigit\<close> also accepts the three superscript digits of Latin-1.\<close>

definition is_digit :: "char \<Rightarrow> bool" where
  "is_digit c \<longleftrightarrow> is_dec c \<or> code c \<in> {178, 179, 185}"

definition is_ascii_upper :: "char \<Rightarrow> bool" where
  "is_ascii_upper c \<longleftrightarrow> (let n = code c in 65 \<le> n \<and> n \<le> 90)"

definition is_ascii_lower :: "char \<Rightarrow> bool" where
  "is_ascii_lower c \<longleftrightarrow> (let n = code c in 97 \<le> n \<and> n \<le> 122)"

definition is_ascii_alpha :: "char \<Rightarrow> bool" where
  "is_ascii_alpha c \<longleftrightarrow> is_ascii_upper c \<or> is_ascii_lower c"

definition is_ascii_alnum :: "char \<Rightarrow> bool" where
  "is_ascii_alnum c \<longleftrightarrow> is_ascii_alpha c \<or> is_dec c"

text \<open>\<open>\w\<close>: the alphanumeric characters of Latin-1 and the underscore.\<close>

definition is_word :: "char \<Rightarrow> bool" where
  "is_word c \<longleftrightarrow> is_ascii_alnum c \<or> c = CHR ''_'' \<or>
     code c \<in> {170, 178, 179, 181, 185, 186, 188, 189, 190} \<or>
     192 \<le> code c \<and> code c \<noteq> 215 \<and> code c \<noteq> 247"

definition to_lower :: "char \<Rightarrow> char" where
  "to_lower c = (let n = code c in
     if 65 \<le> n \<and> n \<le> 90 \<or> 192 \<le> n \<and> n \<le> 222 \<and> n \<noteq> 215 then char_of (n + 32) else c)"

text \<open>
  \<open>str.upper\<close> maps the sharp s (223) to two letters; the upper case of 181 and 255 lies
  outside Latin-1 and is left alone, which no caller can tell: the result is only looked
  up among ASCII names.
\<close>

definition to_upper :: "char \<Rightarrow> string" where
  "to_upper c = (let n = code c in
     if n = 223 then ''SS''
     else if 97 \<le> n \<and> n \<le> 122 \<or> 224 \<le> n \<and> n \<le> 254 \<and> n \<noteq> 247 then [char_of (n - 32)]
     else [c])"

definition lower :: "string \<Rightarrow> string" where
  "lower s = map to_lower s"

definition upper :: "string \<Rightarrow> string" where
  "upper s = concat (map to_upper s)"

section \<open>Stripping, splitting and joining\<close>

definition lstrip_by :: "(char \<Rightarrow> bool) \<Rightarrow> string \<Rightarrow> string" where
  "lstrip_by p s = dropWhile p s"

definition strip_by :: "(char \<Rightarrow> bool) \<Rightarrow> string \<Rightarrow> string" where
  "strip_by p s = rev (dropWhile p (rev (dropWhile p s)))"

definition strip :: "string \<Rightarrow> string" where
  "strip s = strip_by is_space s"

text \<open>\<open>s.split(c)\<close> with a one-character separator.\<close>

fun split_on :: "char \<Rightarrow> string \<Rightarrow> string list" where
  "split_on c [] = [[]]"
| "split_on c (x # xs) =
     (if x = c then [] # split_on c xs
      else (case split_on c xs of [] \<Rightarrow> [[x]] | w # ws \<Rightarrow> (x # w) # ws))"

text \<open>\<open>s.split(c, 1)\<close> where \<open>c\<close> occurs: what stands before and after its first occurrence.\<close>

definition split_first :: "char \<Rightarrow> string \<Rightarrow> string \<times> string" where
  "split_first c s = (takeWhile (\<lambda>x. x \<noteq> c) s, tl (dropWhile (\<lambda>x. x \<noteq> c) s))"

fun join :: "string \<Rightarrow> string list \<Rightarrow> string" where
  "join sep [] = []"
| "join sep [w] = w"
| "join sep (w # v # ws) = w @ sep @ join sep (v # ws)"

text \<open>\<open>s.split()\<close>: the maximal runs of non-space characters.\<close>

fun split_ws_aux :: "string \<Rightarrow> string \<Rightarrow> string list" where
  "split_ws_aux acc [] = (if acc = [] then [] else [rev acc])"
| "split_ws_aux acc (c # cs) =
     (if is_space c then (if acc = [] then split_ws_aux [] cs else rev acc # split_ws_aux [] cs)
      else split_ws_aux (c # acc) cs)"

definition split_ws :: "string \<Rightarrow> string list" where
  "split_ws s = split_ws_aux [] s"

section \<open>Searching and slicing\<close>

fun starts_with :: "'a list \<Rightarrow> 'a list \<Rightarrow> bool" where
  "starts_with [] s = True"
| "starts_with (p # ps) [] = False"
| "starts_with (p # ps) (c # cs) = (p = c \<and> starts_with ps cs)"

text \<open>\<open>s.find(pat)\<close>, the index of the first occurrence.\<close>

fun find_first :: "string \<Rightarrow> string \<Rightarrow> nat option" where
  "find_first pat [] = (if pat = [] then Some 0 else None)"
| "find_first pat (c # cs) =
     (if starts_with pat (c # cs) then Some 0 else map_option Suc (find_first pat cs))"

text \<open>
  \<open>s.find(pat, start)\<close>: a negative \<open>start\<close> counts from the end, and the result is
  -1 when nothing is found.
\<close>

definition clip :: "nat \<Rightarrow> int \<Rightarrow> nat" where
  "clip n i = (if i < 0 then nat (i + int n) else nat i)"

definition find_from :: "string \<Rightarrow> string \<Rightarrow> int \<Rightarrow> int" where
  "find_from s pat start =
     (let k = clip (length s) start in
      if length s < k then -1
      else case find_first pat (drop k s) of None \<Rightarrow> -1 | Some j \<Rightarrow> int (k + j))"

definition contains :: "string \<Rightarrow> string \<Rightarrow> bool" where
  "contains pat s \<longleftrightarrow> find_first pat s \<noteq> None"

text \<open>Python's slices \<open>s[:i]\<close> and \<open>s[i:]\<close>; they never raise.\<close>

definition slice_to :: "'a list \<Rightarrow> int \<Rightarrow> 'a list" where
  "slice_to s i = take (clip (length s) i) s"

definition slice_from :: "'a list \<Rightarrow> int \<Rightarrow> 'a list" where
  "slice_from s i = drop (clip (length s) i) s"

section \<open>Integers as text\<close>

fun digits_value :: "string \<Rightarrow> nat \<Rightarrow> nat" where
  "digits_value [] acc = acc"
| "digits_value (c # cs) acc = digits_value cs (10 * acc + (code c - 48))"

text \<open>The digits of \<open>int(s)\<close>: single underscores may stand between two digits.\<close>

fun int_body :: "string \<Rightarrow> nat \<Rightarrow> nat option" where
  "int_body [] acc = None"
| "int_body [c] acc = (if is_dec c then Some (10 * acc + (code c - 48)) else None)"
| "int_body (c # d # cs) acc =
     (if is_dec c
      then int_body (if d = CHR ''_'' then cs else d # cs) (10 * acc + (code c - 48))
      else None)"

text \<open>\<open>int(s)\<close> in base ten; \<open>None\<close> stands for the \<open>ValueError\<close> it raises.\<close>

definition int_of_str :: "string \<Rightarrow> int option" where
  "int_of_str s =
     (case strip s of
        [] \<Rightarrow> None
      | c # cs \<Rightarrow>
          if c = CHR ''-'' then map_option (\<lambda>n. - int n) (int_body cs 0)
          else if c = CHR ''+'' then map_option int (int_body cs 0)
          else map_option int (int_body (c # cs) 0))"

fun show_nat :: "nat \<Rightarrow> string" where
  "show_nat n = (if n < 10 then [char_of (48 + n)] else show_nat (n div 10) @ [char_of (48 + n mod 10)])"

declare show_nat.simps [simp del]

definition show_int :: "int \<Rightarrow> string" where
  "show_int i = (if i < 0 then CHR ''-'' # show_nat (nat (- i)) else show_nat (nat i))"

section \<open>Facts\<close>

lemma split_on_nonempty [simp]: "split_on c s \<noteq> []"
  by (cases s) (auto split: list.splits)

lemma split_on_no_sep: "w \<in> set (split_on c s) \<Longrightarrow> c \<notin> set w"
proof (induction s arbitrary: w)
  case Nil
  then show ?case by simp
next
  case (Cons x xs)
  show ?case
  proof (cases "split_on c xs")
    case Nil
    then show ?thesis by simp
  next
    case (Cons v vs)
    with Cons.IH Cons.prems show ?thesis by (auto split: if_splits)
  qed
qed

lemma join_Cons: "ws \<noteq> [] \<Longrightarrow> join sep (w # ws) = w @ sep @ join sep ws"
  by (cases ws) auto

lemma join_split_on: "join [c] (split_on c s) = s"
proof (induction s)
  case Nil
  then show ?case by simp
next
  case (Cons x xs)
  then show ?case
    by (cases "split_on c xs"; cases "tl (split_on c xs)") (auto simp: join_Cons split: if_splits)
qed

lemma split_on_append:
  "c \<notin> set w \<Longrightarrow> split_on c (w @ c # s) = w # split_on c s"
  by (induction w) auto

lemma split_on_id: "c \<notin> set w \<Longrightarrow> split_on c w = [w]"
  by (induction w) auto

lemma split_on_join: "ws \<noteq> [] \<Longrightarrow> \<forall>w \<in> set ws. c \<notin> set w \<Longrightarrow> split_on c (join [c] ws) = ws"
proof (induction ws)
  case (Cons w ws)
  then show ?case
    by (cases ws) (simp_all add: split_on_id split_on_append join_Cons)
qed simp

lemma starts_with_iff: "starts_with p s \<longleftrightarrow> (\<exists>t. s = p @ t)"
  by (induction p s rule: starts_with.induct) auto

lemma find_first_bound: "find_first pat s = Some j \<Longrightarrow> j + length pat \<le> length s"
proof (induction s arbitrary: j)
  case Nil
  then show ?case by (auto split: if_splits)
next
  case (Cons c cs)
  then show ?case by (fastforce simp: starts_with_iff dest: arg_cong [where f = length] split: if_splits)
qed

lemma find_first_occurs: "find_first pat s = Some j \<Longrightarrow> starts_with pat (drop j s)"
  by (induction s arbitrary: j) (auto split: if_splits)

lemma find_first_none: "find_first pat s = None \<longleftrightarrow> (\<forall>j \<le> length s. \<not> starts_with pat (drop j s))"
proof (induction s)
  case Nil
  then show ?case by (cases pat) auto
next
  case (Cons c cs)
  have "(\<forall>j \<le> length (c # cs). P (drop j (c # cs))) \<longleftrightarrow>
      P (c # cs) \<and> (\<forall>j \<le> length cs. P (drop j cs))" for P
    by (simp add: less_Suc_eq_le [symmetric] All_less_Suc2 del: less_Suc_eq_le)
  note all = this [of "\<lambda>t. \<not> starts_with pat t"]
  show ?case using Cons.IH by (simp only: all) simp
qed

lemma contains_iff: "contains pat s \<longleftrightarrow> (\<exists>u v. s = u @ pat @ v)"
proof
  assume "contains pat s"
  then obtain j where "find_first pat s = Some j" by (auto simp: contains_def)
  then have "starts_with pat (drop j s)" by (rule find_first_occurs)
  then obtain t where "drop j s = pat @ t" by (auto simp: starts_with_iff)
  then have "s = take j s @ pat @ t" by (metis append_take_drop_id)
  then show "\<exists>u v. s = u @ pat @ v" by blast
next
  assume "\<exists>u v. s = u @ pat @ v"
  then obtain u v where s: "s = u @ pat @ v" by blast
  then have "length u \<le> length s" and "starts_with pat (drop (length u) s)"
    by (auto simp: starts_with_iff)
  then show "contains pat s" by (auto simp: contains_def find_first_none)
qed

lemma find_from_bounds:
  assumes "find_from s pat start = i" and "i \<noteq> -1" and "0 \<le> start"
  shows "start \<le> i" and "i + int (length pat) \<le> int (length s)"
  using assms find_first_bound [of pat "drop (nat start) s"]
  by (auto simp: find_from_def clip_def Let_def split: if_splits option.splits)

lemma find_from_minus1: "find_from s pat start \<ge> -1"
  by (auto simp: find_from_def Let_def split: option.splits)

lemma slice_append [simp]: "slice_to s i @ slice_from s i = s"
  by (simp add: slice_to_def slice_from_def)

lemma strip_by_subset: "set (strip_by p s) \<subseteq> set s"
  by (auto simp: strip_by_def dest!: set_dropWhileD)

lemma strip_id: "(s = [] \<or> \<not> is_space (hd s) \<and> \<not> is_space (last s)) \<Longrightarrow> strip s = s"
proof -
  assume a: "s = [] \<or> \<not> is_space (hd s) \<and> \<not> is_space (last s)"
  then have "dropWhile is_space s = s" by (cases s) auto
  moreover from a have "dropWhile is_space (rev s) = rev s"
    by (cases s rule: rev_cases) auto
  ultimately show ?thesis by (simp add: strip_def strip_by_def)
qed

lemma code_char_of [simp]: "n < 256 \<Longrightarrow> code (char_of n) = n"
  by (simp add: code_def)

lemma is_dec_char_of [simp]: "(d::nat) < 10 \<Longrightarrow> is_dec (char_of (48 + d))"
  by (simp add: is_dec_def Let_def)

lemma is_dec_not_space: "is_dec c \<Longrightarrow> \<not> is_space c"
  by (auto simp: is_dec_def is_space_def Let_def)

lemma is_dec_not: "is_dec c \<Longrightarrow> c \<noteq> CHR ''-'' \<and> c \<noteq> CHR ''+'' \<and> c \<noteq> CHR ''_''"
  by (auto simp: is_dec_def code_def Let_def)

lemma int_body_digits: "list_all is_dec s \<Longrightarrow> s \<noteq> [] \<Longrightarrow> int_body s acc = Some (digits_value s acc)"
proof (induction s acc rule: int_body.induct)
  case (3 c d cs acc)
  then have "d \<noteq> CHR ''_''" using is_dec_not by auto
  with 3 show ?case by simp
qed auto

lemma int_of_str_digits: "list_all is_dec s \<Longrightarrow> s \<noteq> [] \<Longrightarrow> int_of_str s = Some (int (digits_value s 0))"
proof -
  assume d: "list_all is_dec s" and ne: "s \<noteq> []"
  then have "\<not> is_space (hd s)" "\<not> is_space (last s)"
    by (auto simp: list_all_iff is_dec_not_space)
  then have "strip s = s" by (simp add: strip_id)
  with d ne int_body_digits [of s 0] is_dec_not show ?thesis
    by (cases s) (auto simp: int_of_str_def)
qed

lemma digits_value_append: "digits_value (s @ t) acc = digits_value t (digits_value s acc)"
  by (induction s arbitrary: acc) auto

lemma show_nat_digits: "list_all is_dec (show_nat n) \<and> show_nat n \<noteq> []"
proof (induction n rule: show_nat.induct)
  case (1 n)
  then show ?case
    by (cases "n < 10") (auto simp: show_nat.simps [of n])
qed

lemma digits_value_show_nat: "digits_value (show_nat n) 0 = n"
proof (induction n rule: show_nat.induct)
  case (1 n)
  then show ?case
    by (cases "n < 10") (auto simp: show_nat.simps [of n] digits_value_append)
qed

lemma int_of_show_nat: "int_of_str (show_nat n) = Some (int n)"
  by (simp add: int_of_str_digits show_nat_digits digits_value_show_nat)

lemma lower_append [simp]: "lower (s @ t) = lower s @ lower t"
  by (simp add: lower_def)

lemma length_lower [simp]: "length (lower s) = length s"
  by (simp add: lower_def)

end
