(* ===== verification/Py_Regex.thy ===== *)
theory Py_Regex
  imports Py_Str
begin

text \<open>
  The subset of Python's \<open>re\<close> that the program's patterns use: characters and character
  classes, greedy \<open>*\<close> and \<open>+\<close> of a class, optional parts, sequences, named groups and the
  end anchor. A pattern denotes the list of its runs from a position: the captured groups
  and the rest of the text, in the order in which the backtracking matcher tries them. A
  match is the first run.
\<close>

section \<open>Patterns and their runs\<close>

datatype rx =
    REmpty
  | RChr "char \<Rightarrow> bool"
  | RStar "char \<Rightarrow> bool"
  | RPlus "char \<Rightarrow> bool"
  | ROpt rx
  | RCat rx rx
  | RGroup string rx
  | REnd

type_synonym caps = "(string \<times> string) list"

fun star_runs :: "(char \<Rightarrow> bool) \<Rightarrow> string \<Rightarrow> string list" where
  "star_runs p [] = [[]]"
| "star_runs p (c # cs) = (if p c then star_runs p cs @ [c # cs] else [c # cs])"

fun plus_runs :: "(char \<Rightarrow> bool) \<Rightarrow> string \<Rightarrow> string list" where
  "plus_runs p [] = []"
| "plus_runs p (c # cs) = (if p c then star_runs p cs else [])"

fun chr_runs :: "(char \<Rightarrow> bool) \<Rightarrow> string \<Rightarrow> string list" where
  "chr_runs p [] = []"
| "chr_runs p (c # cs) = (if p c then [cs] else [])"

text \<open>\<open>$\<close> matches at the end of the text and before a newline that ends it.\<close>

definition at_end :: "string \<Rightarrow> bool" where
  "at_end s \<longleftrightarrow> s = [] \<or> s = [CHR 0x0A]"

primrec runs :: "rx \<Rightarrow> caps \<times> string \<Rightarrow> (caps \<times> string) list" where
  "runs REmpty gs = [gs]"
| "runs (RChr p) gs = map (Pair (fst gs)) (chr_runs p (snd gs))"
| "runs (RStar p) gs = map (Pair (fst gs)) (star_runs p (snd gs))"
| "runs (RPlus p) gs = map (Pair (fst gs)) (plus_runs p (snd gs))"
| "runs (ROpt r) gs = runs r gs @ [gs]"
| "runs (RCat a b) gs = concat (map (runs b) (runs a gs))"
| "runs (RGroup n r) gs =
     map (\<lambda>(g, t). ((n, take (length (snd gs) - length t) (snd gs)) # g, t)) (runs r gs)"
| "runs REnd gs = (if at_end (snd gs) then [gs] else [])"

text \<open>\<open>pattern.match(s)\<close> is anchored at the start; \<open>pattern.search(s)\<close> tries every start.\<close>

definition rx_match :: "rx \<Rightarrow> string \<Rightarrow> caps option" where
  "rx_match r s = head (map fst (runs r ([], s)))"

fun rx_search :: "rx \<Rightarrow> string \<Rightarrow> caps option" where
  "rx_search r [] = rx_match r []"
| "rx_search r (c # cs) =
     (case rx_match r (c # cs) of Some g \<Rightarrow> Some g | None \<Rightarrow> rx_search r cs)"

text \<open>\<open>match.group(name)\<close>; \<open>None\<close> stands for the \<open>IndexError\<close> of a name the pattern lacks.\<close>

definition group :: "caps \<Rightarrow> string \<Rightarrow> string option" where
  "group g n = map_of g n"

fun rseq :: "rx list \<Rightarrow> rx" where
  "rseq [] = REmpty"
| "rseq [r] = r"
| "rseq (r # q # rs) = RCat r (rseq (q # rs))"

definition lit :: "string \<Rightarrow> rx" where
  "lit w = rseq (map (\<lambda>c. RChr (\<lambda>x. x = c)) w)"

text \<open>A literal under \<open>re.IGNORECASE\<close>.\<close>

definition lit_ci :: "string \<Rightarrow> rx" where
  "lit_ci w = rseq (map (\<lambda>c. RChr (\<lambda>x. to_lower x = to_lower c)) w)"

definition rep :: "nat \<Rightarrow> (char \<Rightarrow> bool) \<Rightarrow> rx" where
  "rep n p = rseq (replicate n (RChr p))"

text \<open>The dot matches every character but the newline.\<close>

definition dot :: "char \<Rightarrow> bool" where
  "dot c \<longleftrightarrow> c \<noteq> CHR 0x0A"

section \<open>What the runs are\<close>

lemma set_star_runs: "t \<in> set (star_runs p s) \<longleftrightarrow> (\<exists>u. s = u @ t \<and> list_all p u)"
proof (induction s)
  case Nil
  then show ?case by auto
next
  case (Cons c cs)
  have "(\<exists>u. c # cs = u @ t \<and> list_all p u) \<longleftrightarrow>
      t = c # cs \<or> p c \<and> (\<exists>u. cs = u @ t \<and> list_all p u)"
    by (auto simp: Cons_eq_append_conv)
  with Cons.IH show ?case by auto
qed

lemma chr_runs_eq: "chr_runs p s = (if s \<noteq> [] \<and> p (hd s) then [tl s] else [])"
  by (cases s) auto

lemma runs_rseq_Cons: "runs (rseq (r # rs)) gs = concat (map (runs (rseq rs)) (runs r gs))"
proof -
  have "runs REmpty = (\<lambda>gs. [gs])" by (rule ext) simp
  then show ?thesis by (cases rs) (auto simp: concat_map_singleton)
qed

text \<open>A sequence of single characters has at most one run.\<close>

lemma runs_chars:
  "runs (rseq (map RChr ps)) (g, s) =
     (if length ps \<le> length s \<and> list_all2 (\<lambda>p c. p c) ps (take (length ps) s)
      then [(g, drop (length ps) s)] else [])"
proof (induction ps arbitrary: s)
  case Nil
  then show ?case by simp
next
  case (Cons p ps)
  show ?case
    by (cases s) (auto simp: runs_rseq_Cons Cons.IH simp del: rseq.simps)
qed

lemma lit_as_chars: "lit w = rseq (map RChr (map (\<lambda>c x. x = c) w))"
  by (simp add: lit_def comp_def)

lemma lit_ci_as_chars: "lit_ci w = rseq (map RChr (map (\<lambda>c x. to_lower x = to_lower c) w))"
  by (simp add: lit_ci_def comp_def)

lemma list_all2_eq_map: "list_all2 (\<lambda>p c. p c) (map (\<lambda>c x. f x = f c) w) u \<longleftrightarrow> map f u = map f w"
  by (induction w arbitrary: u) (auto simp: list_all2_Cons1 Cons_eq_map_conv)

lemma runs_lit_ci:
  "runs (lit_ci w) (g, s) =
     (if length w \<le> length s \<and> lower (take (length w) s) = lower w
      then [(g, drop (length w) s)] else [])"
  using list_all2_eq_map [of to_lower w "take (length w) s"]
  by (simp add: lit_ci_as_chars runs_chars lower_def del: map_map)

lemma rx_match_None_iff: "rx_match r s = None \<longleftrightarrow> runs r ([], s) = []"
  by (simp add: rx_match_def)

lemma rx_match_lit_ci: "rx_match (lit_ci w) s \<noteq> None \<longleftrightarrow> lower (take (length w) s) = lower w"
proof -
  have "length w \<le> length s" if "lower (take (length w) s) = lower w"
    using arg_cong [where f = length, OF that] by simp
  then show ?thesis by (simp only: rx_match_None_iff runs_lit_ci) (simp, blast)
qed

lemma rx_search_iff: "rx_search r s \<noteq> None \<longleftrightarrow> (\<exists>u v. s = u @ v \<and> rx_match r v \<noteq> None)"
proof (induction s)
  case Nil
  then show ?case by auto
next
  case (Cons c cs)
  have split: "(\<exists>u v. c # cs = u @ v \<and> P v) \<longleftrightarrow> P (c # cs) \<or> (\<exists>u v. cs = u @ v \<and> P v)" for P
    by (metis append_Cons append_Nil list.exhaust list.inject)
  have "rx_search r (c # cs) \<noteq> None \<longleftrightarrow> rx_match r (c # cs) \<noteq> None \<or> rx_search r cs \<noteq> None"
    by (simp split: option.split)
  then show ?case
    by (simp only: split Cons.IH)
qed

end
