(* ===== verification/Py_Url.thy ===== *)
theory Py_Url
  imports Py_Str
begin

text \<open>
  Python's \<open>urllib.parse\<close> (CPython 3.11.10), which every URL of the program passes through:
  \<open>urlsplit\<close>, \<open>urlparse\<close>, \<open>urlunparse\<close> and \<open>urljoin\<close>, with the check of bracketed hosts
  by \<open>ipaddress\<close>. A malformed host is a \<open>ValueError\<close>. The NFKC check of host names is
  absent: no Latin-1 text fails it.
\<close>

section \<open>Bracketed hosts\<close>

definition is_hex :: "char \<Rightarrow> bool" where
  "is_hex c \<longleftrightarrow> is_dec c \<or> c \<in> set ''abcdefABCDEF''"

definition hextet_ok :: "string \<Rightarrow> bool" where
  "hextet_ok h \<longleftrightarrow> h \<noteq> [] \<and> length h \<le> 4 \<and> list_all is_hex h"

definition octet_ok :: "string \<Rightarrow> bool" where
  "octet_ok d \<longleftrightarrow> d \<noteq> [] \<and> list_all is_dec d \<and> length d \<le> 3 \<and>
     (d = ''0'' \<or> hd d \<noteq> CHR ''0'') \<and> digits_value d 0 \<le> 255"

definition ipv4_ok :: "string \<Rightarrow> bool" where
  "ipv4_ok s \<longleftrightarrow> (let ds = split_on (CHR ''.'') s in length ds = 4 \<and> list_all octet_ok ds)"

text \<open>The groups of an address whose embedded IPv4 tail is already two groups.\<close>

definition hextets_ok :: "string list \<Rightarrow> bool" where
  "hextets_ok ps \<longleftrightarrow>
     (let inner = [i \<leftarrow> [1..<length ps - 1]. ps ! i = []]
      in length ps \<le> 9 \<and>
         (case inner of
            [] \<Rightarrow> length ps = 8 \<and> list_all hextet_ok ps
          | [k] \<Rightarrow>
              (let nhi = (if hd ps = [] then k - 1 else k);
                   nlo = (if last ps = [] then length ps - k - 2 else length ps - k - 1)
               in (hd ps = [] \<longrightarrow> nhi = 0) \<and> (last ps = [] \<longrightarrow> nlo = 0) \<and>
                  nhi + nlo \<le> 7 \<and>
                  list_all hextet_ok (take nhi ps) \<and>
                  list_all hextet_ok (drop (length ps - nlo) ps))
          | _ \<Rightarrow> False))"

definition ipv6_ok :: "string \<Rightarrow> bool" where
  "ipv6_ok s \<longleftrightarrow>
     (let addr = takeWhile (\<lambda>c. c \<noteq> CHR ''%'') s; zone = dropWhile (\<lambda>c. c \<noteq> CHR ''%'') s;
          ps = split_on (CHR '':'') addr
      in CHR ''/'' \<notin> set s \<and>
         (zone = [] \<or> tl zone \<noteq> [] \<and> CHR ''%'' \<notin> set (tl zone)) \<and>
         3 \<le> length ps \<and>
         (if CHR ''.'' \<in> set (last ps)
          then ipv4_ok (last ps) \<and> hextets_ok (butlast ps @ [''0'', ''0''])
          else hextets_ok ps))"

text \<open>\<open>_check_bracketed_host\<close>: an IPvFuture literal, or an IPv6 address.\<close>

definition ipvfuture_ok :: "string \<Rightarrow> bool" where
  "ipvfuture_ok s \<longleftrightarrow>
     (let v = takeWhile is_hex (tl s); r = dropWhile is_hex (tl s)
      in v \<noteq> [] \<and> length r \<ge> 2 \<and> hd r = CHR ''.'' \<and> CHR 0x0A \<notin> set (tl r))"

definition bracketed_ok :: "string \<Rightarrow> bool" where
  "bracketed_ok h \<longleftrightarrow> (if starts_with ''v'' h then ipvfuture_ok h else ipv6_ok h)"

section \<open>Splitting a URL\<close>

record url_parts =
  scheme :: string
  netloc :: string
  path :: string
  params :: string
  query :: string
  fragment :: string

definition scheme_char :: "char \<Rightarrow> bool" where
  "scheme_char c \<longleftrightarrow> is_ascii_alnum c \<or> c \<in> set ''+-.''"

definition c0_or_space :: "char \<Rightarrow> bool" where
  "c0_or_space c \<longleftrightarrow> code c \<le> 32"

definition unsafe_byte :: "char \<Rightarrow> bool" where
  "unsafe_byte c \<longleftrightarrow> code c \<in> {9, 10, 13}"

definition before_char :: "char \<Rightarrow> string \<Rightarrow> string" where
  "before_char c s = takeWhile (\<lambda>x. x \<noteq> c) s"

definition after_char :: "char \<Rightarrow> string \<Rightarrow> string" where
  "after_char c s = tl (dropWhile (\<lambda>x. x \<noteq> c) s)"

text \<open>The scheme, if the text before the first colon is one, and the rest.\<close>

definition split_scheme :: "string \<Rightarrow> string \<Rightarrow> string \<times> string" where
  "split_scheme url dflt =
     (let s = before_char (CHR '':'') url
      in if CHR '':'' \<in> set url \<and> s \<noteq> [] \<and> is_ascii_alpha (hd url) \<and> list_all scheme_char s
         then (lower s, after_char (CHR '':'') url) else (dflt, url))"

definition netloc_end :: "char \<Rightarrow> bool" where
  "netloc_end c \<longleftrightarrow> c \<in> set ''/?#''"

definition split_netloc :: "string \<Rightarrow> string \<times> string" where
  "split_netloc url =
     (if take 2 url = ''//''
      then (takeWhile (\<lambda>c. \<not> netloc_end c) (drop 2 url), dropWhile (\<lambda>c. \<not> netloc_end c) (drop 2 url))
      else ([], url))"

definition netloc_ok :: "string \<Rightarrow> bool" where
  "netloc_ok n \<longleftrightarrow>
     (if CHR ''['' \<in> set n \<and> CHR '']'' \<in> set n
      then bracketed_ok (before_char (CHR '']'') (after_char (CHR ''['') n))
      else CHR ''['' \<notin> set n \<and> CHR '']'' \<notin> set n)"

definition cut :: "char \<Rightarrow> string \<Rightarrow> string \<times> string" where
  "cut c s = (if c \<in> set s then split_first c s else (s, []))"

definition urlsplit :: "string \<Rightarrow> string \<Rightarrow> pyexn + url_parts" where
  "urlsplit url dflt =
     (let url = filter (\<lambda>c. \<not> unsafe_byte c) (lstrip_by c0_or_space url);
          dflt = filter (\<lambda>c. \<not> unsafe_byte c) (strip_by c0_or_space dflt);
          (sch, rest) = split_scheme url dflt;
          (net, rest) = split_netloc rest
      in if \<not> netloc_ok net then Inl (ValueError ''Invalid IPv6 URL'')
         else let (rest, frag) = cut (CHR ''#'') rest;
                  (pth, qry) = cut (CHR ''?'') rest
              in Inr \<lparr>scheme = sch, netloc = net, path = pth, params = [],
                      query = qry, fragment = frag\<rparr>)"

definition uses_relative :: "string list" where
  "uses_relative = [[], ''ftp'', ''http'', ''gopher'', ''nntp'', ''imap'', ''wais'', ''file'',
     ''https'', ''shttp'', ''mms'', ''prospero'', ''rtsp'', ''rtsps'', ''rtspu'', ''sftp'',
     ''svn'', ''svn+ssh'', ''ws'', ''wss'']"

definition uses_netloc :: "string list" where
  "uses_netloc = [[], ''ftp'', ''http'', ''gopher'', ''nntp'', ''telnet'', ''imap'', ''wais'',
     ''file'', ''mms'', ''https'', ''shttp'', ''snews'', ''prospero'', ''rtsp'', ''rtsps'',
     ''rtspu'', ''rsync'', ''svn'', ''svn+ssh'', ''sftp'', ''nfs'', ''git'', ''git+ssh'',
     ''ws'', ''wss'']"

definition uses_params :: "string list" where
  "uses_params = [[], ''ftp'', ''hdl'', ''prospero'', ''http'', ''imap'', ''https'', ''shttp'',
     ''rtsp'', ''rtsps'', ''rtspu'', ''sip'', ''sips'', ''mms'', ''sftp'', ''tel'']"

text \<open>\<open>_splitparams\<close> looks for the semicolon in the last segment of the path only.\<close>

definition last_segment :: "string \<Rightarrow> string" where
  "last_segment p = rev (takeWhile (\<lambda>c. c \<noteq> CHR ''/'') (rev p))"

definition splitparams :: "string \<Rightarrow> string \<times> string" where
  "splitparams p =
     (let l = last_segment p; d = take (length p - length l) p
      in if CHR '';'' \<in> set l then (d @ before_char (CHR '';'') l, after_char (CHR '';'') l)
         else (p, []))"

definition urlparse :: "string \<Rightarrow> string \<Rightarrow> pyexn + url_parts" where
  "urlparse url dflt =
     (case urlsplit url dflt of
        Inl e \<Rightarrow> Inl e
      | Inr u \<Rightarrow>
          (let (pth, prm) = (if scheme u \<in> set uses_params then splitparams (path u) else (path u, []))
           in Inr (u\<lparr>path := pth, params := prm\<rparr>)))"

section \<open>Putting a URL together\<close>

definition urlunsplit :: "string \<Rightarrow> string \<Rightarrow> string \<Rightarrow> string \<Rightarrow> string \<Rightarrow> string" where
  "urlunsplit sch net url qry frag =
     (let url = (if net \<noteq> [] \<or> sch \<noteq> [] \<and> sch \<in> set uses_netloc \<or> take 2 url = ''//''
                 then ''//'' @ net @ (if url \<noteq> [] \<and> hd url \<noteq> CHR ''/'' then ''/'' @ url else url)
                 else url);
          url = (if sch \<noteq> [] then sch @ '':'' @ url else url);
          url = (if qry \<noteq> [] then url @ ''?'' @ qry else url)
      in if frag \<noteq> [] then url @ ''#'' @ frag else url)"

definition urlunparse :: "url_parts \<Rightarrow> string" where
  "urlunparse u = urlunsplit (scheme u) (netloc u)
     (if params u \<noteq> [] then path u @ '';'' @ params u else path u) (query u) (fragment u)"

section \<open>Joining\<close>

text \<open>The loop over the segments: \<open>..\<close> pops, \<open>.\<close> is skipped, the rest is pushed.\<close>

fun resolve_segments :: "string list \<Rightarrow> string list \<Rightarrow> string list" where
  "resolve_segments acc [] = acc"
| "resolve_segments acc (s # ss) =
     (if s = ''..'' then resolve_segments (butlast acc) ss
      else if s = ''.'' then resolve_segments acc ss
      else resolve_segments (acc @ [s]) ss)"

definition squeeze_inner :: "string list \<Rightarrow> string list" where
  "squeeze_inner ss =
     (if length ss \<le> 2 then ss
      else hd ss # filter (\<lambda>s. s \<noteq> []) (butlast (tl ss)) @ [last ss])"

definition resolve_path :: "string \<Rightarrow> string \<Rightarrow> string" where
  "resolve_path bpath p =
     (let bs = split_on (CHR ''/'') bpath;
          bs = (if last bs \<noteq> [] then butlast bs else bs);
          segs = (if take 1 p = ''/'' then split_on (CHR ''/'') p
                  else squeeze_inner (bs @ split_on (CHR ''/'') p));
          res = resolve_segments [] segs;
          res = (if last segs = ''.'' \<or> last segs = ''..'' then res @ [[]] else res);
          joined = join ''/'' res
      in if joined = [] then ''/'' else joined)"

definition urljoin :: "string \<Rightarrow> string \<Rightarrow> pyexn + string" where
  "urljoin base url =
     (if base = [] then Inr url
      else if url = [] then Inr base
      else case urlparse base [] of
        Inl e \<Rightarrow> Inl e
      | Inr b \<Rightarrow>
          (case urlparse url (scheme b) of
             Inl e \<Rightarrow> Inl e
           | Inr u \<Rightarrow>
               if scheme u \<noteq> scheme b \<or> scheme u \<notin> set uses_relative then Inr url
               else if scheme u \<in> set uses_netloc \<and> netloc u \<noteq> [] then Inr (urlunparse u)
               else
                 (let u = (if scheme u \<in> set uses_netloc then u\<lparr>netloc := netloc b\<rparr> else u)
                  in if path u = [] \<and> params u = []
                     then Inr (urlunparse (u\<lparr>path := path b, params := params b,
                            query := (if query u = [] then query b else query u)\<rparr>))
                     else Inr (urlunparse (u\<lparr>path := resolve_path (path b) (path u)\<rparr>)))))"

end
