(* ===== verification/Results.thy ===== *)
theory Results
  imports Prelude
begin

text \<open>
  \<open>results.py\<close>: the two result classes. A \<open>Success\<close> carries a value (\<open>True\<close> when none is
  given), a \<open>Failure\<close> a message and an optional code. Reading the attribute of the other
  class raises \<open>ValueError\<close>; \<open>Success\<close> has no attribute \<open>code\<close> at all.
\<close>

section \<open>The classes and their methods\<close>

datatype ('v, 'c) presult = Success 'v | Failure string "'c option"

text \<open>\<open>Success(value=True)\<close>: the constructor's argument is optional.\<close>

definition success_init :: "(bool \<Rightarrow> 'v) \<Rightarrow> 'v option \<Rightarrow> ('v, 'c) presult" where
  "success_init bool_value value = (case value of None \<Rightarrow> Success (bool_value True) | Some v \<Rightarrow> Success v)"

definition failure_init :: "string \<Rightarrow> 'c option \<Rightarrow> ('v, 'c) presult" where
  "failure_init error_message code = Failure error_message code"

fun bool_of :: "('v, 'c) presult \<Rightarrow> bool" where
  "bool_of (Success _) = True"
| "bool_of (Failure _ _) = False"

fun is_success :: "('v, 'c) presult \<Rightarrow> bool" where
  "is_success (Success _) = True"
| "is_success (Failure _ _) = False"

fun is_failure :: "('v, 'c) presult \<Rightarrow> bool" where
  "is_failure (Success _) = False"
| "is_failure (Failure _ _) = True"

fun get_value :: "('v, 'c) presult \<Rightarrow> pyexn + 'v" where
  "get_value (Success v) = Inr v"
| "get_value (Failure _ _) =
     Inl (ValueError ''No se puede acceder a la propiedad value en una instancia de Failure.'')"

fun get_error_message :: "('v, 'c) presult \<Rightarrow> pyexn + string" where
  "get_error_message (Success _) =
     Inl (ValueError ''No se puede acceder a la propiedad error_message en una instancia de Success.'')"
| "get_error_message (Failure m _) = Inr m"

fun get_code :: "('v, 'c) presult \<Rightarrow> pyexn + 'c option" where
  "get_code (Success _) = Inl (AttributeError ''code'')"
| "get_code (Failure _ c) = Inr c"

text \<open>
  \<open>repr\<close> of the values, messages and codes is Python's own and an argument here; \<open>str\<close> of a
  code likewise.
\<close>

fun repr_of :: "('v \<Rightarrow> string) \<Rightarrow> (string \<Rightarrow> string) \<Rightarrow> ('c \<Rightarrow> string) \<Rightarrow> ('v, 'c) presult \<Rightarrow> string" where
  "repr_of rv rm rc (Success v) = ''Success('' @ rv v @ '')''"
| "repr_of rv rm rc (Failure m None) = ''Failure('' @ rm m @ '')''"
| "repr_of rv rm rc (Failure m (Some c)) = ''Failure('' @ rm m @ '', code='' @ rc c @ '')''"

text \<open>\<open>Success\<close> defines no \<open>__str__\<close>, so its text is its \<open>repr\<close>.\<close>

fun str_of :: "('v \<Rightarrow> string) \<Rightarrow> ('c \<Rightarrow> string) \<Rightarrow> ('v, 'c) presult \<Rightarrow> string" where
  "str_of rv sc (Success v) = ''Success('' @ rv v @ '')''"
| "str_of rv sc (Failure m None) = m"
| "str_of rv sc (Failure m (Some c)) = sc c @ '': '' @ m"

section \<open>Facts\<close>

lemma is_failure_iff: "is_failure r \<longleftrightarrow> \<not> is_success r"
  by (cases r) auto

lemma bool_of_iff: "bool_of r \<longleftrightarrow> is_success r"
  by (cases r) auto

lemma get_value_raises_iff: "raised (get_value r) \<longleftrightarrow> is_failure r"
  by (cases r) (auto simp: raised_def)

lemma get_error_message_raises_iff: "raised (get_error_message r) \<longleftrightarrow> is_success r"
  by (cases r) (auto simp: raised_def)

lemmas result_iffs = is_failure_iff bool_of_iff get_value_raises_iff get_error_message_raises_iff

end
