(* ===== verification/Seqtools.thy ===== *)
theory Seqtools
  imports Py_Str
begin

text \<open>
  \<open>seqtools.py\<close>: utilities on sequences. An iterable is the list of its items. The two
  generators with a \<open>while\<close> loop, \<open>batch\<close> and \<open>text_as_fragments\<close>, need not end: their
  models return the list of everything they yield, and \<open>None\<close> when they never finish.
\<close>

section \<open>Selecting and counting\<close>

fun first :: "'a list \<Rightarrow> ('a \<Rightarrow> bool) \<Rightarrow> 'a option \<Rightarrow> 'a option" where
  "first [] condition dflt = dflt"
| "first (item # items) condition dflt =
     (if condition item then Some item else first items condition dflt)"

fun count_if :: "'a list \<Rightarrow> ('a \<Rightarrow> bool) \<Rightarrow> nat" where
  "count_if [] condition = 0"
| "count_if (item # items) condition =
     (if condition item then 1 + count_if items condition else count_if items condition)"

definition split_iter :: "'a list \<Rightarrow> ('a \<Rightarrow> bool) \<Rightarrow> 'a list \<times> 'a list" where
  "split_iter iterable condition =
     (let (a, b) = (iterable, iterable)
      in (filter condition a, filter (\<lambda>x. \<not> condition x) b))"

definition split_list :: "'a list \<Rightarrow> ('a \<Rightarrow> bool) \<Rightarrow> 'a list \<times> 'a list" where
  "split_list iterable condition =
     (let (positive_items, negative_items) = split_iter iterable condition
      in (positive_items, negative_items))"

section \<open>Batches\<close>

text \<open>
  The inner \<open>for\<close> loop: up to \<open>n\<close> items go from the iterator to the chunk. The flag tells
  that the iterator was exhausted on the way (\<open>StopIteration\<close>).
\<close>

fun fill_chunk :: "nat \<Rightarrow> 'a list \<Rightarrow> 'a list \<Rightarrow> 'a list \<times> 'a list \<times> bool" where
  "fill_chunk 0 iterator chunk = (chunk, iterator, False)"
| "fill_chunk (Suc n) [] chunk = (chunk, [], True)"
| "fill_chunk (Suc n) (x # xs) chunk = fill_chunk n xs (chunk @ [x])"

definition yield_chunk :: "'a list \<Rightarrow> 'a list list" where
  "yield_chunk chunk = (if chunk = [] then [] else [chunk])"

partial_function (option) batch :: "'a list \<Rightarrow> int \<Rightarrow> 'a list list option" where
  "batch iterator sz =
     (case fill_chunk (nat sz) iterator [] of
        (chunk, rest, stopped) \<Rightarrow>
          if stopped then Some (yield_chunk chunk)
          else Option.bind (batch rest sz) (\<lambda>later. Some (yield_chunk chunk @ later)))"

section \<open>Fragments of a text\<close>

definition newline :: string where
  "newline = [CHR 0x0A]"

definition split_index :: "string \<Rightarrow> int \<Rightarrow> int \<Rightarrow> int" where
  "split_index text mean_block_size max_block_size =
     (let idx = find_from text newline mean_block_size;
          idx = (if idx = -1 \<or> idx > max_block_size then find_from text '' '' mean_block_size else idx)
      in if idx = -1 \<or> idx > max_block_size then max_block_size else idx)"

partial_function (option) text_as_fragments :: "string \<Rightarrow> int \<Rightarrow> int \<Rightarrow> string list option" where
  "text_as_fragments text mean_block_size max_block_size =
     (if text = [] then Some []
      else if int (length text) \<le> max_block_size then Some [text]
      else
        let idx = split_index text mean_block_size max_block_size
        in Option.bind (text_as_fragments (slice_from text idx) mean_block_size max_block_size)
             (\<lambda>later. Some (slice_to text idx # later)))"

section \<open>Facts\<close>

lemma first_as_find: "first xs c d = (case List.find c xs of Some x \<Rightarrow> Some x | None \<Rightarrow> d)"
  by (induction xs) auto

lemma first_is_head: "first xs (\<lambda>_. True) None = head xs"
  by (cases xs) auto

lemma first_SomeD: "first xs c None = Some x \<Longrightarrow> x \<in> set xs \<and> c x"
  by (induction xs) (auto split: if_splits)

lemma first_None_iff: "first xs c None = None \<longleftrightarrow> (\<forall>x \<in> set xs. \<not> c x)"
  by (induction xs) auto

lemma count_if_length: "count_if xs c = length (filter c xs)"
  by (induction xs) auto

lemma fill_chunk_eq:
  "fill_chunk n xs ch =
     (if n \<le> length xs then (ch @ take n xs, drop n xs, False) else (ch @ xs, [], True))"
  by (induction n xs ch rule: fill_chunk.induct) auto

lemma batch_unfold:
  "batch xs (int n) =
     (if length xs < n then Some (yield_chunk xs)
      else Option.bind (batch (drop n xs) (int n)) (\<lambda>later. Some (yield_chunk (take n xs) @ later)))"
  by (subst batch.simps) (simp add: fill_chunk_eq)

text \<open>The shape of a list of chunks of size \<open>n\<close>: all full but the last, none empty.\<close>

definition chunked :: "nat \<Rightarrow> 'a list list \<Rightarrow> bool" where
  "chunked n ys \<longleftrightarrow> (\<forall>y \<in> set (butlast ys). length y = n) \<and> (\<forall>y \<in> set ys. y \<noteq> [] \<and> length y \<le> n)"

lemma batch_total:
  assumes "0 < n"
  shows "\<exists>ys. batch xs (int n) = Some ys \<and> concat ys = xs \<and> chunked n ys"
proof (induction "length xs" arbitrary: xs rule: less_induct)
  case less
  show ?case
  proof (cases "length xs < n")
    case True
    then show ?thesis by (subst batch_unfold) (auto simp: yield_chunk_def chunked_def)
  next
    case False
    with assms have "length (drop n xs) < length xs" by auto
    from less [OF this] obtain ys
      where ys: "batch (drop n xs) (int n) = Some ys" "concat ys = drop n xs" "chunked n ys"
      by blast
    from False assms have "take n xs \<noteq> []" "length (take n xs) = n" by auto
    with False ys show ?thesis
      by (subst batch_unfold) (auto simp: yield_chunk_def chunked_def)
  qed
qed

lemma batch_diverges: "sz \<le> 0 \<Longrightarrow> batch xs sz = None"
proof (rule ccontr)
  assume le: "sz \<le> 0" and "batch xs sz \<noteq> None"
  then obtain ys where "batch xs sz = Some ys" by auto
  then have "0 < sz"
  proof (rule batch.raw_induct [where P = "\<lambda>xs sz ys. 0 < sz", rotated])
    fix b :: "'a list \<Rightarrow> int \<Rightarrow> 'a list list option" and it sz out
    assume IH: "\<And>it n out. b it n = Some out \<Longrightarrow> 0 < n"
      and eq: "(case fill_chunk (nat sz) it [] of
        (chunk, rest, stopped) \<Rightarrow>
          if stopped then Some (yield_chunk chunk)
          else Option.bind (b rest sz) (\<lambda>later. Some (yield_chunk chunk @ later))) = Some out"
    show "0 < sz"
      using IH eq by (cases "0 < sz") (auto simp: bind_eq_Some_conv)
  qed
  with le show False by simp
qed

lemma split_index_range:
  assumes "0 < mean" "0 < mx" "mx < int (length s)"
  defines "i \<equiv> split_index s mean mx"
  shows "0 < i" and "i \<le> mx" and "mean \<le> i \<or> i = mx"
  using assms find_from_bounds(1) [of s newline mean] find_from_bounds(1) [of s "'' ''" mean]
  by (auto simp: split_index_def Let_def i_def not_less)

text \<open>Fragments of a text: none longer than \<open>mx\<close>, all but the last of the chosen size.\<close>

definition fragmented :: "int \<Rightarrow> int \<Rightarrow> string list \<Rightarrow> bool" where
  "fragmented mean mx fs \<longleftrightarrow>
     (\<forall>f \<in> set fs. f \<noteq> [] \<and> int (length f) \<le> mx) \<and>
     (\<forall>f \<in> set (butlast fs). min mean mx \<le> int (length f))"

lemma fragments_total:
  assumes "0 < mean" "0 < mx"
  shows "\<exists>fs. text_as_fragments s mean mx = Some fs \<and> concat fs = s \<and> fragmented mean mx fs"
proof (induction "length s" arbitrary: s rule: less_induct)
  case less
  show ?case
  proof (cases "int (length s) \<le> mx")
    case True
    then show ?thesis by (subst text_as_fragments.simps) (auto simp: fragmented_def)
  next
    case False
    define i where "i = split_index s mean mx"
    from False assms have i: "0 < i" "i \<le> mx" "mean \<le> i \<or> i = mx"
      using split_index_range [of mean mx s] by (auto simp: i_def)
    then have "length (slice_from s i) < length s"
      using False assms by (auto simp: slice_from_def clip_def)
    from less [OF this] obtain fs
      where fs: "text_as_fragments (slice_from s i) mean mx = Some fs"
        "concat fs = slice_from s i" "fragmented mean mx fs"
      by blast
    have len: "int (length (slice_to s i)) = i"
      using False i by (auto simp: slice_to_def clip_def)
    have "text_as_fragments s mean mx = Some (slice_to s i # fs)"
      using False fs(1) assms
      by (subst text_as_fragments.simps) (auto simp: i_def [symmetric])
    moreover have "fragmented mean mx (slice_to s i # fs)"
      using fs(3) i len by (auto simp: fragmented_def)
    ultimately show ?thesis using fs(2) by auto
  qed
qed

text \<open>With a mean size of zero the generator yields empty fragments for ever.\<close>

lemma fragments_diverge:
  assumes "0 \<le> mx" "mx < int (length t) + 1"
  shows "text_as_fragments (newline @ t) 0 mx = None"
proof (rule ccontr)
  assume "text_as_fragments (newline @ t) 0 mx \<noteq> None"
  then obtain fs where "text_as_fragments (newline @ t) 0 mx = Some fs" by auto
  then have "newline @ t = newline @ t \<and> (0::int) = 0 \<and> mx = mx \<longrightarrow> False"
  proof (rule text_as_fragments.raw_induct
      [where P = "\<lambda>s mean m fs. s = newline @ t \<and> mean = 0 \<and> m = mx \<longrightarrow> False", rotated])
    fix g :: "string \<Rightarrow> int \<Rightarrow> int \<Rightarrow> string list option" and s mean m out
    assume IH: "\<And>s mean m out. g s mean m = Some out \<Longrightarrow>
        s = newline @ t \<and> mean = 0 \<and> m = mx \<longrightarrow> False"
      and eq: "(if s = [] then Some []
      else if int (length s) \<le> m then Some [s]
      else let idx = split_index s mean m
        in Option.bind (g (slice_from s idx) mean m)
             (\<lambda>later. Some (slice_to s idx # later))) = Some out"
    have idx: "split_index (newline @ t) 0 mx = 0"
      using assms by (simp add: split_index_def find_from_def clip_def newline_def)
    show "s = newline @ t \<and> mean = 0 \<and> m = mx \<longrightarrow> False"
    proof
      assume "s = newline @ t \<and> mean = 0 \<and> m = mx"
      moreover from this have "\<exists>out'. g (newline @ t) 0 mx = Some out'"
        using eq assms idx
        by (auto simp: newline_def slice_from_def clip_def bind_eq_Some_conv split: if_splits)
      ultimately show False using IH by blast
    qed
  qed
  then show False by simp
qed

end
