(* ===== verification/Webparser.thy ===== *)
theory Webparser
  imports Py_Regex
begin

text \<open>
  \<open>webparser.py\<close>: the test whether a downloaded body looks like an HTML document, and its
  reading without regular expressions.
\<close>

definition pat_html_begin :: rx where
  "pat_html_begin = RCat (lit_ci ''<html'') (RCat (RStar dot) (RChr (\<lambda>c. c = CHR ''>'')))"

definition is_valid_html :: "string \<Rightarrow> bool" where
  "is_valid_html body =
     (let body = strip body
      in if length body < 14 then False
         else if lower (drop (length body - 7) body) \<noteq> ''</html>'' then False
         else if rx_search pat_html_begin body = None then False
         else True)"

text \<open>The specification: the text opens an \<open>html\<close> tag that ends on the same line.\<close>

definition opens_html :: "string \<Rightarrow> bool" where
  "opens_html s \<longleftrightarrow>
     (\<exists>u tag attrs v. s = u @ tag @ attrs @ ''>'' @ v \<and> lower tag = ''<html'' \<and> CHR 0x0A \<notin> set attrs)"

lemma list_all_dot: "list_all dot u \<longleftrightarrow> CHR 0x0A \<notin> set u"
  by (auto simp: list_all_iff dot_def)

lemma lower_html: "lower ''<html'' = ''<html''"
  by code_simp

lemma runs_html:
  "runs (lit_ci ''<html'') (g, s) =
     (if 5 \<le> length s \<and> lower (take 5 s) = ''<html'' then [(g, drop 5 s)] else [])"
  by (simp add: runs_lit_ci lower_html eval_nat_numeral)

lemma lower_eq_html_length: "lower t = ''<html'' \<Longrightarrow> length t = 5"
proof -
  assume "lower t = ''<html''"
  then have "length (lower t) = length ''<html''" by (rule arg_cong)
  then show ?thesis by simp
qed

lemma match_html_begin:
  "rx_match pat_html_begin s \<noteq> None \<longleftrightarrow>
     (\<exists>tag attrs v. s = tag @ attrs @ ''>'' @ v \<and> lower tag = ''<html'' \<and> CHR 0x0A \<notin> set attrs)"
    (is "_ \<longleftrightarrow> ?spec")
proof -
  have "rx_match pat_html_begin s \<noteq> None \<longleftrightarrow>
      lower (take 5 s) = ''<html'' \<and>
      (\<exists>t \<in> set (star_runs dot (drop 5 s)). t \<noteq> [] \<and> hd t = CHR ''>'')"
    using lower_eq_html_length [of "take 5 s"]
    by (auto simp: rx_match_None_iff pat_html_begin_def runs_html chr_runs_eq)
  also have "\<dots> \<longleftrightarrow> ?spec"
  proof
    assume l: "lower (take 5 s) = ''<html'' \<and>
      (\<exists>t \<in> set (star_runs dot (drop 5 s)). t \<noteq> [] \<and> hd t = CHR ''>'')"
    then obtain u v where "drop 5 s = u @ ''>'' @ v" "CHR 0x0A \<notin> set u"
      by (auto simp: set_star_runs list_all_dot neq_Nil_conv)
    then have "s = take 5 s @ u @ ''>'' @ v" by (metis append_take_drop_id)
    with l \<open>CHR 0x0A \<notin> set u\<close> show ?spec by blast
  next
    assume ?spec
    then obtain tag attrs v where s: "s = tag @ attrs @ ''>'' @ v" "lower tag = ''<html''"
        "CHR 0x0A \<notin> set attrs"
      by blast
    moreover from s(2) have "length tag = 5"
      by (rule lower_eq_html_length)
    ultimately show "lower (take 5 s) = ''<html'' \<and>
      (\<exists>t \<in> set (star_runs dot (drop 5 s)). t \<noteq> [] \<and> hd t = CHR ''>'')"
      by (auto simp: set_star_runs list_all_dot intro!: bexI [where x = "''>'' @ v"])
  qed
  finally show ?thesis .
qed

lemma search_html_begin: "rx_search pat_html_begin s \<noteq> None \<longleftrightarrow> opens_html s"
  by (simp only: rx_search_iff match_html_begin opens_html_def) blast

lemma is_valid_html_spec:
  "is_valid_html body \<longleftrightarrow>
     14 \<le> length (strip body) \<and>
     lower (drop (length (strip body) - 7) (strip body)) = ''</html>'' \<and>
     opens_html (strip body)"
  using search_html_begin [of "strip body"] by (auto simp: is_valid_html_def Let_def)

end
