(* ===== verification/Table.thy ===== *)
theory Table
  imports Prelude
begin

text \<open>
  Database tables. A table is the list of its rows in the order in which the database scans
  them; nothing is assumed of that order, so a query sorted by a column stands for any
  choice among rows that are equal there. Rows have a numeric primary key. The locale
  \<open>keyed_table\<close> is the interface the models rely on: what a read by key returns after a
  save and after a deletion.
\<close>

section \<open>Operations on rows\<close>

definition row_get :: "('r \<Rightarrow> nat) \<Rightarrow> nat \<Rightarrow> 'r list \<Rightarrow> 'r option" where
  "row_get key k rows = head (filter (\<lambda>r. key r = k) rows)"

text \<open>\<open>Model.save()\<close>: update the row of that key, insert one when there is none.\<close>

definition row_put :: "('r \<Rightarrow> nat) \<Rightarrow> 'r \<Rightarrow> 'r list \<Rightarrow> 'r list" where
  "row_put key r rows =
     (if \<exists>x \<in> set rows. key x = key r then map (\<lambda>x. if key x = key r then r else x) rows
      else rows @ [r])"

definition row_del :: "('r \<Rightarrow> bool) \<Rightarrow> 'r list \<Rightarrow> 'r list" where
  "row_del P rows = filter (\<lambda>r. \<not> P r) rows"

text \<open>Keys are unique and below the sequence that gives the next one.\<close>

definition keys_ok :: "('r \<Rightarrow> nat) \<Rightarrow> nat \<Rightarrow> 'r list \<Rightarrow> bool" where
  "keys_ok key next rows \<longleftrightarrow> distinct (map key rows) \<and> (\<forall>r \<in> set rows. key r < next)"

lemma row_get_Some: "row_get key k rows = Some r \<Longrightarrow> key r = k \<and> r \<in> set rows"
  unfolding row_get_def by (drule head_Some_in) auto

lemma row_get_iff:
  assumes "distinct (map key rows)"
  shows "row_get key k rows = Some r \<longleftrightarrow> key r = k \<and> r \<in> set rows"
proof
  assume "key r = k \<and> r \<in> set rows"
  with assms show "row_get key k rows = Some r"
    using filter_map_distinct [of key rows r] by (auto simp: row_get_def)
qed (rule row_get_Some)

lemma row_get_None: "row_get key k rows = None \<longleftrightarrow> (\<forall>r \<in> set rows. key r \<noteq> k)"
  by (auto simp: row_get_def filter_empty_conv)

lemma map_key_row_put:
  "map key (row_put key r rows) =
     (if key r \<in> key ` set rows then map key rows else map key rows @ [key r])"
  by (auto simp: row_put_def image_iff) metis

lemma set_row_put:
  assumes "distinct (map key rows)"
  shows "set (row_put key r rows) = insert r {x \<in> set rows. key x \<noteq> key r}"
  using assms by (auto simp: row_put_def)

lemma distinct_row_put: "distinct (map key rows) \<Longrightarrow> distinct (map key (row_put key r rows))"
  by (auto simp: map_key_row_put)

lemma row_get_put: "row_get key k (row_put key r rows) = (if k = key r then Some r else row_get key k rows)"
proof (cases "\<exists>x \<in> set rows. key x = key r")
  case True
  have "filter (\<lambda>x. key x = k) (map (\<lambda>x. if key x = key r then r else x) rows) =
      (if k = key r then map (\<lambda>_. r) (filter (\<lambda>x. key x = key r) rows) else filter (\<lambda>x. key x = k) rows)"
    by (induction rows) auto
  moreover from True have "filter (\<lambda>x. key x = key r) rows \<noteq> []" by (auto simp: filter_empty_conv)
  ultimately show ?thesis
    using True by (cases "filter (\<lambda>x. key x = key r) rows") (auto simp: row_get_def row_put_def)
next
  case False
  then show ?thesis
    by (auto simp: row_get_def row_put_def filter_empty_conv head_def split: list.splits)
qed

lemma row_get_del:
  assumes "distinct (map key rows)"
  shows "row_get key k (row_del P rows) =
     (case row_get key k rows of Some r \<Rightarrow> if P r then None else Some r | None \<Rightarrow> None)"
proof (cases "row_get key k rows")
  case None
  then have "row_get key k (row_del P rows) = None" by (auto simp: row_get_None row_del_def)
  with None show ?thesis by simp
next
  case (Some r)
  with assms have r: "key r = k" "r \<in> set rows" by (auto dest: row_get_Some)
  have d: "distinct (map key (row_del P rows))"
    using assms by (simp add: row_del_def distinct_map_filterI)
  show ?thesis
  proof (cases "P r")
    case True
    with r assms Some show ?thesis
      by (auto simp: row_get_None row_del_def dest: distinct_map_eqD)
  next
    case False
    with r have "row_get key k (row_del P rows) = Some r"
      unfolding row_get_iff [OF d] by (simp add: row_del_def)
    with False Some show ?thesis by simp
  qed
qed

lemma set_row_del [simp]: "set (row_del P rows) = {r \<in> set rows. \<not> P r}"
  by (auto simp: row_del_def)

lemma keys_ok_put: "keys_ok key n rows \<Longrightarrow> key r < n \<Longrightarrow> keys_ok key n (row_put key r rows)"
  by (auto simp: keys_ok_def distinct_row_put set_row_put)

lemma keys_ok_insert:
  "keys_ok key n rows \<Longrightarrow> key r = n \<Longrightarrow> keys_ok key (Suc n) (row_put key r rows)"
  by (auto simp: keys_ok_def distinct_row_put set_row_put)

lemma keys_ok_del: "keys_ok key n rows \<Longrightarrow> keys_ok key n (row_del P rows)"
  by (auto simp: keys_ok_def row_del_def distinct_map_filterI)

lemma keys_ok_fresh: "keys_ok key n rows \<Longrightarrow> row_get key n rows = None"
  by (auto simp: keys_ok_def row_get_None)

section \<open>The interface of a table\<close>

locale keyed_table =
  fixes key :: "'r \<Rightarrow> nat"
    and rows :: "'w \<Rightarrow> 'r list"
    and get :: "nat \<Rightarrow> 'w \<Rightarrow> 'r option"
    and put :: "'r \<Rightarrow> 'w \<Rightarrow> 'w"
    and ok :: "'w \<Rightarrow> bool"
  assumes get_iff: "ok w \<Longrightarrow> get k w = Some r \<longleftrightarrow> key r = k \<and> r \<in> set (rows w)"
    and get_put: "get k (put r w) = (if k = key r then Some r else get k w)"
    and ok_put: "ok w \<Longrightarrow> get (key r) w \<noteq> None \<Longrightarrow> ok (put r w)"
begin

lemma get_put_same: "get (key r) (put r w) = Some r"
  by (simp add: get_put)

lemma get_put_other: "k \<noteq> key r \<Longrightarrow> get k (put r w) = get k w"
  by (simp add: get_put)

lemma key_of_get: "ok w \<Longrightarrow> get k w = Some r \<Longrightarrow> key r = k"
  by (simp add: get_iff)

lemma get_in_rows: "ok w \<Longrightarrow> get k w = Some r \<Longrightarrow> r \<in> set (rows w)"
  by (simp add: get_iff)

lemma get_of_row: "ok w \<Longrightarrow> r \<in> set (rows w) \<Longrightarrow> get (key r) w = Some r"
  by (simp add: get_iff)

lemma same_key: "ok w \<Longrightarrow> r \<in> set (rows w) \<Longrightarrow> s \<in> set (rows w) \<Longrightarrow> key r = key s \<Longrightarrow> r = s"
  by (metis get_of_row option.inject)

lemma saved_rows:
  assumes "ok w" "get (key r) w \<noteq> None"
  shows "set (rows (put r w)) = insert r {s \<in> set (rows w). key s \<noteq> key r}"
proof -
  have iff: "s \<in> set (rows v) \<longleftrightarrow> get (key s) v = Some s" if "ok v" for s v
    using that by (simp add: get_iff)
  show ?thesis
  proof (rule set_eqI)
    fix s
    show "s \<in> set (rows (put r w)) \<longleftrightarrow> s \<in> insert r {s \<in> set (rows w). key s \<noteq> key r}"
      using iff [OF ok_put [OF assms], of s] iff [OF assms(1), of s]
      by (cases "key s = key r") (auto simp: get_put)
  qed
qed

lemma last_save_wins: "get k (put r (put s w)) = (if k = key r then Some r else get k (put s w))"
  by (simp add: get_put)

end

end
