(* ===== verification/Link_Parser.thy ===== *)
theory Link_Parser
  imports Py_Regex Seqtools
begin

text \<open>
  \<open>parser.py\<close>: the extraction of links from a page. \<open>HTMLParser\<close> of the standard library
  turns the text into start tags; the model starts from the list of these (tag and
  attributes, in the order of the text). A Python \<open>set\<close> is the list of its elements in
  the order of insertion, and \<open>iter\<close> is the order in which CPython iterates over it.
\<close>

section \<open>Excluded paths\<close>

definition EXCLUDE_PATHS :: "rx list" where
  "EXCLUDE_PATHS = [lit_ci ''/api/'', lit_ci ''/api2/'', lit_ci ''/__debug__/'']"

fun excluded_by :: "rx list \<Rightarrow> string \<Rightarrow> bool" where
  "excluded_by [] url = False"
| "excluded_by (pattern # patterns) url =
     (if rx_match pattern url \<noteq> None then True else excluded_by patterns url)"

definition is_valid_url :: "string \<Rightarrow> bool" where
  "is_valid_url url = (if excluded_by EXCLUDE_PATHS url then False else True)"

section \<open>The extractor\<close>

record link_extractor =
  links :: "string list"
  images :: "string list"
  styles :: "string list"
  scripts :: "string list"

definition extractor_init :: link_extractor where
  "extractor_init = \<lparr>links = [], images = [], styles = [], scripts = []\<rparr>"

definition set_add :: "'a \<Rightarrow> 'a list \<Rightarrow> 'a list" where
  "set_add x xs = (if x \<in> set xs then xs else xs @ [x])"

definition all_links :: "(string list \<Rightarrow> string list) \<Rightarrow> link_extractor \<Rightarrow> string list" where
  "all_links iter p = iter (styles p) @ iter (scripts p) @ iter (images p) @ iter (links p)"

type_synonym attributes = "(string \<times> string option) list"

text \<open>\<open>dict(attrs).get(name)\<close>, where it is true: the last attribute of that name, not empty.\<close>

definition get_attr :: "attributes \<Rightarrow> string \<Rightarrow> string option" where
  "get_attr attrs name =
     (case map_of (rev attrs) name of
        Some (Some v) \<Rightarrow> (if v = [] then None else Some v)
      | _ \<Rightarrow> None)"

definition handle_starttag :: "string \<Rightarrow> attributes \<Rightarrow> link_extractor \<Rightarrow> link_extractor" where
  "handle_starttag tag attrs p =
     (if tag = ''a'' then
        (case get_attr attrs ''href'' of
           Some url \<Rightarrow> if is_valid_url url then p\<lparr>links := set_add url (links p)\<rparr> else p
         | None \<Rightarrow> p)
      else if tag = ''link'' then
        (case get_attr attrs ''href'' of
           Some url \<Rightarrow> p\<lparr>styles := set_add url (styles p)\<rparr> | None \<Rightarrow> p)
      else if tag = ''img'' then
        (case get_attr attrs ''src'' of
           Some url \<Rightarrow> p\<lparr>images := set_add url (images p)\<rparr> | None \<Rightarrow> p)
      else if tag = ''script'' then
        (case get_attr attrs ''src'' of
           Some url \<Rightarrow> p\<lparr>scripts := set_add url (scripts p)\<rparr> | None \<Rightarrow> p)
      else p)"

type_synonym start_tag = "string \<times> attributes"

fun feed :: "start_tag list \<Rightarrow> link_extractor \<Rightarrow> link_extractor" where
  "feed [] p = p"
| "feed (t # ts) p = feed ts (handle_starttag (fst t) (snd t) p)"

section \<open>Facts\<close>

lemma set_set_add [simp]: "set (set_add x xs) = insert x (set xs)"
  by (auto simp: set_add_def)

lemma distinct_set_add: "distinct xs \<Longrightarrow> distinct (set_add x xs)"
  by (simp add: set_add_def)

lemma excluded_by_iff: "excluded_by ps url \<longleftrightarrow> (\<exists>p \<in> set ps. rx_match p url \<noteq> None)"
  by (induction ps) auto

lemma lower_excluded: "lower ''/api/'' = ''/api/''" "lower ''/api2/'' = ''/api2/''"
  "lower ''/__debug__/'' = ''/__debug__/''"
  by code_simp+

lemma is_valid_url_spec:
  "is_valid_url url \<longleftrightarrow>
     lower (take 5 url) \<noteq> ''/api/'' \<and> lower (take 6 url) \<noteq> ''/api2/'' \<and>
     lower (take 11 url) \<noteq> ''/__debug__/''"
proof -
  have len: "length ''/api/'' = 5" "length ''/api2/'' = 6" "length ''/__debug__/'' = 11"
    by simp_all
  show ?thesis
    using rx_match_lit_ci [of "''/api/''" url] rx_match_lit_ci [of "''/api2/''" url]
      rx_match_lit_ci [of "''/__debug__/''" url]
    by (simp only: is_valid_url_def excluded_by_iff EXCLUDE_PATHS_def lower_excluded len
        list.set bex_simps if_bool_eq_conj) blast
qed

text \<open>What one start tag contributes.\<close>

definition tag_link :: "start_tag \<Rightarrow> string option" where
  "tag_link t =
     (if fst t = ''a'' then
        (case get_attr (snd t) ''href'' of Some u \<Rightarrow> if is_valid_url u then Some u else None | None \<Rightarrow> None)
      else if fst t = ''link'' then get_attr (snd t) ''href''
      else if fst t = ''img'' \<or> fst t = ''script'' then get_attr (snd t) ''src''
      else None)"

definition found_links :: "link_extractor \<Rightarrow> string set" where
  "found_links p = set (styles p) \<union> set (scripts p) \<union> set (images p) \<union> set (links p)"

lemma found_links_handle:
  "found_links (handle_starttag tag attrs p) =
     found_links p \<union> {u. tag_link (tag, attrs) = Some u}"
  by (auto simp: handle_starttag_def tag_link_def found_links_def split: option.splits)

lemma found_links_feed:
  "found_links (feed ts p) = found_links p \<union> {u. \<exists>t \<in> set ts. tag_link t = Some u}"
  by (induction ts arbitrary: p) (auto simp: found_links_handle)

lemma found_links_init [simp]: "found_links extractor_init = {}"
  by (simp add: found_links_def extractor_init_def)

text \<open>An order of iteration visits exactly the elements of the set.\<close>

definition set_order :: "(string list \<Rightarrow> string list) \<Rightarrow> bool" where
  "set_order iter \<longleftrightarrow> (\<forall>xs. set (iter xs) = set xs)"

lemma set_all_links: "set_order iter \<Longrightarrow> set (all_links iter p) = found_links p"
  by (simp add: all_links_def found_links_def set_order_def Un_assoc)

end
