(* ===== verification/Store.thy ===== *)
theory Store
  imports Table Py_Url Link_Parser "HOL-Library.Product_Lexorder"
begin

text \<open>
  The state of the program: the five tables of \<open>models.py\<close> with their columns, defaults and
  constraints, Django's saves and cascading deletions on them, and the outside world.

  The world outside the program (clocks, the random generator, the web server, the HTML
  tokenizer, the iteration order of sets, the plug-ins, the setting \<open>USE_TZ\<close>) is a record of functions. Each
  question to it is numbered: the counter \<open>tick\<close> of the state grows with every reading, and
  an answer may depend on it, so two readings of a clock or two requests for the same URL
  may answer differently. Points in time are microseconds since the epoch.
\<close>

section \<open>Rows\<close>

record site =
  id_site :: nat
  site_name :: string
  site_scheme :: string
  site_netloc :: string
  site_path :: string
  site_created_at :: int

record page =
  id_page :: nat
  page_site :: nat
  subpath :: string
  page_params :: string
  is_checked :: bool
  checked_at :: int
  check_time :: rat
  status :: int
  page_created_at :: int
  size_bytes :: int
  content_type :: string
  error_message :: string
  is_linkable :: bool

record link =
  id_link :: nat
  from_page :: nat
  to_page :: nat

record val_row =
  id_value :: nat
  value_page :: nat
  value_name :: string
  value_text :: string

record scheduled_page =
  sched_page :: nat
  rotation :: int
  updated_at :: int
  sched_created_at :: int

record world =
  site_rows :: "site list"
  page_rows :: "page list"
  link_rows :: "link list"
  value_rows :: "val_row list"
  sched_rows :: "scheduled_page list"
  next_site :: nat
  next_page :: nat
  next_link :: nat
  next_value :: nat
  tick :: nat

definition empty_world :: world where
  "empty_world = \<lparr>site_rows = [], page_rows = [], link_rows = [], value_rows = [], sched_rows = [],
     next_site = 1, next_page = 1, next_link = 1, next_value = 1, tick = 0\<rparr>"

type_synonym 'a op = "(world, 'a) py"

section \<open>The outside world\<close>

text \<open>A header value: text from the server, or the integer the program itself stores.\<close>

datatype header_value = HText string | HInt int

type_synonym headers = "(string \<times> header_value) list"

text \<open>
  A \<open>HEAD\<close> request raises, with the text of the exception, or gives a response of some status. The
  \<open>urlopen\<close> of the standard library raises \<open>HTTPError\<close> for every status outside 200 to 299, so with it
  only a status inside arrives as a response; the code has a branch for the others.
\<close>

datatype head_outcome = HeadRaises string | HeadResponds int

text \<open>
  A \<open>GET\<close> request raises an \<open>IOError\<close>, raises something else, or gives headers and the
  decoded text.
\<close>

datatype get_outcome = GetIOError string | GetRaises pyexn | GetOk headers string

text \<open>The scalar values a plug-in may return, of which the program only takes the text.\<close>

datatype scalar = PNone | PBool bool | PInt int | PFloat string | PText string

type_synonym dict = "(string \<times> scalar) list"

type_synonym plugin = "nat \<Rightarrow> page \<Rightarrow> headers \<Rightarrow> string \<Rightarrow> pyexn + dict option"

record env =
  e_now :: "nat \<Rightarrow> int"
  e_local :: "nat \<Rightarrow> int"
  e_time :: "nat \<Rightarrow> rat"
  e_random :: "nat \<Rightarrow> rat"
  e_head :: "nat \<Rightarrow> string \<Rightarrow> head_outcome"
  e_get :: "nat \<Rightarrow> string \<Rightarrow> get_outcome"
  e_robots :: "nat \<Rightarrow> string \<Rightarrow> pyexn + (string \<Rightarrow> bool)"
  e_tags :: "string \<Rightarrow> start_tag list"
  e_iter :: "string list \<Rightarrow> string list"
  e_plugins :: "(string \<times> plugin) list"
  e_use_tz :: bool

definition ask :: "(nat \<Rightarrow> 'a) \<Rightarrow> 'a op" where
  "ask f w = (Inr (f (tick w)), w\<lparr>tick := Suc (tick w)\<rparr>)"

section \<open>Reading and writing rows\<close>

definition site_get :: "nat \<Rightarrow> world \<Rightarrow> site option" where
  "site_get k w = row_get id_site k (site_rows w)"

definition page_get :: "nat \<Rightarrow> world \<Rightarrow> page option" where
  "page_get k w = row_get id_page k (page_rows w)"

definition link_get :: "nat \<Rightarrow> world \<Rightarrow> link option" where
  "link_get k w = row_get id_link k (link_rows w)"

definition value_get :: "nat \<Rightarrow> world \<Rightarrow> val_row option" where
  "value_get k w = row_get id_value k (value_rows w)"

definition site_put :: "site \<Rightarrow> world \<Rightarrow> world" where
  "site_put r w = w\<lparr>site_rows := row_put id_site r (site_rows w)\<rparr>"

definition page_put :: "page \<Rightarrow> world \<Rightarrow> world" where
  "page_put r w = w\<lparr>page_rows := row_put id_page r (page_rows w)\<rparr>"

definition link_put :: "link \<Rightarrow> world \<Rightarrow> world" where
  "link_put r w = w\<lparr>link_rows := row_put id_link r (link_rows w)\<rparr>"

definition value_put :: "val_row \<Rightarrow> world \<Rightarrow> world" where
  "value_put r w = w\<lparr>value_rows := row_put id_value r (value_rows w)\<rparr>"

section \<open>Constraints\<close>

text \<open>Column types: text of bounded length, 32-bit and 64-bit integers.\<close>

definition int_fits :: "nat \<Rightarrow> int \<Rightarrow> bool" where
  "int_fits n i \<longleftrightarrow> - (2 ^ (n - 1)) \<le> i \<and> i < 2 ^ (n - 1)"

definition site_fits :: "site \<Rightarrow> bool" where
  "site_fits s \<longleftrightarrow> length (site_name s) \<le> 32 \<and> length (site_scheme s) \<le> 8 \<and>
     length (site_netloc s) \<le> 128 \<and> length (site_path s) \<le> 280"

definition page_fits :: "page \<Rightarrow> bool" where
  "page_fits p \<longleftrightarrow> length (subpath p) \<le> 280 \<and> length (page_params p) \<le> 1024 \<and>
     length (content_type p) \<le> 32 \<and> length (error_message p) \<le> 512 \<and>
     int_fits 32 (status p) \<and> int_fits 64 (size_bytes p)"

definition value_fits :: "val_row \<Rightarrow> bool" where
  "value_fits v \<longleftrightarrow> length (value_name v) \<le> 64 \<and> length (value_text v) \<le> 2048"

text \<open>The columns of the unique constraints: natural keys.\<close>

definition site_url_key :: "site \<Rightarrow> string \<times> string \<times> string" where
  "site_url_key s = (site_scheme s, site_netloc s, site_path s)"

definition page_nat_key :: "page \<Rightarrow> nat \<times> string \<times> string" where
  "page_nat_key p = (page_site p, subpath p, page_params p)"

definition link_nat_key :: "link \<Rightarrow> nat \<times> nat" where
  "link_nat_key l = (from_page l, to_page l)"

definition value_nat_key :: "val_row \<Rightarrow> nat \<times> string" where
  "value_nat_key v = (value_page v, value_name v)"

definition clashes :: "('r \<Rightarrow> nat) \<Rightarrow> ('r \<Rightarrow> 'k) \<Rightarrow> 'r \<Rightarrow> 'r list \<Rightarrow> bool" where
  "clashes key nat_key r rows \<longleftrightarrow> (\<exists>x \<in> set rows. key x \<noteq> key r \<and> nat_key x = nat_key r)"

definition unique_by :: "('r \<Rightarrow> 'k) \<Rightarrow> 'r list \<Rightarrow> bool" where
  "unique_by nat_key rows \<longleftrightarrow> distinct (map nat_key rows)"

section \<open>Saving\<close>

text \<open>
  \<open>save()\<close> checks the column types, the unique constraints and the foreign keys; a row that
  fails them is not written. \<open>insert\<close> is the save of an object without primary key: the
  database gives it the next one.
\<close>

definition site_save :: "site \<Rightarrow> unit op" where
  "site_save s w =
     (if \<not> site_fits s then (Inl (DataError ''site''), w)
      else if clashes id_site site_name s (site_rows w) then (Inl (IntegrityError ''name''), w)
      else if clashes id_site site_url_key s (site_rows w) then (Inl (IntegrityError ''unique_url''), w)
      else (Inr (), site_put s w))"

definition page_save :: "page \<Rightarrow> unit op" where
  "page_save p w =
     (if \<not> page_fits p then (Inl (DataError ''page''), w)
      else if clashes id_page page_nat_key p (page_rows w)
        then (Inl (IntegrityError ''unique_full_path''), w)
      else if site_get (page_site p) w = None then (Inl (IntegrityError ''site_id''), w)
      else (Inr (), page_put p w))"

definition link_save :: "link \<Rightarrow> unit op" where
  "link_save l w =
     (if clashes id_link link_nat_key l (link_rows w)
        then (Inl (IntegrityError ''unique_from_to_page''), w)
      else if page_get (from_page l) w = None \<or> page_get (to_page l) w = None
        then (Inl (IntegrityError ''page_id''), w)
      else (Inr (), link_put l w))"

definition value_save :: "val_row \<Rightarrow> unit op" where
  "value_save v w =
     (if \<not> value_fits v then (Inl (DataError ''value''), w)
      else if clashes id_value value_nat_key v (value_rows w)
        then (Inl (IntegrityError ''unique_value_for_page''), w)
      else if page_get (value_page v) w = None then (Inl (IntegrityError ''page_id''), w)
      else (Inr (), value_put v w))"

definition site_insert :: "(nat \<Rightarrow> site) \<Rightarrow> site op" where
  "site_insert f w =
     (let s = f (next_site w)
      in case site_save s w of
           (Inl e, w') \<Rightarrow> (Inl e, w')
         | (Inr _, w') \<Rightarrow> (Inr s, w'\<lparr>next_site := Suc (next_site w)\<rparr>))"

definition page_insert :: "(nat \<Rightarrow> page) \<Rightarrow> page op" where
  "page_insert f w =
     (let p = f (next_page w)
      in case page_save p w of
           (Inl e, w') \<Rightarrow> (Inl e, w')
         | (Inr _, w') \<Rightarrow> (Inr p, w'\<lparr>next_page := Suc (next_page w)\<rparr>))"

definition link_insert :: "(nat \<Rightarrow> link) \<Rightarrow> link op" where
  "link_insert f w =
     (let l = f (next_link w)
      in case link_save l w of
           (Inl e, w') \<Rightarrow> (Inl e, w')
         | (Inr _, w') \<Rightarrow> (Inr l, w'\<lparr>next_link := Suc (next_link w)\<rparr>))"

definition value_insert :: "(nat \<Rightarrow> val_row) \<Rightarrow> val_row op" where
  "value_insert f w =
     (let v = f (next_value w)
      in case value_save v w of
           (Inl e, w') \<Rightarrow> (Inl e, w')
         | (Inr _, w') \<Rightarrow> (Inr v, w'\<lparr>next_value := Suc (next_value w)\<rparr>))"

section \<open>Deleting\<close>

definition delete_links :: "(link \<Rightarrow> bool) \<Rightarrow> world \<Rightarrow> world" where
  "delete_links P w = w\<lparr>link_rows := row_del P (link_rows w)\<rparr>"

definition delete_values :: "(val_row \<Rightarrow> bool) \<Rightarrow> world \<Rightarrow> world" where
  "delete_values P w = w\<lparr>value_rows := row_del P (value_rows w)\<rparr>"

text \<open>
  Deleting pages cascades: the links from and to them, their values and their schedule go
  with them (\<open>on_delete=CASCADE\<close>).
\<close>

definition delete_pages :: "(page \<Rightarrow> bool) \<Rightarrow> world \<Rightarrow> world" where
  "delete_pages P w =
     (let gone = (\<lambda>k. \<exists>p \<in> set (page_rows w). P p \<and> id_page p = k)
      in w\<lparr>page_rows := row_del P (page_rows w),
           link_rows := row_del (\<lambda>l. gone (from_page l) \<or> gone (to_page l)) (link_rows w),
           value_rows := row_del (\<lambda>v. gone (value_page v)) (value_rows w),
           sched_rows := row_del (\<lambda>c. gone (sched_page c)) (sched_rows w)\<rparr>)"

end
