(* ===== verification/Store_Inv.thy ===== *)
theory Store_Inv
  imports Store
begin

text \<open>
  The invariant of the database and that every save, insertion and deletion keeps it: keys
  are unique and below their sequences, the unique constraints of \<open>models.py\<close> hold, foreign
  keys point to existing rows and every column fits its type. The four tables with a
  numeric key are instances of the locale \<open>keyed_table\<close>.
\<close>

section \<open>The tables as instances of the interface\<close>

definition page_keys :: "world \<Rightarrow> bool" where
  "page_keys w \<longleftrightarrow> distinct (map id_page (page_rows w))"

definition site_keys :: "world \<Rightarrow> bool" where
  "site_keys w \<longleftrightarrow> distinct (map id_site (site_rows w))"

definition link_keys :: "world \<Rightarrow> bool" where
  "link_keys w \<longleftrightarrow> distinct (map id_link (link_rows w))"

definition value_keys :: "world \<Rightarrow> bool" where
  "value_keys w \<longleftrightarrow> distinct (map id_value (value_rows w))"

interpretation site_table: keyed_table id_site site_rows site_get site_put site_keys
  by unfold_locales
    (auto simp: site_keys_def site_get_def site_put_def row_get_iff row_get_put distinct_row_put)

interpretation page_table: keyed_table id_page page_rows page_get page_put page_keys
  by unfold_locales
    (auto simp: page_keys_def page_get_def page_put_def row_get_iff row_get_put distinct_row_put)

interpretation link_table: keyed_table id_link link_rows link_get link_put link_keys
  by unfold_locales
    (auto simp: link_keys_def link_get_def link_put_def row_get_iff row_get_put distinct_row_put)

interpretation value_table: keyed_table id_value value_rows value_get value_put value_keys
  by unfold_locales
    (auto simp: value_keys_def value_get_def value_put_def row_get_iff row_get_put distinct_row_put)

section \<open>The invariant\<close>

definition keys_inv :: "world \<Rightarrow> bool" where
  "keys_inv w \<longleftrightarrow>
     keys_ok id_site (next_site w) (site_rows w) \<and> keys_ok id_page (next_page w) (page_rows w) \<and>
     keys_ok id_link (next_link w) (link_rows w) \<and> keys_ok id_value (next_value w) (value_rows w) \<and>
     unique_by sched_page (sched_rows w)"

definition unique_inv :: "world \<Rightarrow> bool" where
  "unique_inv w \<longleftrightarrow>
     unique_by site_name (site_rows w) \<and> unique_by site_url_key (site_rows w) \<and>
     unique_by page_nat_key (page_rows w) \<and> unique_by link_nat_key (link_rows w) \<and>
     unique_by value_nat_key (value_rows w)"

definition site_ids :: "world \<Rightarrow> nat set" where
  "site_ids w = id_site ` set (site_rows w)"

definition page_ids :: "world \<Rightarrow> nat set" where
  "page_ids w = id_page ` set (page_rows w)"

definition foreign_inv :: "world \<Rightarrow> bool" where
  "foreign_inv w \<longleftrightarrow>
     (\<forall>p \<in> set (page_rows w). page_site p \<in> site_ids w) \<and>
     (\<forall>l \<in> set (link_rows w). from_page l \<in> page_ids w \<and> to_page l \<in> page_ids w) \<and>
     (\<forall>v \<in> set (value_rows w). value_page v \<in> page_ids w) \<and>
     (\<forall>c \<in> set (sched_rows w). sched_page c \<in> page_ids w)"

definition fits_inv :: "world \<Rightarrow> bool" where
  "fits_inv w \<longleftrightarrow>
     (\<forall>s \<in> set (site_rows w). site_fits s) \<and> (\<forall>p \<in> set (page_rows w). page_fits p) \<and>
     (\<forall>v \<in> set (value_rows w). value_fits v)"

definition db_ok :: "world \<Rightarrow> bool" where
  "db_ok w \<longleftrightarrow> keys_inv w \<and> unique_inv w \<and> foreign_inv w \<and> fits_inv w"

lemmas db_ok_defs = db_ok_def keys_inv_def unique_inv_def foreign_inv_def fits_inv_def

lemma db_ok_empty: "db_ok empty_world"
  by (simp add: db_ok_defs empty_world_def keys_ok_def unique_by_def)

lemma db_ok_keys:
  assumes "db_ok w"
  shows "site_keys w" "page_keys w" "link_keys w" "value_keys w"
  using assms
  by (auto simp: db_ok_def keys_inv_def keys_ok_def site_keys_def page_keys_def link_keys_def
      value_keys_def)

text \<open>A tick changes no table.\<close>

lemma db_ok_tick [simp]: "db_ok (w\<lparr>tick := n\<rparr>) = db_ok w"
  by (simp add: db_ok_defs site_ids_def page_ids_def)

lemma keeps_ask [keeps_intros]: "keeps db_ok (ask f)"
  by (simp add: keeps_def ask_def)

section \<open>Saves\<close>

lemma unique_by_put:
  assumes "distinct (map key rows)" "unique_by nat_key rows" "\<not> clashes key nat_key r rows"
  shows "unique_by nat_key (row_put key r rows)"
proof -
  have "distinct (row_put key r rows)"
    using distinct_row_put [OF assms(1)] by (simp add: distinct_map)
  moreover have "inj_on nat_key (set (row_put key r rows))"
    using assms by (auto simp: set_row_put inj_on_def unique_by_def distinct_map clashes_def)
  ultimately show ?thesis by (simp add: unique_by_def distinct_map)
qed

lemma unique_by_del: "unique_by nat_key rows \<Longrightarrow> unique_by nat_key (row_del P rows)"
  by (simp add: unique_by_def row_del_def distinct_map_filterI)

lemma key_image_put:
  "distinct (map key rows) \<Longrightarrow> key ` set (row_put key r rows) = insert (key r) (key ` set rows)"
  by (auto simp: set_row_put)

lemma ball_row_put:
  "distinct (map key rows) \<Longrightarrow>
     (\<forall>x \<in> set (row_put key r rows). P x) \<longleftrightarrow> P r \<and> (\<forall>x \<in> set rows. key x \<noteq> key r \<longrightarrow> P x)"
  by (auto simp: set_row_put)

lemma in_ids_get:
  "page_get k w \<noteq> None \<longleftrightarrow> k \<in> page_ids w" "site_get k w \<noteq> None \<longleftrightarrow> k \<in> site_ids w"
  by (auto simp: page_get_def site_get_def row_get_None page_ids_def site_ids_def)

lemma keys_ok_distinct: "keys_ok key n rows \<Longrightarrow> distinct (map key rows)"
  by (simp add: keys_ok_def)

lemma keys_ok_Suc: "keys_ok key n rows \<Longrightarrow> keys_ok key (Suc n) rows"
  by (auto simp: keys_ok_def)

lemma keys_invD:
  assumes "keys_inv w"
  shows "distinct (map id_site (site_rows w))" "distinct (map id_page (page_rows w))"
    "distinct (map id_link (link_rows w))" "distinct (map id_value (value_rows w))"
  using assms by (auto simp: keys_inv_def keys_ok_def)

lemma site_put_ok:
  assumes "db_ok w" "site_fits s" "\<not> clashes id_site site_name s (site_rows w)"
    "\<not> clashes id_site site_url_key s (site_rows w)"
  shows "id_site s < next_site w \<Longrightarrow> db_ok (site_put s w)"
    and "id_site s = next_site w \<Longrightarrow> db_ok ((site_put s w)\<lparr>next_site := Suc (next_site w)\<rparr>)"
  using assms keys_invD(1) [of w]
  by (auto simp: db_ok_defs site_put_def site_ids_def page_ids_def keys_ok_put keys_ok_insert
      unique_by_put key_image_put ball_row_put)

lemma page_put_ok:
  assumes "db_ok w" "page_fits p" "\<not> clashes id_page page_nat_key p (page_rows w)"
    "page_site p \<in> site_ids w"
  shows "id_page p < next_page w \<Longrightarrow> db_ok (page_put p w)"
    and "id_page p = next_page w \<Longrightarrow> db_ok ((page_put p w)\<lparr>next_page := Suc (next_page w)\<rparr>)"
  using assms keys_invD(2) [of w]
  by (auto simp: db_ok_defs page_put_def site_ids_def page_ids_def keys_ok_put keys_ok_insert
      unique_by_put key_image_put ball_row_put)

lemma link_put_ok:
  assumes "db_ok w" "\<not> clashes id_link link_nat_key l (link_rows w)"
    "from_page l \<in> page_ids w" "to_page l \<in> page_ids w"
  shows "id_link l < next_link w \<Longrightarrow> db_ok (link_put l w)"
    and "id_link l = next_link w \<Longrightarrow> db_ok ((link_put l w)\<lparr>next_link := Suc (next_link w)\<rparr>)"
  using assms keys_invD(3) [of w]
  by (auto simp: db_ok_defs link_put_def site_ids_def page_ids_def keys_ok_put keys_ok_insert
      unique_by_put key_image_put ball_row_put)

lemma value_put_ok:
  assumes "db_ok w" "value_fits v" "\<not> clashes id_value value_nat_key v (value_rows w)"
    "value_page v \<in> page_ids w"
  shows "id_value v < next_value w \<Longrightarrow> db_ok (value_put v w)"
    and "id_value v = next_value w \<Longrightarrow> db_ok ((value_put v w)\<lparr>next_value := Suc (next_value w)\<rparr>)"
  using assms keys_invD(4) [of w]
  by (auto simp: db_ok_defs value_put_def site_ids_def page_ids_def keys_ok_put keys_ok_insert
      unique_by_put key_image_put ball_row_put)

lemma page_save_ok: "db_ok w \<Longrightarrow> id_page p < next_page w \<Longrightarrow> db_ok (snd (page_save p w))"
  using page_put_ok(1) [of w p] in_ids_get(2) [of "page_site p" w] by (auto simp: page_save_def)

lemma value_save_ok: "db_ok w \<Longrightarrow> id_value v < next_value w \<Longrightarrow> db_ok (snd (value_save v w))"
  using value_put_ok(1) [of w v] in_ids_get(1) [of "value_page v" w] by (auto simp: value_save_def)

lemma site_insert_ok: "(\<And>k. id_site (f k) = k) \<Longrightarrow> keeps db_ok (site_insert f)"
  using site_put_ok(2) by (auto simp: keeps_def site_insert_def site_save_def Let_def)

lemma page_insert_ok: "(\<And>k. id_page (f k) = k) \<Longrightarrow> keeps db_ok (page_insert f)"
  using page_put_ok(2) in_ids_get(2) by (auto simp: keeps_def page_insert_def page_save_def Let_def)

lemma link_insert_ok: "(\<And>k. id_link (f k) = k) \<Longrightarrow> keeps db_ok (link_insert f)"
  using link_put_ok(2) in_ids_get(1) by (auto simp: keeps_def link_insert_def link_save_def Let_def)

lemma value_insert_ok: "(\<And>k. id_value (f k) = k) \<Longrightarrow> keeps db_ok (value_insert f)"
  using value_put_ok(2) in_ids_get(1) by (auto simp: keeps_def value_insert_def value_save_def Let_def)

section \<open>Deletions\<close>

lemma delete_links_ok: "db_ok w \<Longrightarrow> db_ok (delete_links P w)"
  by (auto simp: db_ok_defs delete_links_def site_ids_def page_ids_def keys_ok_del unique_by_del)

lemma delete_values_ok: "db_ok w \<Longrightarrow> db_ok (delete_values P w)"
  by (auto simp: db_ok_defs delete_values_def site_ids_def page_ids_def keys_ok_del unique_by_del)

lemma page_ids_delete:
  "k \<in> page_ids w \<Longrightarrow> \<not> (\<exists>p \<in> set (page_rows w). P p \<and> id_page p = k) \<Longrightarrow>
     k \<in> page_ids (delete_pages P w)"
  by (auto simp: page_ids_def delete_pages_def Let_def)

lemma delete_pages_ok:
  assumes "db_ok w"
  shows "db_ok (delete_pages P w)"
proof -
  from assms have "foreign_inv (delete_pages P w)"
    using page_ids_delete [of _ w P]
    by (auto simp: db_ok_def foreign_inv_def delete_pages_def [where w = w] Let_def site_ids_def
        simp del: bex_simps)
  moreover from assms have "keys_inv (delete_pages P w)" "unique_inv (delete_pages P w)"
      "fits_inv (delete_pages P w)"
    by (auto simp: db_ok_defs delete_pages_def Let_def keys_ok_del unique_by_del)
  ultimately show ?thesis by (simp add: db_ok_def)
qed

end
