(* ===== verification/Py_Float.thy ===== *)
theory Py_Float
  imports Complex_Main "HOL-Library.Log_Nat"
begin

text \<open>
  Floating-point numbers as Python computes with them: a number is the rational it stands for,
  and the result of an operation is the exact one rounded to 53 significant bits, ties to the
  even one. The exponent is unbounded, since the numbers of the program are far from its limits.
\<close>

section \<open>Rounding\<close>

definition round_half_even :: "rat \<Rightarrow> int" where
  "round_half_even x =
     (let n = floor x; d = x - of_int n
      in if d < 1 / 2 \<or> d = 1 / 2 \<and> even n then n else n + 1)"

text \<open>The exponent \<open>e\<close> with \<open>2\<^sup>e \<le> x < 2\<^sup>e\<^sup>+\<^sup>1\<close>, for a positive \<open>x\<close>.\<close>

definition binary_exponent :: "rat \<Rightarrow> int" where
  "binary_exponent x =
     (case quotient_of x of (a, b) \<Rightarrow>
        let k = bitlen a - bitlen b in if x < 2 powi k then k - 1 else k)"

definition float64 :: "rat \<Rightarrow> rat" where
  "float64 x =
     (if x = 0 then 0
      else let u = 2 powi (binary_exponent \<bar>x\<bar> - 52) in of_int (round_half_even (x / u)) * u)"

text \<open>
  \<open>round(x, 2)\<close>, which rounds the decimal expansion of the number correctly; the result is kept as
  the decimal number, which its \<open>float\<close> prints as.
\<close>

definition round2 :: "rat \<Rightarrow> rat" where
  "round2 x = of_int (round_half_even (x * 100)) / 100"

section \<open>Errors\<close>

lemma round_half_even_error: "\<bar>of_int (round_half_even x) - x\<bar> \<le> 1 / 2"
proof -
  have "of_int (floor x) \<le> x" "x < of_int (floor x) + 1" by linarith+
  then show ?thesis by (auto simp: round_half_even_def Let_def)
qed

lemma round_half_even_int [simp]: "round_half_even (of_int i) = i"
  by (simp add: round_half_even_def)

lemma round_half_even_bounds:
  "of_int i - 1 / 2 < x \<Longrightarrow> i \<le> round_half_even x" "x < of_int i + 1 / 2 \<Longrightarrow> round_half_even x \<le> i"
  using round_half_even_error [of x] by linarith+

lemma binary_exponent_le:
  assumes "0 < x"
  shows "2 powi (binary_exponent x) \<le> x"
proof -
  obtain a b where q: "quotient_of x = (a, b)" by (cases "quotient_of x")
  have b: "0 < b" using quotient_of_denom_pos [OF q] .
  have x: "x = of_int a / of_int b" using quotient_of_div [OF q] .
  have a: "0 < a" using assms b by (simp add: x zero_less_divide_iff)
  define la lb where "la = nat (bitlen a - 1)" and "lb = nat (bitlen b)"
  have "bitlen a \<noteq> 0" "bitlen b \<noteq> 0" using a b by (simp_all add: bitlen_eq_zero_iff)
  with bitlen_nonneg [of a] bitlen_nonneg [of b] have l: "bitlen a - 1 = int la" "bitlen b = int lb"
    by (simp_all add: la_def lb_def)
  have "2 ^ la \<le> a" "b < 2 ^ lb" using bitlen_bounds [OF a] bitlen_bounds [OF b] by (simp_all add: la_def lb_def)
  then have "(2 :: rat) ^ la \<le> of_int a" "of_int b \<le> (2 :: rat) ^ lb"
    by (metis of_int_le_iff of_int_numeral of_int_power, metis less_imp_le of_int_le_iff of_int_numeral of_int_power)
  then have "(2 :: rat) ^ la / 2 ^ lb \<le> x"
    unfolding x using a b by (intro frac_le) simp_all
  moreover have "(2 :: rat) powi (bitlen a - bitlen b - 1) = 2 ^ la / 2 ^ lb"
  proof -
    have "bitlen a - bitlen b - 1 = int la - int lb" using l by linarith
    then show ?thesis by (simp add: power_int_diff)
  qed
  ultimately show ?thesis by (simp add: binary_exponent_def q Let_def not_less)
qed

lemma float64_error: "\<bar>float64 x - x\<bar> \<le> \<bar>x\<bar> / 2 ^ 53"
proof (cases "x = 0")
  case False
  define e where "e = binary_exponent \<bar>x\<bar>"
  define u :: rat where "u = 2 powi (e - 52)"
  have u: "0 < u" by (simp add: u_def)
  have "2 powi e \<le> \<bar>x\<bar>" unfolding e_def using False by (intro binary_exponent_le) simp
  moreover have "u = 2 powi e / 2 ^ 52"
    using power_int_diff [of "2 :: rat" e 52] by (simp add: u_def)
  ultimately have small: "u / 2 \<le> \<bar>x\<bar> / 2 ^ 53" by simp
  have "float64 x - x = (of_int (round_half_even (x / u)) - x / u) * u"
    using False u by (simp add: float64_def e_def [symmetric] u_def [symmetric] Let_def algebra_simps)
  then have "\<bar>float64 x - x\<bar> = \<bar>of_int (round_half_even (x / u)) - x / u\<bar> * u"
    using u by (simp add: abs_mult)
  also have "\<dots> \<le> 1 / 2 * u" using u by (intro mult_right_mono round_half_even_error) simp
  finally show ?thesis using small by simp
qed (simp add: float64_def)

text \<open>A percentage, computed and rounded to two digits.\<close>

lemma percentage_error:
  assumes "0 \<le> x" "x \<le> 100"
  shows "\<bar>float64 x * 100 - x * 100\<bar> \<le> 10000 / 2 ^ 53"
proof -
  have "float64 x * 100 - x * 100 = (float64 x - x) * 100" by (rule left_diff_distrib [symmetric])
  then have "\<bar>float64 x * 100 - x * 100\<bar> = \<bar>float64 x - x\<bar> * 100" by (simp only: abs_mult abs_numeral)
  also have "\<dots> \<le> (\<bar>x\<bar> / 2 ^ 53) * 100" by (intro mult_right_mono float64_error) simp
  also have "\<dots> \<le> (100 / 2 ^ 53) * 100" using assms by (intro mult_right_mono divide_right_mono) simp_all
  finally show ?thesis by simp
qed

lemma percentage_range:
  assumes "0 \<le> x" "x \<le> 100"
  shows "0 \<le> round2 (float64 x)" "round2 (float64 x) \<le> 100" "\<bar>round2 (float64 x) - x\<bar> \<le> 1 / 200 + 1 / 10 ^ 13"
proof -
  define y where "y = float64 x * 100"
  have y: "\<bar>y - x * 100\<bar> \<le> 10000 / 2 ^ 53" unfolding y_def by (rule percentage_error [OF assms])
  have tiny: "(10000 :: rat) / 2 ^ 53 \<le> 100 / 10 ^ 13" "(100 :: rat) / 10 ^ 13 < 1 / 2" by simp_all
  have "0 \<le> round_half_even y" "round_half_even y \<le> 10000"
    using y tiny assms by (intro round_half_even_bounds; linarith)+
  then show "0 \<le> round2 (float64 x)" "round2 (float64 x) \<le> 100"
    by (simp_all add: round2_def y_def [symmetric] divide_le_eq)
  have "\<bar>of_int (round_half_even y) - x * 100\<bar> \<le> 1 / 2 + 100 / 10 ^ 13"
    using round_half_even_error [of y] y tiny by linarith
  then show "\<bar>round2 (float64 x) - x\<bar> \<le> 1 / 200 + 1 / 10 ^ 13"
    by (simp add: round2_def y_def [symmetric] abs_le_iff field_simps)
qed

lemma percentage_not_full:
  assumes "0 \<le> x" "x < 100 - 1 / 200 - 1 / 10 ^ 13"
  shows "round2 (float64 x) \<noteq> 100"
proof
  assume full: "round2 (float64 x) = 100"
  have "x \<le> 100" using assms(2) by simp
  from percentage_range(3) [OF assms(1) this] full assms(2) show False by simp
qed

end
