(* ===== verification/Models.thy ===== *)
theory Models
  imports Store_Inv Results Seqtools Py_Float "HOL-Library.List_Lexorder" "HOL-Library.Char_ord"
begin

text \<open>
  \<open>models.py\<close>: the methods of \<open>Site\<close>, \<open>Page\<close>, \<open>Link\<close>, \<open>Value\<close> and \<open>ScheduledPage\<close>.
  Queries are functions of the state; methods that write, read a clock or talk to the
  network are operations of the monad. Where a method follows the foreign key \<open>page.site\<close>,
  the site is an argument \<open>s\<close>, and \<open>site_of\<close> is the access itself. Queries sort stably over
  the scan order of the table, so rows that tie come in that (arbitrary) order.
\<close>

section \<open>Site: queries\<close>

definition load_site_by_name :: "string \<Rightarrow> site option op" where
  "load_site_by_name name w =
     (case filter (\<lambda>s. site_name s = name) (site_rows w) of
        [] \<Rightarrow> (Inr None, w)
      | [s] \<Rightarrow> (Inr (Some s), w)
      | _ \<Rightarrow> (Inl MultipleObjectsReturned, w))"

definition get_all_sites :: "world \<Rightarrow> site list" where
  "get_all_sites w = sort_key site_name (site_rows w)"

text \<open>\<open>self.pages\<close>, the reverse relation.\<close>

definition site_pages :: "site \<Rightarrow> world \<Rightarrow> page list" where
  "site_pages s w = filter (\<lambda>p. page_site p = id_site s) (page_rows w)"

definition site_url :: "site \<Rightarrow> string \<Rightarrow> string" where
  "site_url s pth = urlunparse
     \<lparr>scheme = site_scheme s, netloc = site_netloc s,
      path = (if pth \<noteq> [] then pth else site_path s), params = [], query = [], fragment = []\<rparr>"

definition get_robots_txt :: "env \<Rightarrow> site \<Rightarrow> (string \<Rightarrow> bool) op" where
  "get_robots_txt env s =
     (let url = site_url s ''robots.txt''
      in andThen (ask (\<lambda>t. e_robots env t url)) lift)"

text \<open>
  The product with \<open>100.0\<close> is exact (as long as the pages are fewer than \<open>2\<^sup>4\<^sup>6\<close>); the quotient is the
  nearest floating-point number.
\<close>

definition progress :: "site \<Rightarrow> world \<Rightarrow> rat" where
  "progress s w =
     (let total = length (site_pages s w);
          checked = length (filter (\<lambda>p. \<not> (is_checked p = False)) (site_pages s w))
      in if total > 0 then round2 (float64 (of_nat checked * 100 / of_nat total)) else 0)"

definition all_queued_pages :: "site \<Rightarrow> world \<Rightarrow> page list" where
  "all_queued_pages s w =
     (let qset = sort_key page_created_at (filter (\<lambda>p. is_checked p = False) (site_pages s w))
      in if length qset > 0 then qset
         else sort_key checked_at (filter (\<lambda>p. is_checked p = True) (site_pages s w)))"

text \<open>\<open>checked_at\<close> is never NULL, so \<open>exclude(checked_at=None)\<close> removes nothing.\<close>

definition all_checked_pages :: "site \<Rightarrow> world \<Rightarrow> page list" where
  "all_checked_pages s w =
     sort_key (\<lambda>p. - checked_at p) (filter (\<lambda>p. is_checked p = True) (site_pages s w))"

definition all_pending_pages :: "site \<Rightarrow> world \<Rightarrow> page list" where
  "all_pending_pages s w =
     sort_key (\<lambda>p. - page_created_at p) (filter (\<lambda>p. \<not> is_checked p = True) (site_pages s w))"

text \<open>\<open>status__range=(200, 300)\<close> is \<open>BETWEEN 200 AND 300\<close>: both ends belong to it.\<close>

definition is_error_row :: "page \<Rightarrow> bool" where
  "is_error_row p \<longleftrightarrow> is_checked p = True \<and> \<not> (200 \<le> status p \<and> status p \<le> 300)"

definition pages_with_errors :: "site \<Rightarrow> world \<Rightarrow> page list" where
  "pages_with_errors s w = sort_key (\<lambda>p. - checked_at p) (filter is_error_row (site_pages s w))"

text \<open>\<open>QuerySet.last()\<close> reverses the ordering and takes the first row.\<close>

definition last_page_with_errors :: "site \<Rightarrow> world \<Rightarrow> page option" where
  "last_page_with_errors s w = head (sort_key checked_at (filter is_error_row (site_pages s w)))"

definition first_page_with_errors :: "site \<Rightarrow> world \<Rightarrow> page option" where
  "first_page_with_errors s w = first (pages_with_errors s w) (\<lambda>_. True) None"

section \<open>ScheduledPage\<close>

text \<open>A schedule joined with its page (\<open>select_related('page')\<close>) and the annotated watermark.\<close>

definition sched_join :: "world \<Rightarrow> (scheduled_page \<times> page) list" where
  "sched_join w = concat (map (\<lambda>c. case page_get (sched_page c) w of
     None \<Rightarrow> [] | Some p \<Rightarrow> [(c, p)]) (sched_rows w))"

definition watermark :: "scheduled_page \<times> page \<Rightarrow> int" where
  "watermark cp = checked_at (snd cp) + rotation (fst cp)"

definition sched_order :: "scheduled_page \<times> page \<Rightarrow> int \<times> int \<times> int" where
  "sched_order cp = (checked_at (snd cp), updated_at (fst cp), sched_created_at (fst cp))"

definition all_scheduled_pages :: "site \<Rightarrow> world \<Rightarrow> (scheduled_page \<times> page) list" where
  "all_scheduled_pages s w =
     sort_key sched_order (filter (\<lambda>cp. page_site (snd cp) = id_site s) (sched_join w))"

definition is_scheduled :: "page \<Rightarrow> world \<Rightarrow> bool" where
  "is_scheduled p w \<longleftrightarrow> filter (\<lambda>c. sched_page c = id_page p) (sched_rows w) \<noteq> []"

definition get_scheduled_rotation :: "page \<Rightarrow> int op" where
  "get_scheduled_rotation p w =
     (if \<not> is_scheduled p w then (Inl AssertionError, w)
      else case filter (\<lambda>c. sched_page c = id_page p) (sched_rows w) of
             [] \<Rightarrow> (Inl DoesNotExist, w)
           | [c] \<Rightarrow> (Inr (rotation c), w)
           | _ \<Rightarrow> (Inl MultipleObjectsReturned, w))"

section \<open>Site: the frontier\<close>

definition next_page_to_check :: "env \<Rightarrow> site \<Rightarrow> page option op" where
  "next_page_to_check env s =
     andThen (ask (e_now env)) (\<lambda>now.
     andThen (reads (\<lambda>w. first (filter (\<lambda>cp. watermark cp < now) (all_scheduled_pages s w)) (\<lambda>_. True) None))
       (\<lambda>scheduled. case scheduled of
          Some cp \<Rightarrow> ret (Some (snd cp))
        | None \<Rightarrow>
            andThen (reads (pages_with_errors s)) (\<lambda>errors.
            andThen (if length errors > 0
                     then andThen (ask (e_random env)) (\<lambda>r. ret (r \<le> 1 / 2)) else ret False) (\<lambda>retry.
            if retry then reads (last_page_with_errors s)
            else reads (\<lambda>w.
              if length (all_queued_pages s w) > 0 then head (all_queued_pages s w)
              else head (sort_key checked_at (site_pages s w)))))))"

section \<open>Site: pages by address\<close>

definition is_local :: "site \<Rightarrow> string \<Rightarrow> pyexn + bool" where
  "is_local s url =
     (case urlparse url [] of
        Inl e \<Rightarrow> Inl e
      | Inr info \<Rightarrow>
          if scheme info \<noteq> [] \<and> scheme info \<noteq> site_scheme s then Inr False
          else if netloc info \<noteq> [] \<and> netloc info \<noteq> site_netloc s then Inr False
          else Inr True)"

definition site_load_page :: "site \<Rightarrow> int \<Rightarrow> world \<Rightarrow> page option" where
  "site_load_page s pk w = head (filter (\<lambda>p. int (id_page p) = pk) (site_pages s w))"

text \<open>An unsaved \<open>Page(site=\<dots>, subpath=\<dots>, params=\<dots>)\<close> with the defaults of the other columns.\<close>

definition new_page :: "nat \<Rightarrow> string \<Rightarrow> string \<Rightarrow> int \<Rightarrow> nat \<Rightarrow> page" where
  "new_page sid sub par now k =
     \<lparr>id_page = k, page_site = sid, subpath = sub, page_params = par, is_checked = False,
      checked_at = 0, check_time = 0, status = 0, page_created_at = now, size_bytes = 0,
      content_type = [], error_message = [], is_linkable = True\<rparr>"

definition load_or_create :: "env \<Rightarrow> site \<Rightarrow> string \<times> string \<Rightarrow> (page \<times> bool) op" where
  "load_or_create env s key w =
     (case first (sort_key page_created_at
               (filter (\<lambda>p. subpath p = fst key \<and> page_params p = snd key) (site_pages s w)))
             (\<lambda>_. True) None of
        Some found \<Rightarrow> (Inr (found, False), w)
      | None \<Rightarrow>
          andThen (ask (e_now env)) (\<lambda>now.
          andThen (page_insert (new_page (id_site s) (fst key) (snd key) now)) (\<lambda>p.
          ret (p, True))) w)"

definition add_page :: "env \<Rightarrow> site \<Rightarrow> string \<Rightarrow> (page \<times> bool) op" where
  "add_page env s url =
     andThen (lift (urlparse url [])) (\<lambda>info. load_or_create env s (path info, query info))"

section \<open>Page\<close>

definition site_of :: "page \<Rightarrow> site op" where
  "site_of p w = (case site_get (page_site p) w of Some s \<Rightarrow> (Inr s, w) | None \<Rightarrow> (Inl DoesNotExist, w))"

definition load_page_pk :: "nat \<Rightarrow> world \<Rightarrow> page option" where
  "load_page_pk pk w = page_get pk w"

definition is_ok :: "page \<Rightarrow> bool" where
  "is_ok p \<longleftrightarrow> 200 \<le> status p \<and> status p < 300"

definition incoming_links :: "page \<Rightarrow> world \<Rightarrow> link list" where
  "incoming_links p w = filter (\<lambda>l. to_page l = id_page p) (link_rows w)"

definition outgoing_links :: "page \<Rightarrow> world \<Rightarrow> link list" where
  "outgoing_links p w = filter (\<lambda>l. from_page l = id_page p) (link_rows w)"

definition can_be_deleted :: "page \<Rightarrow> world \<Rightarrow> bool" where
  "can_be_deleted p w \<longleftrightarrow> length (incoming_links p w) = 0"

definition get_relative_url :: "site \<Rightarrow> page \<Rightarrow> pyexn + string" where
  "get_relative_url s p =
     (case urljoin (site_path s) (subpath p) of
        Inl e \<Rightarrow> Inl e
      | Inr pth \<Rightarrow> Inr (urlunparse \<lparr>scheme = [], netloc = [], path = pth, params = [],
                                  query = page_params p, fragment = []\<rparr>))"

definition get_full_url :: "site \<Rightarrow> page \<Rightarrow> pyexn + string" where
  "get_full_url s p =
     (case urljoin (site_path s) (subpath p) of
        Inl e \<Rightarrow> Inl e
      | Inr pth \<Rightarrow> Inr (urlunparse \<lparr>scheme = site_scheme s, netloc = site_netloc s, path = pth,
                                  params = [], query = page_params p, fragment = []\<rparr>))"

text \<open>
  One turn of the loop of \<open>get_all_valid_links\<close>: an exception, nothing, or a link to yield.
\<close>

definition valid_link :: "site \<Rightarrow> page \<Rightarrow> (string \<Rightarrow> bool) \<Rightarrow> string \<Rightarrow> pyexn + string option" where
  "valid_link s p can_fetch lnk =
     (case get_full_url s p of Inl e \<Rightarrow> Inl e | Inr full \<Rightarrow>
      (case urljoin full lnk of Inl e \<Rightarrow> Inl e | Inr url \<Rightarrow>
       if url = full then Inr None
       else (case is_local s url of Inl e \<Rightarrow> Inl e | Inr loc \<Rightarrow>
         if loc \<and> can_fetch lnk then
           (case get_relative_url s p of Inl e \<Rightarrow> Inl e | Inr rel \<Rightarrow>
            (case urljoin rel lnk of Inl e \<Rightarrow> Inl e | Inr l \<Rightarrow> Inr (Some l)))
         else Inr None)))"

text \<open>
  The candidates of a body and the test of \<open>robots.txt\<close>: what the generator computes before
  its loop. The loop itself is \<open>valid_link\<close> on each candidate, driven by the consumer.
\<close>

definition get_all_valid_links :: "env \<Rightarrow> site \<Rightarrow> string \<Rightarrow> (string list \<times> (string \<Rightarrow> bool)) op" where
  "get_all_valid_links env s body =
     (let parser = feed (e_tags env body) extractor_init
      in andThen (get_robots_txt env s) (\<lambda>can_fetch. ret (all_links (e_iter env) parser, can_fetch)))"

text \<open>
  \<open>urllib.request.Request\<close> refuses a URL without a type: what stands before the first colon,
  if no slash comes earlier, after \<open>unwrap\<close> and without the fragment.
\<close>

definition unwrap_url :: "string \<Rightarrow> string" where
  "unwrap_url url =
     (let u = strip url;
          u = (if take 1 u = ''<'' \<and> u \<noteq> [] \<and> last u = CHR ''>'' then strip (butlast (tl u)) else u)
      in if take 4 u = ''URL:'' then strip (drop 4 u) else u)"

definition has_url_type :: "string \<Rightarrow> bool" where
  "has_url_type url \<longleftrightarrow>
     (let u = unwrap_url url;
          u = (if CHR ''#'' \<in> set u then rev (tl (dropWhile (\<lambda>c. c \<noteq> CHR ''#'') (rev u))) else u);
          t = takeWhile (\<lambda>c. c \<noteq> CHR ''/'' \<and> c \<noteq> CHR '':'') u
      in t \<noteq> [] \<and> take 1 (drop (length t) u) = '':'')"

text \<open>
  What a \<open>Success\<close> of \<open>is_valid\<close> can hold: the code returns \<open>Success()\<close>, whose value is
  \<open>True\<close>; \<open>check_page\<close> reads a response out of it.
\<close>

record response =
  status_code :: int
  resp_headers :: headers
  resp_url :: string

datatype valid_value = VBool bool | VResponse response

definition is_valid :: "env \<Rightarrow> site \<Rightarrow> page \<Rightarrow> (valid_value, int) presult op" where
  "is_valid env s p =
     andThen (lift (get_full_url s p)) (\<lambda>url.
     if \<not> has_url_type url then raise (ValueError ''unknown url type'')
     else andThen (ask (\<lambda>t. e_head env t url)) (\<lambda>out.
       case out of
         HeadRaises err \<Rightarrow> ret (Failure err (Some (-1)))
       | HeadResponds st \<Rightarrow>
           if 200 \<le> st \<and> st < 300 then ret (success_init VBool None)
           else ret (failure_init (''El servidor devuelve un c'' @ [CHR 0xF3] @ ''digo de error {req.status}'') None)))"

text \<open>
  With the setting \<open>USE_TZ\<close> the stored points in time have a time zone and \<open>just_now\<close> has none, so
  they cannot be subtracted. \<open>checked_at\<close> is never NULL, so the second branch is not taken.
\<close>

definition waiting_time :: "env \<Rightarrow> page \<Rightarrow> int op" where
  "waiting_time env p =
     andThen (ask (e_local env)) (\<lambda>now.
     if e_use_tz env then raise (TypeError (''can'' @ [CHR 0x27] @ ''t subtract offset-naive and offset-aware datetimes''))
     else ret (now - checked_at p))"

definition page_values :: "page \<Rightarrow> world \<Rightarrow> val_row list" where
  "page_values p w = filter (\<lambda>v. value_page v = id_page p) (value_rows w)"

definition get_value_of :: "page \<Rightarrow> string \<Rightarrow> string \<Rightarrow> world \<Rightarrow> string" where
  "get_value_of p name dflt w =
     (case head (sort_key value_name (filter (\<lambda>v. value_name v = name) (page_values p w))) of
        Some v \<Rightarrow> value_text v
      | None \<Rightarrow> dflt)"

definition unknown_text :: string where
  "unknown_text = ''Desconocido/No aplica''"

definition get_version :: "page \<Rightarrow> world \<Rightarrow> string" where
  "get_version p w = get_value_of p ''version'' unknown_text w"

definition get_title :: "page \<Rightarrow> world \<Rightarrow> string" where
  "get_title p w = get_value_of p ''title'' unknown_text w"

section \<open>Link and Value\<close>

text \<open>\<open>objects.get_or_create\<close> by the columns of a natural key.\<close>

definition get_or_create :: "(world \<Rightarrow> 'r list) \<Rightarrow> ('r \<Rightarrow> 'k) \<Rightarrow> 'r op \<Rightarrow> 'k \<Rightarrow> ('r \<times> bool) op" where
  "get_or_create rows nat_key create k w =
     (case filter (\<lambda>r. nat_key r = k) (rows w) of
        [] \<Rightarrow> andThen create (\<lambda>r. ret (r, True)) w
      | [r] \<Rightarrow> (Inr (r, False), w)
      | _ \<Rightarrow> (Inl MultipleObjectsReturned, w))"

definition link_get_or_create :: "nat \<times> nat \<Rightarrow> (link \<times> bool) op" where
  "link_get_or_create ft = get_or_create link_rows link_nat_key
     (link_insert (\<lambda>k. \<lparr>id_link = k, from_page = fst ft, to_page = snd ft\<rparr>)) ft"

definition value_get_or_create :: "nat \<times> string \<Rightarrow> (val_row \<times> bool) op" where
  "value_get_or_create pn = get_or_create value_rows value_nat_key
     (value_insert (\<lambda>k. \<lparr>id_value = k, value_page = fst pn, value_name = snd pn, value_text = []\<rparr>)) pn"

definition get_by_natural_key :: "page \<Rightarrow> string \<Rightarrow> val_row op" where
  "get_by_natural_key p name w =
     (case filter (\<lambda>v. value_nat_key v = (id_page p, name)) (value_rows w) of
        [] \<Rightarrow> (Inl DoesNotExist, w)
      | [v] \<Rightarrow> (Inr v, w)
      | _ \<Rightarrow> (Inl MultipleObjectsReturned, w))"

definition natural_key :: "val_row \<Rightarrow> nat \<times> string" where
  "natural_key v = (value_page v, value_name v)"

text \<open>\<open>str(value)\<close> of the scalars.\<close>

fun str_scalar :: "scalar \<Rightarrow> string" where
  "str_scalar PNone = ''None''"
| "str_scalar (PBool b) = (if b then ''True'' else ''False'')"
| "str_scalar (PInt i) = show_int i"
| "str_scalar (PFloat t) = t"
| "str_scalar (PText t) = t"

definition upsert :: "page \<Rightarrow> string \<Rightarrow> scalar \<Rightarrow> val_row op" where
  "upsert p name v =
     andThen (value_get_or_create (id_page p, name)) (\<lambda>(r, _).
       let r' = r\<lparr>value_text := str_scalar v\<rparr>
       in andThen (value_save r') (\<lambda>_. ret r'))"

section \<open>Site: the remaining queries\<close>

definition search_order :: "page \<Rightarrow> int \<times> int" where
  "search_order p = (- status p, int (id_page p))"

text \<open>The body of the generator for a regular expression: what it yielded and how it ended.\<close>

fun search_regex :: "site \<Rightarrow> (string \<Rightarrow> bool) \<Rightarrow> page list \<Rightarrow> page list \<times> pyexn option" where
  "search_regex s pat_re [] = ([], None)"
| "search_regex s pat_re (p # ps) =
     (case get_relative_url s p of
        Inl e \<Rightarrow> ([], Some e)
      | Inr url \<Rightarrow>
          (case search_regex s pat_re ps of (found, e) \<Rightarrow>
             (if pat_re url then p # found else found, e)))"

text \<open>\<open>compile\<close> stands for \<open>re.compile(_, re.IGNORECASE)\<close> and the search of its result.\<close>

definition search :: "(string \<Rightarrow> pyexn + (string \<Rightarrow> bool)) \<Rightarrow> site \<Rightarrow> string \<Rightarrow> bool \<Rightarrow> world \<Rightarrow>
    page list \<times> pyexn option" where
  "search compile s q use_regex w =
     (if use_regex then
        (case compile q of
           Inl e \<Rightarrow> ([], Some e)
         | Inr pat_re \<Rightarrow> search_regex s pat_re (sort_key search_order (site_pages s w)))
      else (sort_key search_order
              (filter (\<lambda>p. contains (lower q) (lower (subpath p))) (site_pages s w)), None))"

text \<open>No model declares a relation \<open>excludes\<close>, so the attribute does not exist.\<close>

definition get_excluded_subpaths :: "site \<Rightarrow> string list op" where
  "get_excluded_subpaths s = raise (AttributeError ''excludes'')"

definition count_values :: "site \<Rightarrow> string \<Rightarrow> world \<Rightarrow> (string \<times> nat) list" where
  "count_values s name w =
     (let qs = filter (\<lambda>v. value_name v = name \<and>
                 (\<exists>p \<in> set (site_pages s w). id_page p = value_page v)) (value_rows w)
      in map (\<lambda>t. (t, length (filter (\<lambda>v. value_text v = t) qs))) (remdups (map value_text qs)))"

section \<open>Texts\<close>

definition site_str :: "site \<Rightarrow> string" where
  "site_str s = site_name s"

definition page_str :: "site \<Rightarrow> page \<Rightarrow> pyexn + string" where
  "page_str s p = get_full_url s p"

definition value_str :: "val_row \<Rightarrow> string" where
  "value_str v = value_name v @ ''='' @ value_text v"

definition scheduled_get_relative_url :: "site \<Rightarrow> scheduled_page \<times> page \<Rightarrow> pyexn + string" where
  "scheduled_get_relative_url s cp = get_relative_url s (snd cp)"

definition scheduled_get_full_url :: "site \<Rightarrow> scheduled_page \<times> page \<Rightarrow> pyexn + string" where
  "scheduled_get_full_url s cp = get_full_url s (snd cp)"

end
