(* ===== verification/Core.thy ===== *)
theory Core
  imports Models Webparser
begin

text \<open>
  \<open>core.py\<close>: downloading and checking a page, the update of its links and values, and the
  life of a site (creation, reset, the crawl loop). A Python object is the record that is
  passed on: an assignment to a field of \<open>page\<close> is a record update, and \<open>page_save\<close> writes
  the record to its row.
\<close>

section \<open>Headers\<close>

text \<open>Header names are case-insensitive; the first header of a name counts.\<close>

definition header_lookup :: "headers \<Rightarrow> string \<Rightarrow> header_value option" where
  "header_lookup headers name =
     map_option snd (List.find (\<lambda>h. lower (fst h) = lower name) headers)"

definition get_content_type :: "headers \<Rightarrow> pyexn + string" where
  "get_content_type headers =
     (case header_lookup headers ''content-type'' of
        None \<Rightarrow> Inr []
      | Some (HInt i) \<Rightarrow> Inl (if i \<noteq> 0 then TypeError ''argument of type int is not iterable''
                            else AttributeError ''lower'')
      | Some (HText value) \<Rightarrow>
          let value = (if value \<noteq> [] \<and> CHR '';'' \<in> set value
                       then fst (split_first (CHR '';'') value) else value)
          in Inr (lower value))"

definition get_content_length :: "headers \<Rightarrow> pyexn + int" where
  "get_content_length headers =
     (case header_lookup headers ''content-length'' of
        None \<Rightarrow> Inr 0
      | Some (HInt i) \<Rightarrow> Inr i
      | Some (HText value) \<Rightarrow>
          (case int_of_str value of
             Some i \<Rightarrow> Inr i
           | None \<Rightarrow> Inl (ValueError ''invalid literal for int() with base 10'')))"

definition content_is_html :: "headers \<Rightarrow> pyexn + bool" where
  "content_is_html headers =
     (case get_content_type headers of
        Inl e \<Rightarrow> Inl e
      | Inr ct \<Rightarrow> Inr (ct = ''text/html''))"

section \<open>Downloading\<close>

text \<open>
  The function returns a pair, or on an \<open>IOError\<close> the tuple of four
  \<open>(False, 503, message, {})\<close>, of which the model keeps the message.
\<close>

datatype fetched = Pair headers string | Quadruple string

definition get_text_from_url :: "env \<Rightarrow> string \<Rightarrow> fetched op" where
  "get_text_from_url env url =
     (if \<not> has_url_type url then raise (ValueError ''unknown url type'')
      else andThen (ask (\<lambda>t. e_get env t url)) (\<lambda>out.
        case out of
          GetIOError err \<Rightarrow> ret (Quadruple (''Conexion error: '' @ err))
        | GetRaises e \<Rightarrow> raise e
        | GetOk headers body \<Rightarrow>
            ret (Pair (if header_lookup headers ''content-length'' = None
                       then headers @ [(''content-length'', HInt (int (length body)))] else headers) body)))"

section \<open>Plug-ins and values\<close>

fun dict_put :: "string \<Rightarrow> 'v \<Rightarrow> (string \<times> 'v) list \<Rightarrow> (string \<times> 'v) list" where
  "dict_put k v [] = [(k, v)]"
| "dict_put k v (kv # d) = (if fst kv = k then (k, v) # d else kv # dict_put k v d)"

definition dict_update :: "(string \<times> 'v) list \<Rightarrow> (string \<times> 'v) list \<Rightarrow> (string \<times> 'v) list" where
  "dict_update d e = fold (\<lambda>kv. dict_put (fst kv) (snd kv)) e d"

text \<open>\<open>str(err)\<close> of an exception: its message.\<close>

fun str_exn :: "pyexn \<Rightarrow> string" where
  "str_exn (AttributeError m) = m"
| "str_exn (TypeError m) = m"
| "str_exn (ValueError m) = m"
| "str_exn (KeyError m) = CHR 0x27 # m @ [CHR 0x27]"
| "str_exn (IndexError m) = m"
| "str_exn (NameError m) = m"
| "str_exn (OverflowError m) = m"
| "str_exn (CommandError m) = m"
| "str_exn (IntegrityError m) = m"
| "str_exn (DataError m) = m"
| "str_exn (NoReverseMatch m) = m"
| "str_exn (OtherError m) = m"
| "str_exn e = []"

text \<open>One turn of the plug-in loop; the accumulator is \<open>(values, failures)\<close>.\<close>

definition run_plugin :: "page \<Rightarrow> headers \<Rightarrow> string \<Rightarrow> string \<times> plugin \<Rightarrow> dict \<times> string list \<Rightarrow>
    (dict \<times> string list) op" where
  "run_plugin p headers body np acc =
     andThen (ask (\<lambda>t. snd np t p headers body)) (\<lambda>out.
       case out of
         Inl err \<Rightarrow> ret (fst acc, snd acc @ [fst np @ '': '' @ str_exn err])
       | Inr None \<Rightarrow> ret acc
       | Inr (Some r) \<Rightarrow> ret (if r \<noteq> [] then (dict_update (fst acc) r, snd acc) else acc))"

definition plugin_failure_text :: "string list \<Rightarrow> string" where
  "plugin_failure_text failures =
     ''Error al ejecutar los plug-ins:'' @ newline @ join (newline @ '' - '') failures"

definition store_values :: "page \<Rightarrow> dict \<Rightarrow> unit op" where
  "store_values p vals =
     andThen (reads (\<lambda>w. filter (\<lambda>n. n \<notin> fst ` set vals) (map value_name (page_values p w)))) (\<lambda>a_borrar.
     andThen (if a_borrar \<noteq> []
              then writes (delete_values (\<lambda>v. value_page v = id_page p \<and> value_name v \<in> set a_borrar))
              else ret ()) (\<lambda>_.
     for_acc (\<lambda>nv _. andThen (upsert p (fst nv) (snd nv)) (\<lambda>_. ret ())) vals ()))"

definition run_plugins :: "env \<Rightarrow> page \<Rightarrow> headers \<Rightarrow> string \<Rightarrow> (dict, int) presult op" where
  "run_plugins env p headers body =
     andThen (for_acc (run_plugin p headers body) (e_plugins env) ([], [])) (\<lambda>(vals, failures).
     andThen (store_values p vals) (\<lambda>_.
     if failures \<noteq> [] then ret (Failure (plugin_failure_text failures) None)
     else ret (Success vals)))"

section \<open>Links\<close>

text \<open>One turn of the loop over the links; the accumulator is the set \<open>after_links\<close>.\<close>

definition follow_link :: "env \<Rightarrow> site \<Rightarrow> page \<Rightarrow> (string \<Rightarrow> bool) \<Rightarrow> string \<Rightarrow> nat list \<Rightarrow> nat list op" where
  "follow_link env s p can_fetch lnk after_links =
     andThen (lift (valid_link s p can_fetch lnk)) (\<lambda>new_url.
       case new_url of
         None \<Rightarrow> ret after_links
       | Some url \<Rightarrow>
           andThen (add_page env s url) (\<lambda>(target, created).
           if is_linkable target then
             andThen (link_get_or_create (id_page p, id_page target)) (\<lambda>_.
             ret (set_add (id_page target) after_links))
           else ret after_links))"

definition update_links :: "env \<Rightarrow> site \<Rightarrow> page \<Rightarrow> string \<Rightarrow> (nat list \<times> nat list) op" where
  "update_links env s p body =
     andThen (reads (\<lambda>w. remdups (map to_page (outgoing_links p w)))) (\<lambda>before_links.
     andThen (get_all_valid_links env s body) (\<lambda>(candidates, can_fetch).
     andThen (for_acc (follow_link env s p can_fetch) candidates []) (\<lambda>after_links.
       let to_remove = filter (\<lambda>k. k \<notin> set after_links) before_links;
           to_add = filter (\<lambda>k. k \<notin> set before_links) after_links
       in andThen (if to_remove \<noteq> []
                   then writes (delete_links (\<lambda>l. from_page l = id_page p \<and> to_page l \<in> set to_remove))
                   else ret ()) (\<lambda>_.
          ret (to_remove, to_add)))))"

section \<open>Checking a page\<close>

text \<open>
  The message of a successful check: the URL and, for a local HTML page, the numbers of new
  and deleted links and whether the plug-ins succeeded.
\<close>

datatype check_msg = Checked string "(nat \<times> nat \<times> bool) option"

type_synonym check_result = "(check_msg, int) presult"

text \<open>\<open>int(result.code)\<close>\<close>

definition code_as_int :: "int option \<Rightarrow> pyexn + int" where
  "code_as_int c =
     (case c of Some i \<Rightarrow> Inr i
      | None \<Rightarrow> Inl (TypeError ''int() argument must be a string, a bytes-like object or a real number, not NoneType''))"

definition str_failure :: "(valid_value, int) presult \<Rightarrow> string" where
  "str_failure r = str_of (\<lambda>_. []) show_int r"

definition teapot_text :: "string \<Rightarrow> string" where
  "teapot_text url = ''La URL '' @ url @ '' deber'' @ [CHR 0xED] @ ''a ser HTML, pero no lo parece''"

definition check_failed :: "env \<Rightarrow> page \<Rightarrow> string \<Rightarrow> rat \<Rightarrow> (valid_value, int) presult \<Rightarrow> check_result op" where
  "check_failed env p url start_time r =
     andThen (lift (get_code r)) (\<lambda>c.
     andThen (lift (code_as_int c)) (\<lambda>st.
     andThen (lift (get_error_message r)) (\<lambda>msg.
     andThen (ask (e_time env)) (\<lambda>now.
     andThen (page_save (p\<lparr>status := st, error_message := msg, check_time := now - start_time\<rparr>)) (\<lambda>_.
     ret (Failure (''Error al comprobar '' @ url @ '': '' @ str_failure r) None))))))"

definition check_html :: "env \<Rightarrow> site \<Rightarrow> page \<Rightarrow> string \<Rightarrow> check_result op" where
  "check_html env s p url =
     andThen (get_text_from_url env url) (\<lambda>out.
       case out of
         Quadruple _ \<Rightarrow> raise (ValueError ''too many values to unpack (expected 2)'')
       | Pair headers body \<Rightarrow>
           if is_valid_html body then
             andThen (update_links env s p body) (\<lambda>(deleted_links, added_links).
             andThen (run_plugins env p headers body) (\<lambda>plugins_phase.
             ret (Success (Checked url
               (Some (length added_links, length deleted_links, bool_of plugins_phase))))))
           else
             andThen (page_save (p\<lparr>status := 418, error_message := teapot_text url\<rparr>)) (\<lambda>_.
             ret (Failure (teapot_text url) None)))"

definition check_responded :: "env \<Rightarrow> site \<Rightarrow> page \<Rightarrow> string \<Rightarrow> rat \<Rightarrow> response \<Rightarrow> check_result op" where
  "check_responded env s p url start_time r =
     andThen (lift (get_content_type (resp_headers r))) (\<lambda>ct.
     andThen (lift (get_content_length (resp_headers r))) (\<lambda>sz.
     andThen (ask (e_time env)) (\<lambda>now.
       let p = p\<lparr>status := status_code r, content_type := ct, size_bytes := sz,
                check_time := now - start_time\<rparr>
       in andThen (page_save p) (\<lambda>_.
          andThen (lift (content_is_html (resp_headers r))) (\<lambda>is_html.
          if is_html then
            andThen (lift (is_local s (resp_url r))) (\<lambda>loc.
            if loc then check_html env s p url
            else andThen (writes (delete_links (\<lambda>l. from_page l = id_page p))) (\<lambda>_.
                 ret (Success (Checked url None))))
          else ret (Success (Checked url None)))))))"

text \<open>The part of \<open>check_page\<close> after the call of \<open>page.is_valid()\<close>, for any result of it.\<close>

definition check_page_after :: "env \<Rightarrow> site \<Rightarrow> page \<Rightarrow> string \<Rightarrow> rat \<Rightarrow> (valid_value, int) presult \<Rightarrow>
    check_result op" where
  "check_page_after env s p url start_time r =
     (if is_failure r then check_failed env p url start_time r
      else andThen (lift (get_value r)) (\<lambda>v.
        case v of
          VBool _ \<Rightarrow> raise (AttributeError ''status_code'')
        | VResponse resp \<Rightarrow> check_responded env s p url start_time resp))"

definition check_page :: "env \<Rightarrow> page \<Rightarrow> check_result op" where
  "check_page env p =
     andThen (ask (e_local env)) (\<lambda>now.
       let p = p\<lparr>checked_at := now, is_checked := True\<rparr>
       in andThen (site_of p) (\<lambda>s.
          andThen (lift (get_full_url s p)) (\<lambda>url.
          andThen (ask (e_time env)) (\<lambda>start_time.
          andThen (is_valid env s p) (\<lambda>r.
          check_page_after env s p url start_time r)))))"

section \<open>Sites\<close>

definition load_site :: "string \<Rightarrow> site option op" where
  "load_site name = load_site_by_name name"

definition find_urls_by_pattern :: "(string \<Rightarrow> pyexn + (string \<Rightarrow> bool)) \<Rightarrow> site \<Rightarrow> string \<Rightarrow> bool \<Rightarrow> world \<Rightarrow>
    page list \<times> pyexn option" where
  "find_urls_by_pattern compile s pattern use_regex w = search compile s pattern use_regex w"

definition load_page :: "string \<Rightarrow> int \<Rightarrow> page option op" where
  "load_page name pk =
     andThen (load_site_by_name name) (\<lambda>site.
       case site of
         None \<Rightarrow> raise (AttributeError ''load_page'')
       | Some s \<Rightarrow> reads (site_load_page s pk))"

definition init_site :: "env \<Rightarrow> string \<Rightarrow> string \<Rightarrow> site op" where
  "init_site env url name =
     andThen (load_site_by_name name) (\<lambda>old.
     if old \<noteq> None then raise (ValueError (''Error: El site '' @ name @ '' ya existe''))
     else
       andThen (lift (urlparse url [])) (\<lambda>info.
       andThen (ask (e_now env)) (\<lambda>now.
       andThen (site_insert (\<lambda>k. \<lparr>id_site = k, site_name = name, site_scheme = scheme info,
                  site_netloc = netloc info, site_path = path info, site_created_at = now\<rparr>)) (\<lambda>site.
       andThen (ask (e_now env)) (\<lambda>now.
       andThen (page_insert (\<lambda>k. (new_page (id_site site) (path info) [] now k)\<lparr>status := -1\<rparr>)) (\<lambda>_.
       ret site))))))"

definition reset_site :: "env \<Rightarrow> string \<Rightarrow> site op" where
  "reset_site env name =
     andThen (load_site_by_name name) (\<lambda>site.
       case site of
         None \<Rightarrow> raise (ValueError (''No existe ningun site llamado '' @ name))
       | Some s \<Rightarrow>
           andThen (writes (delete_pages (\<lambda>p. page_site p = id_site s))) (\<lambda>_.
           andThen (add_page env s (site_path s)) (\<lambda>_.
           ret s)))"

text \<open>
  The crawl loop is a generator; the model runs it to its end. The result is the list of
  the yielded results and the exception that ended it, if one did. \<open>n\<close> is what is left of
  \<open>num\<close>.
\<close>

type_synonym 'r run = "'r list \<times> pyexn option \<times> world"

definition yielded :: "'r \<Rightarrow> 'r run \<Rightarrow> 'r run" where
  "yielded r out = (case out of (rs, e, w) \<Rightarrow> (r # rs, e, w))"

fun crawl :: "'p option op \<Rightarrow> ('p \<Rightarrow> 'r op) \<Rightarrow> nat \<Rightarrow> 'p option \<Rightarrow> world \<Rightarrow> 'r run" where
  "crawl next check 0 pg w = ([], None, w)"
| "crawl next check (Suc n) None w = ([], None, w)"
| "crawl next check (Suc n) (Some p) w =
     (case check p w of
        (Inl e, w') \<Rightarrow> ([], Some e, w')
      | (Inr r, w') \<Rightarrow>
          yielded r
            (case next w' of
               (Inl e, w'') \<Rightarrow> ([], Some e, w'')
             | (Inr pg, w'') \<Rightarrow> crawl next check n pg w''))"

definition check_site :: "env \<Rightarrow> site \<Rightarrow> int \<Rightarrow> world \<Rightarrow> check_result run" where
  "check_site env s num w =
     (case next_page_to_check env s w of
        (Inl e, w') \<Rightarrow> ([], Some e, w')
      | (Inr pg, w') \<Rightarrow> crawl (next_page_to_check env s) (check_page env) (nat num) pg w')"

end
