(* ===== verification/Natural_Keys.thy ===== *)
theory Natural_Keys
  imports Models
begin

text \<open>
  Find-or-create by a natural key. \<open>Site.load_or_create\<close> for pages and Django's
  \<open>get_or_create\<close> for links and values keep the same contract, the locale
  \<open>natural_key_store\<close>; its consequences (the second call finds what the first one returned,
  the keys grow by exactly the one asked for) are proved once and interpreted three times.
\<close>

section \<open>The contract\<close>

locale natural_key_store =
  fixes rows :: "world \<Rightarrow> 'r list"
    and nat_key :: "'r \<Rightarrow> 'k"
    and goc :: "'k \<Rightarrow> ('r \<times> bool) op"
    and inv :: "world \<Rightarrow> bool"
  assumes found: "inv w \<Longrightarrow> r \<in> set (rows w) \<Longrightarrow> goc (nat_key r) w = (Inr (r, False), w)"
    and created: "inv w \<Longrightarrow> k \<notin> nat_key ` set (rows w) \<Longrightarrow> goc k w = (Inr (r, b), w') \<Longrightarrow>
      b \<and> nat_key r = k \<and> set (rows w') = insert r (set (rows w))"
    and failed: "inv w \<Longrightarrow> goc k w = (Inl e, w') \<Longrightarrow> rows w' = rows w"
    and keeps_inv: "keeps inv (goc k)"
begin

lemma inv_after: "inv w \<Longrightarrow> goc k w = (r, w') \<Longrightarrow> inv w'"
  using keeps_inv by (rule keeps_resultD)

lemma returned:
  assumes "inv w" "goc k w = (Inr (r, b), w')"
  shows "nat_key r = k" and "set (rows w') = insert r (set (rows w))"
    and "b \<longleftrightarrow> k \<notin> nat_key ` set (rows w)"
proof -
  have "nat_key r = k \<and> set (rows w') = insert r (set (rows w)) \<and> (b \<longleftrightarrow> k \<notin> nat_key ` set (rows w))"
  proof (cases "k \<in> nat_key ` set (rows w)")
    case True
    then obtain s where "s \<in> set (rows w)" "k = nat_key s" by auto
    with found [OF assms(1) this(1)] assms(2) show ?thesis by auto
  next
    case False
    with created [OF assms(1) _ assms(2)] show ?thesis by simp
  qed
  then show "nat_key r = k" and "set (rows w') = insert r (set (rows w))"
    and "b \<longleftrightarrow> k \<notin> nat_key ` set (rows w)"
    by simp_all
qed

lemma again: "inv w \<Longrightarrow> goc k w = (Inr (r, b), w') \<Longrightarrow> goc k w' = (Inr (r, False), w')"
  using found [of w' r] returned [of w k r b w'] inv_after [of w k "Inr (r, b)" w'] by simp

lemma keys_after:
  "inv w \<Longrightarrow> goc k w = (Inr (r, b), w') \<Longrightarrow> nat_key ` set (rows w') = insert k (nat_key ` set (rows w))"
  using returned [of w k r b w'] by auto

lemma old_rows_kept: "inv w \<Longrightarrow> goc k w = (out, w') \<Longrightarrow> set (rows w) \<subseteq> set (rows w')"
  using returned(2) failed by (cases out) (auto split: prod.splits)

end

section \<open>Rows that a natural key determines\<close>

lemma filter_unique_by:
  "unique_by nat_key rows \<Longrightarrow> r \<in> set rows \<Longrightarrow> filter (\<lambda>x. nat_key x = nat_key r) rows = [r]"
  unfolding unique_by_def by (rule filter_map_distinct)

lemma filter_none: "k \<notin> nat_key ` set rows \<Longrightarrow> filter (\<lambda>x. nat_key x = k) rows = []"
  by (auto simp: filter_empty_conv)

lemma row_put_new: "key r \<notin> key ` set rows \<Longrightarrow> row_put key r rows = rows @ [r]"
  by (auto simp: row_put_def image_iff)

lemma keys_ok_new: "keys_ok key n rows \<Longrightarrow> key r = n \<Longrightarrow> key r \<notin> key ` set rows"
  by (auto simp: keys_ok_def)

lemma row_put_next: "keys_ok key n rows \<Longrightarrow> key r = n \<Longrightarrow> row_put key r rows = rows @ [r]"
  using row_put_new keys_ok_new by metis

lemma get_or_create_found:
  "unique_by nat_key (rows w) \<Longrightarrow> r \<in> set (rows w) \<Longrightarrow>
     get_or_create rows nat_key create (nat_key r) w = (Inr (r, False), w)"
  by (simp add: get_or_create_def filter_unique_by)

lemma get_or_create_new:
  "k \<notin> nat_key ` set (rows w) \<Longrightarrow>
     get_or_create rows nat_key create k w = andThen create (\<lambda>r. ret (r, True)) w"
  by (simp add: get_or_create_def filter_none)

lemma get_or_create_keeps: "keeps db_ok create \<Longrightarrow> keeps db_ok (get_or_create rows nat_key create k)"
proof (rule keepsI)
  fix w assume "keeps db_ok create" "db_ok w"
  moreover from this have "keeps db_ok (andThen create (\<lambda>r. ret (r, True)))"
    by (auto intro!: keeps_intros)
  ultimately show "db_ok (snd (get_or_create rows nat_key create k w))"
    by (auto simp: get_or_create_def dest: keepsD split: list.splits)
qed

lemma get_or_create_failed:
  assumes "get_or_create rows nat_key create k w = (Inl e, w')"
    and "\<And>e w'. create w = (Inl e, w') \<Longrightarrow> rows w' = rows w"
  shows "rows w' = rows w"
  using assms
  by (auto simp: get_or_create_def andThen_def ret_def split: list.splits prod.splits sum.splits)

text \<open>What an insertion leaves behind.\<close>

lemma link_insert_cases:
  assumes "keys_ok id_link (next_link w) (link_rows w)"
  shows "(\<exists>e. link_insert f w = (Inl e, w)) \<or>
     (id_link (f (next_link w)) = next_link w \<longrightarrow>
      link_insert f w = (Inr (f (next_link w)),
        w\<lparr>link_rows := link_rows w @ [f (next_link w)], next_link := Suc (next_link w)\<rparr>))"
  using assms
  by (auto simp: link_insert_def link_save_def link_put_def Let_def row_put_next [OF assms])

lemma value_insert_cases:
  assumes "keys_ok id_value (next_value w) (value_rows w)"
  shows "(\<exists>e. value_insert f w = (Inl e, w)) \<or>
     (id_value (f (next_value w)) = next_value w \<longrightarrow>
      value_insert f w = (Inr (f (next_value w)),
        w\<lparr>value_rows := value_rows w @ [f (next_value w)], next_value := Suc (next_value w)\<rparr>))"
  using assms
  by (auto simp: value_insert_def value_save_def value_put_def Let_def row_put_next [OF assms])

lemma page_insert_cases:
  assumes "keys_ok id_page (next_page w) (page_rows w)"
  shows "(\<exists>e. page_insert f w = (Inl e, w)) \<or>
     (id_page (f (next_page w)) = next_page w \<longrightarrow>
      page_insert f w = (Inr (f (next_page w)),
        w\<lparr>page_rows := page_rows w @ [f (next_page w)], next_page := Suc (next_page w)\<rparr>))"
  using assms
  by (auto simp: page_insert_def page_save_def page_put_def Let_def row_put_next [OF assms])

lemma db_ok_keys_ok:
  assumes "db_ok w"
  shows "keys_ok id_site (next_site w) (site_rows w)" "keys_ok id_page (next_page w) (page_rows w)"
    "keys_ok id_link (next_link w) (link_rows w)" "keys_ok id_value (next_value w) (value_rows w)"
  using assms by (auto simp: db_ok_def keys_inv_def)

lemma db_ok_unique:
  assumes "db_ok w"
  shows "unique_by site_name (site_rows w)" "unique_by page_nat_key (page_rows w)"
    "unique_by link_nat_key (link_rows w)" "unique_by value_nat_key (value_rows w)"
  using assms by (auto simp: db_ok_def unique_inv_def)

section \<open>Links and values\<close>

interpretation link_store: natural_key_store link_rows link_nat_key link_get_or_create db_ok
proof (unfold_locales, goal_cases)
  case (1 w r)
  then show ?case by (simp add: link_get_or_create_def get_or_create_found db_ok_unique)
next
  case (2 w k r b w')
  then show ?case
    using link_insert_cases [OF db_ok_keys_ok(3), of w "\<lambda>i. \<lparr>id_link = i, from_page = fst k, to_page = snd k\<rparr>"]
    by (auto simp: link_get_or_create_def get_or_create_new andThen_def ret_def link_nat_key_def)
next
  case (3 w k e w')
  then show ?case
    using link_insert_cases [OF db_ok_keys_ok(3), of w "\<lambda>i. \<lparr>id_link = i, from_page = fst k, to_page = snd k\<rparr>"]
    by (auto simp: link_get_or_create_def elim!: get_or_create_failed)
next
  case (4 k)
  show ?case
    unfolding link_get_or_create_def by (intro get_or_create_keeps link_insert_ok) simp
qed

interpretation value_store: natural_key_store value_rows value_nat_key value_get_or_create db_ok
proof (unfold_locales, goal_cases)
  case (1 w r)
  then show ?case by (simp add: value_get_or_create_def get_or_create_found db_ok_unique)
next
  case (2 w k r b w')
  then show ?case
    using value_insert_cases [OF db_ok_keys_ok(4), of w
        "\<lambda>i. \<lparr>id_value = i, value_page = fst k, value_name = snd k, value_text = []\<rparr>"]
    by (auto simp: value_get_or_create_def get_or_create_new andThen_def ret_def value_nat_key_def)
next
  case (3 w k e w')
  then show ?case
    using value_insert_cases [OF db_ok_keys_ok(4), of w
        "\<lambda>i. \<lparr>id_value = i, value_page = fst k, value_name = snd k, value_text = []\<rparr>"]
    by (auto simp: value_get_or_create_def elim!: get_or_create_failed)
next
  case (4 k)
  show ?case
    unfolding value_get_or_create_def by (intro get_or_create_keeps value_insert_ok) simp
qed

section \<open>Pages\<close>

definition page_addr :: "page \<Rightarrow> string \<times> string" where
  "page_addr p = (subpath p, page_params p)"

lemma page_insert_tick [simp]: "tick (snd (page_insert f w)) = tick w"
  by (simp add: page_insert_def page_save_def page_put_def Let_def split: prod.splits sum.splits)

lemma load_or_create_found:
  assumes "db_ok w" "p \<in> set (site_pages s w)"
  shows "load_or_create env s (page_addr p) w = (Inr (p, False), w)"
proof -
  have "filter (\<lambda>q. subpath q = subpath p \<and> page_params q = page_params p) (site_pages s w) =
      filter (\<lambda>q. page_nat_key q = page_nat_key p) (page_rows w)"
    using assms(2) by (auto simp: site_pages_def page_nat_key_def filter_filter intro!: filter_cong)
  also have "\<dots> = [p]"
    using assms by (intro filter_unique_by db_ok_unique) (auto simp: site_pages_def)
  finally show ?thesis by (simp add: load_or_create_def page_addr_def)
qed

lemma load_or_create_new:
  assumes "k \<notin> page_addr ` set (site_pages s w)"
  shows "load_or_create env s k w =
     andThen (ask (e_now env)) (\<lambda>now.
     andThen (page_insert (new_page (id_site s) (fst k) (snd k) now)) (\<lambda>p. ret (p, True))) w"
proof -
  have "filter (\<lambda>q. subpath q = fst k \<and> page_params q = snd k) (site_pages s w) = []"
    using assms by (auto simp: page_addr_def filter_empty_conv image_iff)
  then show ?thesis by (simp add: load_or_create_def)
qed

lemma load_or_create_keeps: "keeps db_ok (load_or_create env s k)"
proof (rule keepsI)
  fix w assume w: "db_ok w"
  have "keeps db_ok (andThen (ask (e_now env)) (\<lambda>now.
     andThen (page_insert (new_page (id_site s) (fst k) (snd k) now)) (\<lambda>p. ret (p, True))))"
    by (auto intro!: keeps_intros page_insert_ok simp: new_page_def)
  from keepsD [OF this w] w show "db_ok (snd (load_or_create env s k w))"
    by (auto simp: load_or_create_def split: option.splits)
qed

lemma load_or_create_new_cases:
  fixes env :: env
  assumes "db_ok w" "k \<notin> page_addr ` set (site_pages s w)"
  defines "q \<equiv> new_page (id_site s) (fst k) (snd k) (e_now env (tick w)) (next_page w)"
  shows "(\<exists>e. load_or_create env s k w = (Inl e, w\<lparr>tick := Suc (tick w)\<rparr>)) \<or>
     load_or_create env s k w = (Inr (q, True),
       w\<lparr>page_rows := page_rows w @ [q], next_page := Suc (next_page w), tick := Suc (tick w)\<rparr>)"
  using page_insert_cases [of "w\<lparr>tick := Suc (tick w)\<rparr>" "new_page (id_site s) (fst k) (snd k) (e_now env (tick w))"]
    db_ok_keys_ok(2) [OF assms(1)]
  by (auto simp: load_or_create_new [OF assms(2)] ask_def andThen_def ret_def q_def new_page_def)

interpretation page_store: natural_key_store "site_pages s" page_addr "load_or_create env s" db_ok
  for s env
proof (unfold_locales, goal_cases)
  case (1 w r)
  then show ?case by (rule load_or_create_found)
next
  case (2 w k r b w')
  with load_or_create_new_cases [OF 2(1,2), of env] show ?case
    by (auto simp: site_pages_def new_page_def page_addr_def)
next
  case (3 w k e w')
  show ?case
  proof (cases "k \<in> page_addr ` set (site_pages s w)")
    case True
    then obtain p where "p \<in> set (site_pages s w)" "k = page_addr p" by auto
    with load_or_create_found [OF 3(1) this(1), of env] 3(2) show ?thesis by simp
  next
    case False
    with load_or_create_new_cases [OF 3(1) False, of env] 3(2) show ?thesis
      by (auto simp: site_pages_def)
  qed
next
  case (4 k)
  show ?case by (rule load_or_create_keeps)
qed

text \<open>Creating a page of a site changes no row of the database and no other table.\<close>

lemma load_or_create_frame:
  assumes "db_ok w" "load_or_create env s k w = (out, w')"
  shows "set (page_rows w) \<subseteq> set (page_rows w')" "site_rows w' = site_rows w"
    "link_rows w' = link_rows w" "value_rows w' = value_rows w" "sched_rows w' = sched_rows w"
    "next_page w \<le> next_page w'"
proof -
  have "set (page_rows w) \<subseteq> set (page_rows w') \<and> site_rows w' = site_rows w \<and>
    link_rows w' = link_rows w \<and> value_rows w' = value_rows w \<and> sched_rows w' = sched_rows w \<and>
    next_page w \<le> next_page w'"
  proof (cases "k \<in> page_addr ` set (site_pages s w)")
    case True
    then obtain p where "p \<in> set (site_pages s w)" "k = page_addr p" by auto
    with load_or_create_found [OF assms(1) this(1), of env] assms(2) show ?thesis by auto
  next
    case False
    with load_or_create_new_cases [OF assms(1) False, of env] assms(2) show ?thesis by auto
  qed
  then show "set (page_rows w) \<subseteq> set (page_rows w')" "site_rows w' = site_rows w"
    "link_rows w' = link_rows w" "value_rows w' = value_rows w" "sched_rows w' = sched_rows w"
    "next_page w \<le> next_page w'"
    by simp_all
qed

end
