(* ===== verification/Frontier.thy ===== *)
theory Frontier
  imports Models
begin

text \<open>
  Which page \<open>Site.next_page_to_check\<close> returns, against the priorities its documentation
  gives: scheduled pages whose time has come, then with some probability the page that has
  waited longest among those with errors, then the frontier proper in the order of its
  discovery, and last the page checked longest ago.
\<close>

section \<open>The specification\<close>

definition oldest :: "('a \<Rightarrow> int) \<Rightarrow> 'a set \<Rightarrow> 'a \<Rightarrow> bool" where
  "oldest f S x \<longleftrightarrow> x \<in> S \<and> (\<forall>y \<in> S. f x \<le> f y)"

text \<open>The pages of the site with a schedule that is due at \<open>now\<close>.\<close>

definition due_pages :: "site \<Rightarrow> world \<Rightarrow> int \<Rightarrow> page set" where
  "due_pages s w now = {p \<in> set (site_pages s w). \<exists>c \<in> set (sched_rows w).
     sched_page c = id_page p \<and> checked_at p + rotation c < now}"

definition error_pages :: "site \<Rightarrow> world \<Rightarrow> page set" where
  "error_pages s w = {p \<in> set (site_pages s w). is_error_row p}"

definition unchecked_pages :: "site \<Rightarrow> world \<Rightarrow> page set" where
  "unchecked_pages s w = {p \<in> set (site_pages s w). \<not> is_checked p}"

definition frontier_choice :: "site \<Rightarrow> world \<Rightarrow> int \<Rightarrow> bool \<Rightarrow> page \<Rightarrow> bool" where
  "frontier_choice s w now retry p =
     (if due_pages s w now \<noteq> {} then oldest checked_at (due_pages s w now) p
      else if error_pages s w \<noteq> {} \<and> retry then oldest checked_at (error_pages s w) p
      else if unchecked_pages s w \<noteq> {} then oldest page_created_at (unchecked_pages s w) p
      else oldest checked_at (set (site_pages s w)) p)"

section \<open>The parts of the query\<close>

lemma oldest_hd_sort:
  assumes "xs \<noteq> []"
  shows "oldest f (set xs) (hd (sort_key f xs))"
  using hd_sort_key_in [OF assms] hd_sort_key_min by (auto simp: oldest_def)

lemma head_sort_oldest: "head (sort_key f xs) = Some x \<Longrightarrow> oldest f (set xs) x"
proof -
  assume "head (sort_key f xs) = Some x"
  then have "sort_key f xs \<noteq> []" "x = hd (sort_key f xs)" by (auto dest: head_Some_hd)
  moreover from this have "xs \<noteq> []" by auto
  ultimately show ?thesis using oldest_hd_sort by simp
qed

lemma sort_key_Nil_iff [simp]: "sort_key f xs = [] \<longleftrightarrow> xs = []"
  by (metis length_0_conv length_sort)

lemma in_sched_join:
  "page_keys w \<Longrightarrow> (c, p) \<in> set (sched_join w) \<longleftrightarrow>
     c \<in> set (sched_rows w) \<and> p \<in> set (page_rows w) \<and> id_page p = sched_page c"
  by (auto simp: sched_join_def page_table.get_iff eq_commute [of "Some _" "page_get _ _"]
      split: option.splits)

lemma due_from_join:
  assumes "page_keys w"
  shows "snd ` {cp \<in> set (all_scheduled_pages s w). watermark cp < now} = due_pages s w now"
  using in_sched_join [OF assms]
  by (force simp: all_scheduled_pages_def due_pages_def watermark_def site_pages_def image_iff)

lemma sched_order_le: "sched_order a \<le> sched_order b \<Longrightarrow> checked_at (snd a) \<le> checked_at (snd b)"
  by (auto simp: sched_order_def less_eq_prod_def less_prod_def)

lemma first_due_oldest:
  assumes "page_keys w"
    and "first (filter (\<lambda>cp. watermark cp < now) (all_scheduled_pages s w)) (\<lambda>_. True) None = Some cp"
  shows "oldest checked_at (due_pages s w now) (snd cp)"
proof -
  let ?due = "filter (\<lambda>cp. watermark cp < now) (all_scheduled_pages s w)"
  have "sorted (map sched_order (all_scheduled_pages s w))"
    by (simp add: all_scheduled_pages_def)
  then have "sorted (map sched_order ?due)" by (rule sorted_filter)
  moreover from assms(2) obtain rest where "?due = cp # rest"
    by (cases ?due) auto
  ultimately have "\<forall>d \<in> set ?due. sched_order cp \<le> sched_order d" by auto
  then have "\<forall>d \<in> set ?due. checked_at (snd cp) \<le> checked_at (snd d)"
    using sched_order_le by blast
  moreover have "cp \<in> set ?due" using \<open>?due = cp # rest\<close> by simp
  ultimately show ?thesis
    unfolding oldest_def due_from_join [OF assms(1), symmetric] by auto
qed

lemma first_due_None:
  assumes "page_keys w"
  shows "first (filter (\<lambda>cp. watermark cp < now) (all_scheduled_pages s w)) (\<lambda>_. True) None = None
    \<longleftrightarrow> due_pages s w now = {}"
  using due_from_join [OF assms, of s now] by (auto simp: first_None_iff)

lemma queue_head_unchecked:
  "unchecked_pages s w \<noteq> {} \<Longrightarrow>
     all_queued_pages s w = sort_key page_created_at (filter (\<lambda>p. \<not> is_checked p) (site_pages s w))"
  by (auto simp: all_queued_pages_def unchecked_pages_def Let_def filter_empty_conv)

lemma queue_head_checked:
  "unchecked_pages s w = {} \<Longrightarrow> all_queued_pages s w = sort_key checked_at (site_pages s w)"
  by (auto simp: all_queued_pages_def unchecked_pages_def Let_def filter_empty_conv filter_id_conv
      intro!: arg_cong [where f = "sort_key checked_at"])

lemma error_pages_empty: "error_pages s w = {} \<longleftrightarrow> pages_with_errors s w = []"
  by (auto simp: error_pages_def pages_with_errors_def filter_empty_conv)

definition frontier_query :: "site \<Rightarrow> world \<Rightarrow> page option" where
  "frontier_query s w =
     (if length (all_queued_pages s w) > 0 then head (all_queued_pages s w)
      else head (sort_key checked_at (site_pages s w)))"

lemma frontier_query_cases:
  "frontier_query s w =
     (if unchecked_pages s w \<noteq> {}
      then head (sort_key page_created_at (filter (\<lambda>p. \<not> is_checked p) (site_pages s w)))
      else head (sort_key checked_at (site_pages s w)))"
  by (auto simp: frontier_query_def queue_head_unchecked queue_head_checked)
    (auto simp: unchecked_pages_def filter_empty_conv)

section \<open>The operation\<close>

text \<open>The readings of the outside world during the call: the clock, then perhaps a random number.\<close>

lemma next_page_eval:
  "next_page_to_check env s w =
     (let now = e_now env (tick w); w1 = w\<lparr>tick := Suc (tick w)\<rparr>
      in case first (filter (\<lambda>cp. watermark cp < now) (all_scheduled_pages s w)) (\<lambda>_. True) None of
           Some cp \<Rightarrow> (Inr (Some (snd cp)), w1)
         | None \<Rightarrow>
             if pages_with_errors s w = [] then (Inr (frontier_query s w), w1)
             else (Inr (if e_random env (Suc (tick w)) \<le> 1 / 2 then last_page_with_errors s w
                        else frontier_query s w), w\<lparr>tick := Suc (Suc (tick w))\<rparr>))"
proof -
  have frame: "all_scheduled_pages s (w\<lparr>tick := n\<rparr>) = all_scheduled_pages s w"
    "pages_with_errors s (w\<lparr>tick := n\<rparr>) = pages_with_errors s w"
    "last_page_with_errors s (w\<lparr>tick := n\<rparr>) = last_page_with_errors s w"
    "all_queued_pages s (w\<lparr>tick := n\<rparr>) = all_queued_pages s w"
    "site_pages s (w\<lparr>tick := n\<rparr>) = site_pages s w" for n
    by (simp_all add: all_scheduled_pages_def sched_join_def page_get_def pages_with_errors_def
        last_page_with_errors_def all_queued_pages_def site_pages_def)
  show ?thesis
    by (simp add: next_page_to_check_def andThen_def ask_def reads_def ret_def frame
        frontier_query_def Let_def split: option.split)
qed

lemma next_page_keeps: "keeps db_ok (next_page_to_check env s)"
  by (rule keepsI) (simp add: next_page_eval Let_def split: option.split)

lemma next_page_returns: "\<exists>pg n. next_page_to_check env s w = (Inr pg, w\<lparr>tick := n\<rparr>)"
  by (auto simp: next_page_eval Let_def split: option.split)

lemma last_error_oldest:
  "last_page_with_errors s w = Some p \<Longrightarrow> oldest checked_at (error_pages s w) p"
  unfolding last_page_with_errors_def by (drule head_sort_oldest) (simp add: error_pages_def)

lemma last_error_None: "last_page_with_errors s w = None \<longleftrightarrow> error_pages s w = {}"
  by (auto simp: last_page_with_errors_def error_pages_def filter_empty_conv)

lemma frontier_query_oldest:
  assumes "frontier_query s w = Some p"
  shows "if unchecked_pages s w \<noteq> {} then oldest page_created_at (unchecked_pages s w) p
    else oldest checked_at (set (site_pages s w)) p"
proof (cases "unchecked_pages s w = {}")
  case True
  with assms have "head (sort_key checked_at (site_pages s w)) = Some p"
    by (simp add: frontier_query_cases)
  from head_sort_oldest [OF this] True show ?thesis by simp
next
  case False
  with assms have "head (sort_key page_created_at (filter (\<lambda>p. \<not> is_checked p) (site_pages s w))) = Some p"
    by (simp add: frontier_query_cases)
  from head_sort_oldest [OF this] False show ?thesis by (simp add: unchecked_pages_def)
qed

lemma frontier_query_None: "frontier_query s w = None \<longleftrightarrow> site_pages s w = []"
  by (auto simp: frontier_query_cases unchecked_pages_def filter_empty_conv split: if_splits)

lemma next_page_meets_spec:
  assumes "page_keys w" and "next_page_to_check env s w = (Inr (Some p), w')"
  shows "frontier_choice s w (e_now env (tick w)) (e_random env (Suc (tick w)) \<le> 1 / 2) p"
proof -
  let ?now = "e_now env (tick w)"
  let ?due = "first (filter (\<lambda>cp. watermark cp < ?now) (all_scheduled_pages s w)) (\<lambda>_. True) None"
  show ?thesis
  proof (cases ?due)
    case (Some cp)
    then have d: "oldest checked_at (due_pages s w ?now) (snd cp)"
      by (rule first_due_oldest [OF assms(1)])
    moreover from this have "due_pages s w ?now \<noteq> {}" by (auto simp: oldest_def)
    ultimately show ?thesis
      using assms(2) Some by (simp add: next_page_eval Let_def frontier_choice_def)
  next
    case None
    then have "due_pages s w ?now = {}" by (simp only: first_due_None [OF assms(1)])
    with assms(2) None last_error_oldest [of s w p] frontier_query_oldest [of s w p] show ?thesis
      by (auto simp: next_page_eval Let_def frontier_choice_def error_pages_empty split: if_splits)
  qed
qed

lemma due_pages_subset: "due_pages s w now \<subseteq> set (site_pages s w)"
  by (auto simp: due_pages_def)

lemma next_page_None_iff:
  assumes "page_keys w"
  shows "fst (next_page_to_check env s w) = Inr None \<longleftrightarrow> site_pages s w = []"
  using first_due_None [OF assms, of "e_now env (tick w)" s] frontier_query_None [of s w]
    due_pages_subset [of s w "e_now env (tick w)"] error_pages_empty [of s w] last_error_None [of s w]
  by (auto simp: next_page_eval Let_def error_pages_def split: option.splits)

lemma next_page_in_site:
  assumes "page_keys w" and "next_page_to_check env s w = (Inr (Some p), w')"
  shows "p \<in> set (site_pages s w)"
  using next_page_meets_spec [OF assms] due_pages_subset [of s w "e_now env (tick w)"]
  by (auto simp: frontier_choice_def oldest_def error_pages_def unchecked_pages_def split: if_splits)

end
