(* ===== verification/Addresses.thy ===== *)
theory Addresses
  imports Natural_Keys
begin

text \<open>
  Addresses of pages: how \<open>urllib.parse\<close> takes apart and puts together the URLs of ordinary
  form, that the address a page prints leads back to the row of the page, and which links
  of a page are followed.
\<close>

section \<open>Ordinary paths, queries and hosts\<close>

definition clean_path :: "string \<Rightarrow> bool" where
  "clean_path p \<longleftrightarrow> p \<noteq> [] \<and> hd p = CHR ''/'' \<and> (tl p = [] \<or> hd (tl p) \<noteq> CHR ''/'') \<and>
     (\<forall>c \<in> set p. c \<noteq> CHR ''?'' \<and> c \<noteq> CHR ''#'' \<and> c \<noteq> CHR '';'' \<and> \<not> unsafe_byte c) \<and>
     (\<forall>seg \<in> set (split_on (CHR ''/'') p). seg \<noteq> ''.'' \<and> seg \<noteq> ''..'')"

definition clean_query :: "string \<Rightarrow> bool" where
  "clean_query q \<longleftrightarrow> (\<forall>c \<in> set q. c \<noteq> CHR ''#'' \<and> \<not> unsafe_byte c)"

definition clean_scheme :: "string \<Rightarrow> bool" where
  "clean_scheme s \<longleftrightarrow> s \<noteq> [] \<and> lower s = s \<and> is_ascii_alpha (hd s) \<and> list_all scheme_char s"

definition clean_netloc :: "string \<Rightarrow> bool" where
  "clean_netloc n \<longleftrightarrow> n \<noteq> [] \<and> (\<forall>c \<in> set n. \<not> netloc_end c \<and> c \<noteq> CHR ''['' \<and> c \<noteq> CHR '']'' \<and> \<not> unsafe_byte c)"

definition with_query :: "string \<Rightarrow> string \<Rightarrow> string" where
  "with_query p q = (if q = [] then p else p @ ''?'' @ q)"

definition absolute_url :: "string \<Rightarrow> string \<Rightarrow> string \<Rightarrow> string" where
  "absolute_url sch net rest = sch @ ''://'' @ net @ rest"

definition plain_parts :: "string \<Rightarrow> string \<Rightarrow> string \<Rightarrow> string \<Rightarrow> url_parts" where
  "plain_parts sch net p q = \<lparr>scheme = sch, netloc = net, path = p, params = [], query = q, fragment = []\<rparr>"

section \<open>Parsing\<close>

lemma filter_clean: "(\<forall>c \<in> set s. \<not> P c) \<Longrightarrow> filter (\<lambda>c. \<not> P c) s = s"
  by (simp add: filter_id_conv)

lemma clean_path_cases:
  assumes "clean_path p"
  obtains p' where "p = CHR ''/'' # p'" "p' = [] \<or> hd p' \<noteq> CHR ''/''"
  using assms by (cases p) (simp_all add: clean_path_def)

lemma clean_path_chars:
  "clean_path p \<Longrightarrow> c \<in> set p \<Longrightarrow>
     c \<noteq> CHR ''?'' \<and> c \<noteq> CHR ''#'' \<and> c \<noteq> CHR '';'' \<and> \<not> unsafe_byte c"
  by (simp add: clean_path_def)

lemma clean_path_segments:
  "clean_path p \<Longrightarrow> seg \<in> set (split_on (CHR ''/'') p) \<Longrightarrow> seg \<noteq> ''.'' \<and> seg \<noteq> ''..''"
  by (simp add: clean_path_def)

lemma clean_path_not_Nil: "clean_path p \<Longrightarrow> p \<noteq> []"
  by (simp add: clean_path_def)

lemma take_2_Cons: "take 2 (c # cs) = c # take (Suc 0) cs"
  by (simp add: numeral_2_eq_2)

lemma take_1_slash: "take (Suc 0) cs = ''/'' \<longleftrightarrow> cs \<noteq> [] \<and> hd cs = CHR ''/''"
  by (cases cs) simp_all

lemma clean_path_starts:
  assumes "clean_path p"
  shows "take (Suc 0) p = ''/''" and "take 2 p \<noteq> ''//''"
proof -
  obtain p' where "p = CHR ''/'' # p'" "p' = [] \<or> hd p' \<noteq> CHR ''/''"
    using assms by (rule clean_path_cases)
  then show "take (Suc 0) p = ''/''" and "take 2 p \<noteq> ''//''"
    by (simp_all add: take_2_Cons take_1_slash)
qed

lemma not_unsafe [simp]: "\<not> unsafe_byte (CHR ''?'')" "\<not> unsafe_byte (CHR ''/'')" "\<not> unsafe_byte (CHR '':'')"
  by code_simp+

lemma clean_rest:
  assumes "clean_path p" "clean_query q"
  shows "\<forall>c \<in> set (with_query p q). c \<noteq> CHR ''#'' \<and> \<not> unsafe_byte c"
proof
  fix c assume "c \<in> set (with_query p q)"
  then consider "c \<in> set p" | "c \<in> set q" | "c = CHR ''?''"
    by (auto simp: with_query_def split: if_splits)
  then show "c \<noteq> CHR ''#'' \<and> \<not> unsafe_byte c"
    using clean_path_chars [OF assms(1)] assms(2) by cases (simp_all add: clean_query_def)
qed

lemma cut_none: "c \<notin> set s \<Longrightarrow> cut c s = (s, [])"
  by (simp add: cut_def)

lemma takeWhile_neq: "c \<notin> set p \<Longrightarrow> takeWhile (\<lambda>x. x \<noteq> c) (p @ c # q) = p"
  by (induction p) auto

lemma dropWhile_neq: "c \<notin> set p \<Longrightarrow> dropWhile (\<lambda>x. x \<noteq> c) (p @ c # q) = c # q"
  by (induction p) auto

lemma cut_query: "CHR ''?'' \<notin> set p \<Longrightarrow> cut (CHR ''?'') (with_query p q) = (p, q)"
  by (simp add: with_query_def cut_none) (simp add: cut_def split_first_def takeWhile_neq dropWhile_neq)

lemma with_query_Cons:
  assumes "clean_path p"
  obtains u where "with_query p q = CHR ''/'' # u" "u = [] \<or> hd u \<noteq> CHR ''/''"
proof -
  obtain p' where p': "p = CHR ''/'' # p'" "p' = [] \<or> hd p' \<noteq> CHR ''/''"
    using assms by (rule clean_path_cases)
  then have "with_query p q = CHR ''/'' # with_query p' q" by (simp add: with_query_def)
  moreover have "with_query p' q = [] \<or> hd (with_query p' q) \<noteq> CHR ''/''"
    using p'(2) by (cases p') (simp_all add: with_query_def)
  ultimately show ?thesis by (rule that)
qed

lemma cuts_clean:
  assumes "clean_path p" "clean_query q"
  shows "cut (CHR ''#'') (with_query p q) = (with_query p q, [])"
    and "cut (CHR ''?'') (with_query p q) = (p, q)"
  using clean_rest [OF assms] clean_path_chars [OF assms(1)] by (blast intro: cut_none cut_query)+

lemma netloc_ok_Nil: "netloc_ok []"
  by (simp add: netloc_ok_def)

text \<open>A path with a query and no host; the scheme is the default one.\<close>

definition default_scheme :: "string \<Rightarrow> bool" where
  "default_scheme d \<longleftrightarrow> (\<forall>c \<in> set d. \<not> c0_or_space c \<and> \<not> unsafe_byte c)"

lemma default_scheme_strip:
  "default_scheme d \<Longrightarrow> filter (\<lambda>c. \<not> unsafe_byte c) (strip_by c0_or_space d) = d"
proof -
  assume d: "default_scheme d"
  have "dropWhile c0_or_space t = t" if "set t \<subseteq> set d" for t
    using that d by (cases t) (auto simp: default_scheme_def)
  then have "dropWhile c0_or_space d = d" "dropWhile c0_or_space (rev d) = rev d"
    by simp_all
  with d show ?thesis by (simp add: strip_by_def default_scheme_def filter_clean)
qed

lemma urlsplit_path:
  assumes "clean_path p" "clean_query q" "default_scheme d"
  shows "urlsplit (with_query p q) d = Inr (plain_parts d [] p q)"
proof -
  let ?u = "with_query p q"
  obtain u' where u': "?u = CHR ''/'' # u'" "u' = [] \<or> hd u' \<noteq> CHR ''/''"
    using assms(1) by (rule with_query_Cons)
  have "\<not> c0_or_space (CHR ''/'')" "\<not> is_ascii_alpha (CHR ''/'')" by code_simp+
  then have "lstrip_by c0_or_space ?u = ?u" and "split_scheme ?u d = (d, ?u)"
    using u'(1) by (simp_all add: lstrip_by_def split_scheme_def Let_def)
  moreover have "filter (\<lambda>c. \<not> unsafe_byte c) ?u = ?u"
    using clean_rest [OF assms(1,2)] by (intro filter_clean) blast
  moreover have "split_netloc ?u = ([], ?u)"
    using u' by (auto simp: split_netloc_def take_2_Cons take_1_slash)
  ultimately show ?thesis
    by (simp add: urlsplit_def Let_def netloc_ok_Nil plain_parts_def cuts_clean [OF assms(1,2)]
        default_scheme_strip [OF assms(3)])
qed

lemma splitparams_clean: "CHR '';'' \<notin> set p \<Longrightarrow> splitparams p = (p, [])"
proof -
  assume "CHR '';'' \<notin> set p"
  moreover have "set (last_segment p) \<subseteq> set p"
    using set_takeWhileD by (fastforce simp: last_segment_def)
  ultimately show ?thesis by (auto simp: splitparams_def Let_def)
qed

lemma clean_path_no_params: "clean_path p \<Longrightarrow> splitparams p = (p, [])"
  by (rule splitparams_clean) (blast dest: clean_path_chars)

lemma urlparse_path_default:
  assumes "clean_path p" "clean_query q" "default_scheme d"
  shows "urlparse (with_query p q) d = Inr (plain_parts d [] p q)"
  using clean_path_no_params [OF assms(1)]
  by (simp add: urlparse_def urlsplit_path [OF assms] plain_parts_def)

lemma urlparse_path:
  "clean_path p \<Longrightarrow> clean_query q \<Longrightarrow> urlparse (with_query p q) [] = Inr (plain_parts [] [] p q)"
  by (rule urlparse_path_default) (simp_all add: default_scheme_def)

text \<open>An absolute URL.\<close>

lemma clean_scheme_before:
  assumes "clean_scheme s"
  shows "CHR '':'' \<notin> set s" and "lstrip_by c0_or_space (s @ t) = s @ t"
    and "\<forall>c \<in> set s. \<not> unsafe_byte c" and "default_scheme s"
proof -
  have "\<not> scheme_char (CHR '':'')" by code_simp
  with assms show "CHR '':'' \<notin> set s" by (auto simp: clean_scheme_def list_all_iff)
  have "\<not> c0_or_space c" if "is_ascii_alpha c" for c
    using that by (auto simp: c0_or_space_def is_ascii_alpha_def is_ascii_upper_def is_ascii_lower_def Let_def)
  with assms show "lstrip_by c0_or_space (s @ t) = s @ t"
    by (cases s) (auto simp: clean_scheme_def lstrip_by_def)
  have "\<not> unsafe_byte c" if "scheme_char c" for c
  proof
    assume "unsafe_byte c"
    then have "code c \<in> {9, 10, 13}" by (simp add: unsafe_byte_def)
    moreover have "code c \<in> {43, 45, 46}" if "c \<in> set ''+-.''"
      using that by (auto simp: code_def)
    ultimately show False
      using that by (auto simp: scheme_char_def is_ascii_alnum_def is_ascii_alpha_def
          is_ascii_upper_def is_ascii_lower_def is_dec_def Let_def)
  qed
  with assms show safe: "\<forall>c \<in> set s. \<not> unsafe_byte c" by (auto simp: clean_scheme_def list_all_iff)
  have "\<not> c0_or_space c" if "scheme_char c" for c
  proof
    assume "c0_or_space c"
    then have "code c \<le> 32" by (simp add: c0_or_space_def)
    moreover have "code c \<in> {43, 45, 46}" if "c \<in> set ''+-.''"
      using that by (auto simp: code_def)
    ultimately show False
      using that by (auto simp: scheme_char_def is_ascii_alnum_def is_ascii_alpha_def
          is_ascii_upper_def is_ascii_lower_def is_dec_def Let_def)
  qed
  with assms safe show "default_scheme s"
    by (auto simp: default_scheme_def clean_scheme_def list_all_iff)
qed

lemma takeWhile_until: "(\<forall>x \<in> set n. P x) \<Longrightarrow> (r = [] \<or> \<not> P (hd r)) \<Longrightarrow> takeWhile P (n @ r) = n"
  by (induction n) (auto simp: takeWhile_eq_Nil_iff)

lemma dropWhile_until: "(\<forall>x \<in> set n. P x) \<Longrightarrow> (r = [] \<or> \<not> P (hd r)) \<Longrightarrow> dropWhile P (n @ r) = r"
  by (induction n) (auto simp: dropWhile_eq_self_iff)

lemma urlsplit_absolute:
  assumes "clean_scheme sch" "clean_netloc net" "clean_path p" "clean_query q"
  shows "urlsplit (absolute_url sch net (with_query p q)) dflt = Inr (plain_parts sch net p q)"
proof -
  let ?r = "with_query p q"
  let ?u = "absolute_url sch net ?r"
  obtain u' where "?r = CHR ''/'' # u'" using assms(3) by (rule with_query_Cons)
  then have hd_r: "?r \<noteq> []" "hd ?r = CHR ''/''" by simp_all
  note sch = clean_scheme_before [OF assms(1)]
  have "\<forall>c \<in> set ?u. \<not> unsafe_byte c"
    using sch(3) assms(2) clean_rest [OF assms(3,4)]
    by (simp add: absolute_url_def clean_netloc_def ball_Un)
  then have "filter (\<lambda>c. \<not> unsafe_byte c) ?u = ?u" by (rule filter_clean)
  moreover have "lstrip_by c0_or_space ?u = ?u"
    using sch(2) by (simp add: absolute_url_def)
  moreover have "split_scheme ?u d = (sch, ''//'' @ net @ ?r)" for d
    using assms(1) sch(1)
    by (simp add: split_scheme_def absolute_url_def before_char_def after_char_def takeWhile_neq
        dropWhile_neq clean_scheme_def)
  moreover have "split_netloc (''//'' @ net @ ?r) = (net, ?r)"
    using assms(2) hd_r
      takeWhile_until [of net "\<lambda>c. \<not> netloc_end c" ?r] dropWhile_until [of net "\<lambda>c. \<not> netloc_end c" ?r]
    by (simp add: split_netloc_def clean_netloc_def netloc_end_def take_2_Cons)
  moreover have "netloc_ok net"
    using assms(2) by (auto simp: netloc_ok_def clean_netloc_def)
  ultimately show ?thesis
    by (simp add: urlsplit_def Let_def plain_parts_def cuts_clean [OF assms(3,4)])
qed

lemma urlparse_absolute:
  assumes "clean_scheme sch" "clean_netloc net" "clean_path p" "clean_query q"
  shows "urlparse (absolute_url sch net (with_query p q)) dflt = Inr (plain_parts sch net p q)"
  using clean_path_no_params [OF assms(3)]
  by (simp add: urlparse_def urlsplit_absolute [OF assms] plain_parts_def)

section \<open>Putting together\<close>

lemma urlunparse_path:
  "clean_path p \<Longrightarrow> urlunparse (plain_parts [] [] p q) = with_query p q"
  using clean_path_starts(2) [of p]
  by (simp add: urlunparse_def urlunsplit_def plain_parts_def with_query_def Let_def)

lemma urlunparse_absolute:
  assumes "sch \<noteq> []" "net \<noteq> []" "clean_path p"
  shows "urlunparse (plain_parts sch net p q) = absolute_url sch net (with_query p q)"
proof -
  obtain p' where "p = CHR ''/'' # p'" using assms(3) by (rule clean_path_cases)
  with assms show ?thesis
    by (simp add: urlunparse_def urlunsplit_def plain_parts_def with_query_def absolute_url_def Let_def)
qed

lemma resolve_no_dots:
  "\<forall>s \<in> set ss. s \<noteq> ''.'' \<and> s \<noteq> ''..'' \<Longrightarrow> resolve_segments acc ss = acc @ ss"
  by (induction ss arbitrary: acc) auto

lemma resolve_path_clean: "clean_path p \<Longrightarrow> resolve_path base p = p"
proof -
  assume p: "clean_path p"
  then have dots: "\<forall>s \<in> set (split_on (CHR ''/'') p). s \<noteq> ''.'' \<and> s \<noteq> ''..''"
    using clean_path_segments by blast
  moreover from this have "last (split_on (CHR ''/'') p) \<noteq> ''.'' \<and> last (split_on (CHR ''/'') p) \<noteq> ''..''"
    using last_in_set [OF split_on_nonempty, of "CHR ''/''" p] by blast
  ultimately show ?thesis
    using clean_path_starts(1) [OF p] clean_path_not_Nil [OF p]
    by (simp add: resolve_path_def Let_def resolve_no_dots join_split_on)
qed

lemma Nil_in_uses: "[] \<in> set uses_relative" "[] \<in> set uses_netloc"
  by (simp_all add: uses_relative_def uses_netloc_def)

text \<open>A seed path: empty, or an ordinary path.\<close>

definition clean_base :: "string \<Rightarrow> bool" where
  "clean_base b \<longleftrightarrow> b = [] \<or> clean_path b"

lemma urlparse_clean_path: "clean_path p \<Longrightarrow> urlparse p [] = Inr (plain_parts [] [] p [])"
  using urlparse_path [of p "[]"] by (simp add: with_query_def clean_query_def)

lemma urljoin_clean:
  assumes "clean_base b" "clean_path p"
  shows "urljoin b p = Inr p"
proof (cases "b = []")
  case True
  then show ?thesis by (simp add: urljoin_def)
next
  case False
  with assms have b: "clean_path b" by (simp add: clean_base_def)
  from assms(2) have "p \<noteq> []" by (rule clean_path_not_Nil)
  moreover have "urlunparse (plain_parts [] [] p []) = p"
    using urlunparse_path [OF assms(2), of "[]"] by (simp add: with_query_def)
  ultimately show ?thesis
    using False Nil_in_uses resolve_path_clean [OF assms(2), of b]
    by (simp add: urljoin_def urlparse_clean_path [OF b] urlparse_clean_path [OF assms(2)]
        plain_parts_def)
qed

section \<open>Pages with an ordinary address\<close>

definition clean_page :: "page \<Rightarrow> bool" where
  "clean_page p \<longleftrightarrow> clean_path (subpath p) \<and> clean_query (page_params p)"

definition clean_site :: "site \<Rightarrow> bool" where
  "clean_site s \<longleftrightarrow> clean_scheme (site_scheme s) \<and> clean_netloc (site_netloc s) \<and> clean_base (site_path s)"

lemma relative_url_clean:
  "clean_base (site_path s) \<Longrightarrow> clean_page p \<Longrightarrow>
     get_relative_url s p = Inr (with_query (subpath p) (page_params p))"
  using urlunparse_path [of "subpath p" "page_params p"]
  by (simp add: get_relative_url_def urljoin_clean clean_page_def plain_parts_def)

lemma full_url_clean:
  "clean_site s \<Longrightarrow> clean_page p \<Longrightarrow>
     get_full_url s p = Inr (absolute_url (site_scheme s) (site_netloc s)
       (with_query (subpath p) (page_params p)))"
  using urlunparse_absolute [of "site_scheme s" "site_netloc s" "subpath p" "page_params p"]
  by (auto simp: get_full_url_def urljoin_clean clean_page_def clean_site_def plain_parts_def
      clean_scheme_def clean_netloc_def)

lemma add_page_parsed:
  "urlparse url [] = Inr info \<Longrightarrow> add_page env s url = load_or_create env s (path info, query info)"
  by (rule ext) (simp add: add_page_def andThen_def lift_def)

lemma add_page_of_page:
  assumes "db_ok w" "p \<in> set (site_pages s w)" "urlparse url [] = Inr (plain_parts sch net (subpath p) (page_params p))"
  shows "add_page env s url w = (Inr (p, False), w)"
  using page_store.found [OF assms(1,2), of env] add_page_parsed [OF assms(3)]
  by (simp add: plain_parts_def page_addr_def)

section \<open>Local addresses\<close>

lemma is_local_absolute:
  assumes "clean_scheme sch" "clean_netloc net" "clean_path p" "clean_query q"
  shows "is_local s (absolute_url sch net (with_query p q)) =
     Inr (sch = site_scheme s \<and> net = site_netloc s)"
  using assms(1,2)
  by (simp add: is_local_def urlparse_absolute [OF assms] plain_parts_def clean_scheme_def clean_netloc_def)

lemma is_local_relative:
  assumes "clean_path p" "clean_query q"
  shows "is_local s (with_query p q) = Inr True"
  by (simp add: is_local_def urlparse_path [OF assms] plain_parts_def)

section \<open>Absolute links on a page\<close>

lemma with_query_not_Nil: "clean_path p \<Longrightarrow> with_query p q \<noteq> []"
  by (simp add: with_query_def clean_path_not_Nil)

lemma absolute_not_Nil: "absolute_url sch net r \<noteq> []"
  by (simp add: absolute_url_def)

lemma urljoin_absolute:
  assumes "clean_scheme sch" "clean_netloc net" "clean_path p" "clean_query q"
    and "base \<noteq> []" "urlparse base [] = Inr b"
  shows "urljoin base (absolute_url sch net (with_query p q)) = Inr (absolute_url sch net (with_query p q))"
  using assms(1,2) absolute_not_Nil [of sch net "with_query p q"] assms(5)
    urlunparse_absolute [of sch net p q]
  by (simp add: urljoin_def assms(6) urlparse_absolute [OF assms(1-4)] plain_parts_def
      clean_scheme_def clean_netloc_def Let_def assms(3))
    (auto simp: plain_parts_def uses_relative_def uses_netloc_def)

lemma full_url_parsed:
  assumes "clean_site s" "clean_page p"
  defines "full \<equiv> absolute_url (site_scheme s) (site_netloc s) (with_query (subpath p) (page_params p))"
  shows "urlparse full [] = Inr (plain_parts (site_scheme s) (site_netloc s) (subpath p) (page_params p))"
    and "full \<noteq> []"
  using assms by (simp_all add: urlparse_absolute clean_site_def clean_page_def absolute_not_Nil)

lemma rel_url_parsed:
  assumes "clean_page p"
  shows "urlparse (with_query (subpath p) (page_params p)) [] =
      Inr (plain_parts [] [] (subpath p) (page_params p))"
    and "with_query (subpath p) (page_params p) \<noteq> []"
  using assms by (simp_all add: urlparse_path clean_page_def with_query_not_Nil)

lemma valid_link_absolute:
  assumes "clean_site s" "clean_page p"
    and "clean_scheme sch" "clean_netloc net" "clean_path pth" "clean_query q"
  defines "l \<equiv> absolute_url sch net (with_query pth q)"
  shows "valid_link s p can_fetch l =
    Inr (if sch = site_scheme s \<and> net = site_netloc s \<and> Inr l \<noteq> get_full_url s p \<and> can_fetch l
         then Some l else None)"
proof -
  note clean = assms(3-6)
  have "urljoin (with_query (subpath p) (page_params p)) l = Inr l"
    using urljoin_absolute [OF clean rel_url_parsed(2,1)] assms(2) by (simp add: l_def)
  moreover have "urljoin (absolute_url (site_scheme s) (site_netloc s)
      (with_query (subpath p) (page_params p))) l = Inr l"
    using urljoin_absolute [OF clean full_url_parsed(2,1)] assms(1,2) by (simp add: l_def)
  ultimately show ?thesis
    using is_local_absolute [OF clean, of s] assms(1,2)
    by (simp add: valid_link_def full_url_clean relative_url_clean clean_site_def flip: l_def)
qed

text \<open>A link that starts at the root of the site.\<close>

lemma uses_all_or_none: "clean_scheme sch \<Longrightarrow> sch \<in> set uses_relative \<Longrightarrow> sch \<in> set uses_netloc"
  by (auto simp: uses_relative_def uses_netloc_def)

lemma urljoin_rooted:
  assumes "clean_path pth" "clean_query q"
    and "base \<noteq> []" "urlparse base [] = Inr (plain_parts sch net bp bq)"
    and "sch \<in> set uses_relative" "sch \<in> set uses_netloc" "default_scheme sch"
  shows "urljoin base (with_query pth q) = Inr (urlunparse (plain_parts sch net pth q))"
  using assms(3,5,6) with_query_not_Nil [OF assms(1)] clean_path_not_Nil [OF assms(1)]
    resolve_path_clean [OF assms(1), of bp]
  by (simp add: urljoin_def assms(4) urlparse_path_default [OF assms(1,2,7)] plain_parts_def)

lemma valid_link_rooted:
  assumes "clean_site s" "clean_page p" "site_scheme s \<in> set uses_relative"
    and "clean_path pth" "clean_query q"
  defines "r \<equiv> with_query pth q"
  shows "valid_link s p can_fetch r =
    Inr (if Inr (absolute_url (site_scheme s) (site_netloc s) r) \<noteq> get_full_url s p \<and> can_fetch r
         then Some r else None)"
proof -
  have site: "clean_scheme (site_scheme s)" "clean_netloc (site_netloc s)"
    using assms(1) by (simp_all add: clean_site_def)
  have d: "default_scheme []" by (simp add: default_scheme_def)
  have "urljoin (with_query (subpath p) (page_params p)) r = Inr r"
    using urljoin_rooted [OF assms(4,5) rel_url_parsed(2,1) Nil_in_uses d] assms(2)
      urlunparse_path [OF assms(4)]
    by (simp add: r_def)
  moreover have "urljoin (absolute_url (site_scheme s) (site_netloc s)
      (with_query (subpath p) (page_params p))) r = Inr (absolute_url (site_scheme s) (site_netloc s) r)"
    using urljoin_rooted [OF assms(4,5) full_url_parsed(2,1) assms(3) uses_all_or_none
        clean_scheme_before(4)] site assms(1,2,3) urlunparse_absolute [of "site_scheme s" "site_netloc s" pth q]
    by (simp add: r_def assms(4) clean_scheme_def clean_netloc_def)
  ultimately show ?thesis
    using is_local_absolute [OF site assms(4,5), of s] assms(1,2)
    by (simp add: valid_link_def full_url_clean relative_url_clean clean_site_def flip: r_def)
qed

end
