(* ===== verification/Links.thy ===== *)
theory Links
  imports Core Addresses
begin

text \<open>
  The update of the links of a page (\<open>core._update_links\<close>): the invariant of the database
  is kept, and when the update returns, the outgoing links of the page are exactly the
  linkable pages that the followed links lead to, every one of them has a row, and nothing
  else has changed.
\<close>

section \<open>The invariant of the database\<close>

text \<open>The database is well formed and \<open>k\<close> is a key that was given out.\<close>

definition live :: "nat \<Rightarrow> world \<Rightarrow> bool" where
  "live k w \<longleftrightarrow> db_ok w \<and> k < next_page w"

lemma live_tick [simp]: "live k (w\<lparr>tick := n\<rparr>) = live k w"
  by (simp add: live_def)

lemma liveI: "keeps db_ok m \<Longrightarrow> (\<And>w. db_ok w \<Longrightarrow> next_page w \<le> next_page (snd (m w))) \<Longrightarrow> keeps (live k) m"
  by (fastforce simp: keeps_def live_def)

lemma live_ask [keeps_intros]: "keeps (live k) (ask f)"
  by (simp add: keeps_def ask_def)

lemma link_insert_frame: "next_page (snd (link_insert f w)) = next_page w"
  "page_rows (snd (link_insert f w)) = page_rows w" "site_rows (snd (link_insert f w)) = site_rows w"
  "value_rows (snd (link_insert f w)) = value_rows w" "sched_rows (snd (link_insert f w)) = sched_rows w"
  by (auto simp: link_insert_def link_save_def link_put_def Let_def)

lemma link_goc_frame: "next_page (snd (link_get_or_create k w)) = next_page w"
  "page_rows (snd (link_get_or_create k w)) = page_rows w"
  "site_rows (snd (link_get_or_create k w)) = site_rows w"
  "value_rows (snd (link_get_or_create k w)) = value_rows w"
  "sched_rows (snd (link_get_or_create k w)) = sched_rows w"
  using link_insert_frame
  by (auto simp: link_get_or_create_def get_or_create_def andThen_def ret_def
      split: list.splits prod.splits sum.splits) (metis snd_conv)+

lemma live_link_goc [keeps_intros]: "keeps (live k) (link_get_or_create ft)"
  by (rule liveI [OF link_store.keeps_inv]) (simp add: link_goc_frame)

lemma live_load_or_create [keeps_intros]: "keeps (live k) (load_or_create env s a)"
proof (rule liveI [OF load_or_create_keeps])
  fix w assume "db_ok w"
  with load_or_create_frame(6) [of w env s a] show "next_page w \<le> next_page (snd (load_or_create env s a w))"
    by (metis prod.exhaust_sel)
qed

lemma live_add_page [keeps_intros]: "keeps (live k) (add_page env s url)"
  unfolding add_page_def by (intro keeps_intros)

lemma live_delete_links [keeps_intros]: "keeps (live k) (writes (delete_links P))"
  by (rule keeps_writes) (auto simp: live_def delete_links_ok, simp add: delete_links_def)

lemma live_follow_link [keeps_intros]: "keeps (live k) (follow_link env s p cf l a)"
  unfolding follow_link_def
  by (intro keeps_intros) (auto intro!: keeps_intros split: option.split prod.split)

lemma live_robots [keeps_intros]: "keeps (live k) (get_robots_txt env s)"
  unfolding get_robots_txt_def Let_def by (intro keeps_intros)

lemma live_valid_links [keeps_intros]: "keeps (live k) (get_all_valid_links env s body)"
  unfolding get_all_valid_links_def Let_def by (intro keeps_intros)

lemma live_update_links [keeps_intros]: "keeps (live k) (update_links env s p body)"
  unfolding update_links_def Let_def
  by (intro keeps_intros) (auto intro!: keeps_intros split: prod.split)

section \<open>What the update does\<close>

text \<open>The address (path and query) of the page a candidate link leads to, if it is followed.\<close>

definition link_address :: "site \<Rightarrow> page \<Rightarrow> (string \<Rightarrow> bool) \<Rightarrow> string \<Rightarrow> (string \<times> string) option" where
  "link_address s p can_fetch lnk =
     (case valid_link s p can_fetch lnk of
        Inr (Some url) \<Rightarrow> (case urlparse url [] of Inr info \<Rightarrow> Some (path info, query info) | Inl _ \<Rightarrow> None)
      | _ \<Rightarrow> None)"

definition targets :: "page \<Rightarrow> world \<Rightarrow> nat set" where
  "targets p w = to_page ` set (outgoing_links p w)"

definition other_links :: "page \<Rightarrow> world \<Rightarrow> link set" where
  "other_links p w = {l \<in> set (link_rows w). from_page l \<noteq> id_page p}"

text \<open>The pages that a set of addresses leads to, as far as they may be linked.\<close>

definition linkable_at :: "site \<Rightarrow> (string \<times> string) set \<Rightarrow> world \<Rightarrow> nat set" where
  "linkable_at s A w = id_page ` {q \<in> set (site_pages s w). is_linkable q \<and> page_addr q \<in> A}"

definition addresses :: "site \<Rightarrow> page \<Rightarrow> (string \<Rightarrow> bool) \<Rightarrow> string list \<Rightarrow> (string \<times> string) set" where
  "addresses s p can_fetch ls = {a. \<exists>l \<in> set ls. link_address s p can_fetch l = Some a}"

text \<open>The loop invariant, relative to the state \<open>w0\<close> before the loop.\<close>

definition linking :: "site \<Rightarrow> page \<Rightarrow> (string \<Rightarrow> bool) \<Rightarrow> world \<Rightarrow> string list \<Rightarrow> nat list \<Rightarrow> world \<Rightarrow> bool" where
  "linking s p cf w0 ds acc w \<longleftrightarrow>
     db_ok w \<and> set (page_rows w0) \<subseteq> set (page_rows w) \<and> site_rows w = site_rows w0 \<and>
     value_rows w = value_rows w0 \<and> sched_rows w = sched_rows w0 \<and>
     targets p w = targets p w0 \<union> set acc \<and> other_links p w = other_links p w0 \<and>
     addresses s p cf ds \<subseteq> page_addr ` set (site_pages s w) \<and>
     page_addr ` set (site_pages s w) = page_addr ` set (site_pages s w0) \<union> addresses s p cf ds \<and>
     set acc = linkable_at s (addresses s p cf ds) w \<and> distinct acc"

lemma addresses_snoc:
  "addresses s p cf (ds @ [l]) =
     addresses s p cf ds \<union> (case link_address s p cf l of Some a \<Rightarrow> {a} | None \<Rightarrow> {})"
  by (auto simp: addresses_def split: option.splits)

lemma unique_addr:
  assumes "db_ok w" "p \<in> set (site_pages s w)" "q \<in> set (site_pages s w)" "page_addr p = page_addr q"
  shows "p = q"
proof -
  have "page_nat_key p = page_nat_key q"
    using assms(2-4) by (simp add: page_nat_key_def page_addr_def site_pages_def)
  with assms(1-3) db_ok_unique(2) [OF assms(1)] show ?thesis
    by (auto simp: unique_by_def site_pages_def dest: distinct_map_eqD)
qed

text \<open>After a page was found or created, the pages at an address set that covers it.\<close>

lemma linkable_at_insert:
  assumes "db_ok w'" "r \<in> set (site_pages s w')" "set (site_pages s w') = insert r (set (site_pages s w))"
    and "A \<subseteq> page_addr ` set (site_pages s w)"
  shows "linkable_at s (insert (page_addr r) A) w' =
    linkable_at s A w \<union> (if is_linkable r then {id_page r} else {})"
proof -
  have "q = r" if "q \<in> set (site_pages s w')" "page_addr q = page_addr r" for q
    using unique_addr [OF assms(1) that(1) assms(2) that(2)] .
  moreover have "r \<in> set (site_pages s w)" if "page_addr r \<in> A"
  proof -
    from that assms(4) obtain q where "q \<in> set (site_pages s w)" "page_addr q = page_addr r" by force
    with unique_addr [OF assms(1), of q s r] assms(2,3) show ?thesis by auto
  qed
  ultimately show ?thesis
    using assms(3) by (auto simp: linkable_at_def image_iff)
qed

lemma targets_link:
  assumes "set (link_rows w') = insert l (set (link_rows w))" "from_page l = id_page p"
  shows "targets p w' = insert (to_page l) (targets p w)" and "other_links p w' = other_links p w"
  using assms by (auto simp: targets_def outgoing_links_def other_links_def)

lemma follow_link_cases:
  assumes "follow_link env s p cf l acc w = (Inr acc', w')"
  obtains (skipped) "link_address s p cf l = None" "acc' = acc" "w' = w"
  | (followed) a q b u where "link_address s p cf l = Some a" "load_or_create env s a w = (Inr (q, b), u)"
      "if is_linkable q then (\<exists>x. link_get_or_create (id_page p, id_page q) u = (Inr x, w')) \<and>
           acc' = set_add (id_page q) acc
       else acc' = acc \<and> w' = u"
proof (cases "valid_link s p cf l")
  case (Inl e)
  with assms show ?thesis by (simp add: follow_link_def andThen_def lift_def)
next
  case (Inr out)
  show ?thesis
  proof (cases out)
    case None
    with Inr assms show ?thesis
      by (auto simp: follow_link_def andThen_def lift_def ret_def link_address_def intro: skipped)
  next
    case (Some url)
    note v = Inr [unfolded Some]
    from assms v obtain qb u where u: "add_page env s url w = (Inr qb, u)"
      by (auto simp: follow_link_def andThen_def lift_def split: prod.splits sum.splits)
    then obtain info where info: "urlparse url [] = Inr info"
      by (auto simp: add_page_def andThen_def lift_def split: sum.splits)
    obtain q b where qb: "qb = (q, b)" by (cases qb)
    have "link_address s p cf l = Some (path info, query info)"
      using v info by (simp add: link_address_def)
    moreover have "load_or_create env s (path info, query info) w = (Inr (q, b), u)"
      using u qb add_page_parsed [OF info] by simp
    moreover have "if is_linkable q then (\<exists>x. link_get_or_create (id_page p, id_page q) u = (Inr x, w')) \<and>
           acc' = set_add (id_page q) acc else acc' = acc \<and> w' = u"
      using assms v u qb
      by (auto simp: follow_link_def andThen_def lift_def ret_def split: prod.splits sum.splits if_splits)
    ultimately show ?thesis by (rule followed)
  qed
qed

lemma same_pages:
  "page_rows w' = page_rows w \<Longrightarrow> site_pages s w' = site_pages s w"
  "page_rows w' = page_rows w \<Longrightarrow> linkable_at s A w' = linkable_at s A w"
  by (simp_all add: site_pages_def linkable_at_def)

lemma same_links:
  "link_rows w' = link_rows w \<Longrightarrow> targets p w' = targets p w"
  "link_rows w' = link_rows w \<Longrightarrow> other_links p w' = other_links p w"
  by (simp_all add: targets_def outgoing_links_def other_links_def)

text \<open>Finding or creating the page of an address extends the invariant but for the link.\<close>

lemma linking_found:
  assumes "linking s p cf w0 ds acc w" "load_or_create env s a w = (Inr (q, b), u)"
  shows "db_ok u" "set (page_rows w0) \<subseteq> set (page_rows u)" "site_rows u = site_rows w0"
    "value_rows u = value_rows w0" "sched_rows u = sched_rows w0"
    "targets p u = targets p w0 \<union> set acc" "other_links p u = other_links p w0"
    "page_addr ` set (site_pages s u) = page_addr ` set (site_pages s w0) \<union> insert a (addresses s p cf ds)"
    "linkable_at s (insert a (addresses s p cf ds)) u = set acc \<union> (if is_linkable q then {id_page q} else {})"
proof -
  have ok: "db_ok w" using assms(1) by (simp add: linking_def)
  note frame = load_or_create_frame [OF ok assms(2)]
  note ret = page_store.returned [OF ok assms(2)]
  show u: "db_ok u" by (rule page_store.inv_after [OF ok assms(2)])
  show "set (page_rows w0) \<subseteq> set (page_rows u)" "site_rows u = site_rows w0"
    "value_rows u = value_rows w0" "sched_rows u = sched_rows w0"
    "targets p u = targets p w0 \<union> set acc" "other_links p u = other_links p w0"
    using assms(1) frame same_links [OF frame(3)] by (auto simp: linking_def)
  show "page_addr ` set (site_pages s u) = page_addr ` set (site_pages s w0) \<union> insert a (addresses s p cf ds)"
    using assms(1) page_store.keys_after [OF ok assms(2)] by (auto simp: linking_def)
  have "linkable_at s (insert (page_addr q) (addresses s p cf ds)) u =
      linkable_at s (addresses s p cf ds) w \<union> (if is_linkable q then {id_page q} else {})"
    using u ret assms(1) by (intro linkable_at_insert) (auto simp: linking_def)
  with ret(1) assms(1) show "linkable_at s (insert a (addresses s p cf ds)) u =
      set acc \<union> (if is_linkable q then {id_page q} else {})"
    by (simp add: linking_def)
qed

lemma linking_step:
  assumes inv: "linking s p cf w0 ds acc w" and "follow_link env s p cf l acc w = (Inr acc', w')"
  shows "linking s p cf w0 (ds @ [l]) acc' w'"
  using assms(2)
proof (cases rule: follow_link_cases)
  case skipped
  then have "addresses s p cf (ds @ [l]) = addresses s p cf ds" by (simp add: addresses_snoc)
  with inv skipped show ?thesis by (simp add: linking_def)
next
  case (followed a q b u)
  note f = linking_found [OF inv followed(2)]
  have addr: "addresses s p cf (ds @ [l]) = insert a (addresses s p cf ds)"
    using followed(1) by (simp add: addresses_snoc)
  have d: "distinct acc" using inv by (simp add: linking_def)
  show ?thesis
  proof (cases "is_linkable q")
    case False
    with followed(3) f d show ?thesis by (auto simp: linking_def addr)
  next
    case True
    with followed(3) obtain lk c where lk: "link_get_or_create (id_page p, id_page q) u = (Inr (lk, c), w')"
        and acc': "acc' = set_add (id_page q) acc"
      by auto
    note ret = link_store.returned [OF f(1) lk]
    have rows: "page_rows w' = page_rows u" "site_rows w' = site_rows u" "value_rows w' = value_rows u"
        "sched_rows w' = sched_rows u"
      using link_goc_frame [of "(id_page p, id_page q)" u] by (simp_all add: lk)
    have "from_page lk = id_page p" "to_page lk = id_page q"
      using ret(1) by (simp_all add: link_nat_key_def)
    with targets_link [OF ret(2), of p] have "targets p w' = insert (id_page q) (targets p u)"
        "other_links p w' = other_links p u" by simp_all
    with f d True rows same_pages [OF rows(1)] acc' link_store.inv_after [OF f(1) lk] show ?thesis
      by (auto simp: linking_def addr distinct_set_add)
  qed
qed

lemma linking_start:
  assumes "db_ok w0" "page_rows w = page_rows w0" "link_rows w = link_rows w0" "site_rows w = site_rows w0"
    "value_rows w = value_rows w0" "sched_rows w = sched_rows w0" "db_ok w"
  shows "linking s p cf w0 [] [] w"
  using assms same_links [OF assms(3), of p] same_pages [OF assms(2), of s]
  by (simp add: linking_def addresses_def linkable_at_def)

lemma linking_loop:
  assumes "for_acc (follow_link env s p cf) ls [] w = (Inr acc, w')" "linking s p cf w0 [] [] w"
  shows "linking s p cf w0 ls acc w'"
  using assms by (rule for_acc_induct) (rule linking_step)

text \<open>
  The outcome of an update, as a relation between the states: the pages grow by those that
  the followed links lead to, the links of the page become the linkable ones of these, and
  the two results are what has gone and what has come.
\<close>

definition links_updated :: "site \<Rightarrow> page \<Rightarrow> (string \<times> string) set \<Rightarrow> world \<Rightarrow> nat list \<times> nat list \<Rightarrow> world \<Rightarrow> bool" where
  "links_updated s p A w out w' \<longleftrightarrow>
     db_ok w' \<and> set (page_rows w) \<subseteq> set (page_rows w') \<and>
     page_addr ` set (site_pages s w') = page_addr ` set (site_pages s w) \<union> A \<and>
     targets p w' = linkable_at s A w' \<and> other_links p w' = other_links p w \<and>
     set (fst out) = targets p w - targets p w' \<and> set (snd out) = targets p w' - targets p w \<and>
     distinct (fst out) \<and> distinct (snd out) \<and>
     site_rows w' = site_rows w \<and> value_rows w' = value_rows w \<and> sched_rows w' = sched_rows w"

lemma delete_targets:
  "targets p (delete_links (\<lambda>l. from_page l = id_page p \<and> to_page l \<in> R) w) = targets p w - R"
  "other_links p (delete_links (\<lambda>l. from_page l = id_page p \<and> to_page l \<in> R) w) = other_links p w"
  by (auto simp: targets_def outgoing_links_def other_links_def delete_links_def)

lemma robots_reads:
  assumes "get_robots_txt env s w = (Inr cf, w')"
  shows "e_robots env (tick w) (site_url s ''robots.txt'') = Inr cf" "w' = w\<lparr>tick := Suc (tick w)\<rparr>"
  using assms by (auto simp: get_robots_txt_def andThen_def ask_def lift_def)

definition candidates :: "env \<Rightarrow> string \<Rightarrow> string list" where
  "candidates env body = all_links (e_iter env) (feed (e_tags env body) extractor_init)"

lemma update_links_outcome:
  assumes "db_ok w" "update_links env s p body w = (Inr out, w')"
  shows "\<exists>cf. e_robots env (tick w) (site_url s ''robots.txt'') = Inr cf \<and>
    links_updated s p (addresses s p cf (candidates env body)) w out w'"
proof -
  let ?before = "remdups (map to_page (outgoing_links p w))"
  from assms(2) obtain cf acc u v where
      v: "get_robots_txt env s w = (Inr cf, v)" and
      u: "for_acc (follow_link env s p cf) (candidates env body) [] v = (Inr acc, u)" and
      out: "out = (filter (\<lambda>k. k \<notin> set acc) ?before, filter (\<lambda>k. k \<notin> set ?before) acc)" and
      w': "w' = delete_links (\<lambda>l. from_page l = id_page p \<and> to_page l \<in> set (fst out)) u \<or>
           fst out = [] \<and> w' = u"
    by (auto simp: update_links_def get_all_valid_links_def candidates_def andThen_def reads_def
        writes_def ret_def Let_def split: prod.splits sum.splits if_splits)
  note cf = robots_reads [OF v]
  have "linking s p cf w [] [] v"
    using assms(1) by (intro linking_start) (simp_all add: cf(2))
  from linking_loop [OF u this] have loop: "linking s p cf w (candidates env body) acc u" .
  let ?A = "addresses s p cf (candidates env body)"
  have before: "set ?before = targets p w" by (simp add: targets_def)
  have ok_u: "db_ok u" using loop by (simp add: linking_def)
  have fst_out: "set (fst out) = targets p w - set acc" using out before by auto
  have "targets p w' = targets p u - set (fst out) \<and> other_links p w' = other_links p u \<and>
      page_rows w' = page_rows u \<and> site_rows w' = site_rows u \<and> value_rows w' = value_rows u \<and>
      sched_rows w' = sched_rows u \<and> db_ok w'"
    using w'
  proof
    assume "w' = delete_links (\<lambda>l. from_page l = id_page p \<and> to_page l \<in> set (fst out)) u"
    then show ?thesis
      by (simp add: delete_targets delete_links_ok [OF ok_u]) (simp add: delete_links_def)
  next
    assume "fst out = [] \<and> w' = u"
    then show ?thesis using ok_u by simp
  qed
  then have rows: "page_rows w' = page_rows u" "site_rows w' = site_rows u" "value_rows w' = value_rows u"
        "sched_rows w' = sched_rows u" and ok: "db_ok w'"
      and oth: "other_links p w' = other_links p w" and tgt: "targets p w' = set acc"
    using loop fst_out by (auto simp: linking_def)
  have "links_updated s p ?A w out w'"
    using loop tgt oth rows ok before fst_out out same_pages [OF rows(1)]
    by (auto simp: links_updated_def linking_def)
  with cf(1) show ?thesis by blast
qed

end
