(* ===== verification/Values.thy ===== *)
theory Values
  imports Links
begin

text \<open>
  The values of a page (\<open>Value.upsert\<close>, \<open>core._run_plugins\<close>). The table of values is read
  as a map from (page, name) to text; an upsert is an update of that map and a run of the
  plug-ins replaces the entries of its page by what the plug-ins returned.
\<close>

section \<open>The table of values as a map\<close>

definition value_map :: "world \<Rightarrow> nat \<times> string \<Rightarrow> string option" where
  "value_map w = map_of (map (\<lambda>v. (value_nat_key v, value_text v)) (value_rows w))"

lemma value_map_Some:
  assumes "db_ok w"
  shows "value_map w k = Some t \<longleftrightarrow> (\<exists>v \<in> set (value_rows w). value_nat_key v = k \<and> value_text v = t)"
proof -
  have "distinct (map fst (map (\<lambda>v. (value_nat_key v, value_text v)) (value_rows w)))"
    using db_ok_unique(4) [OF assms] by (simp add: unique_by_def comp_def)
  then show ?thesis by (auto simp: value_map_def)
qed

lemma map_eq_SomeI: "(\<And>k t. m k = Some t \<longleftrightarrow> m' k = Some t) \<Longrightarrow> m = m'"
  by (rule ext) (metis not_None_eq)

text \<open>Reading a value of a page is a lookup in the map.\<close>

lemma get_value_lookup:
  assumes "db_ok w"
  shows "get_value_of p name dflt w = (case value_map w (id_page p, name) of Some t \<Rightarrow> t | None \<Rightarrow> dflt)"
proof -
  have eq: "filter (\<lambda>v. value_name v = name) (page_values p w) =
      filter (\<lambda>v. value_nat_key v = (id_page p, name)) (value_rows w)"
    by (auto simp: page_values_def value_nat_key_def intro!: filter_cong)
  show ?thesis
  proof (cases "\<exists>v \<in> set (value_rows w). value_nat_key v = (id_page p, name)")
    case True
    then obtain v where v: "v \<in> set (value_rows w)" "value_nat_key v = (id_page p, name)" by auto
    then have "filter (\<lambda>v. value_name v = name) (page_values p w) = [v]"
      using filter_unique_by [OF db_ok_unique(4) [OF assms] v(1)] eq by simp
    moreover have "value_map w (id_page p, name) = Some (value_text v)"
      using v value_map_Some [OF assms] by blast
    ultimately show ?thesis by (simp add: get_value_of_def)
  next
    case False
    then have "filter (\<lambda>v. value_name v = name) (page_values p w) = []"
      using eq by (auto simp: filter_empty_conv)
    moreover from False have "value_map w (id_page p, name) = None"
      using value_map_Some [OF assms] by (metis not_None_eq)
    ultimately show ?thesis by (simp add: get_value_of_def)
  qed
qed

section \<open>Upsert\<close>

lemma value_insert_frame: "next_page (snd (value_insert f w)) = next_page w"
  "page_rows (snd (value_insert f w)) = page_rows w" "site_rows (snd (value_insert f w)) = site_rows w"
  "link_rows (snd (value_insert f w)) = link_rows w" "sched_rows (snd (value_insert f w)) = sched_rows w"
  by (auto simp: value_insert_def value_save_def value_put_def Let_def)

lemma value_save_frame: "next_page (snd (value_save v w)) = next_page w"
  "page_rows (snd (value_save v w)) = page_rows w" "site_rows (snd (value_save v w)) = site_rows w"
  "link_rows (snd (value_save v w)) = link_rows w" "sched_rows (snd (value_save v w)) = sched_rows w"
  by (auto simp: value_save_def value_put_def)

lemma value_goc_frame: "next_page (snd (value_get_or_create k w)) = next_page w"
  "page_rows (snd (value_get_or_create k w)) = page_rows w"
  "site_rows (snd (value_get_or_create k w)) = site_rows w"
  "link_rows (snd (value_get_or_create k w)) = link_rows w"
  "sched_rows (snd (value_get_or_create k w)) = sched_rows w"
  using value_insert_frame
  by (auto simp: value_get_or_create_def get_or_create_def andThen_def ret_def
      split: list.splits prod.splits sum.splits) (metis snd_conv)+

text \<open>What the steps on values leave alone.\<close>

definition rest_of :: "world \<Rightarrow> page list \<times> site list \<times> link list \<times> scheduled_page list \<times> nat" where
  "rest_of w = (page_rows w, site_rows w, link_rows w, sched_rows w, next_page w)"

lemma rest_of_tick [simp]: "rest_of (w\<lparr>tick := n\<rparr>) = rest_of w"
  by (simp add: rest_of_def)

lemma rest_of_upsert: "rest_of (snd (upsert p n v w)) = rest_of w"
proof -
  have "rest_of (snd (value_get_or_create k w)) = rest_of w" for k w
    by (simp add: rest_of_def value_goc_frame)
  moreover have "rest_of (snd (value_save r w)) = rest_of w" for r w
    by (simp add: rest_of_def value_save_frame)
  ultimately show ?thesis
    by (auto simp: upsert_def andThen_def ret_def Let_def split: prod.splits sum.splits)
      (metis snd_conv)+
qed

lemma upsert_ok: "keeps db_ok (upsert p n v)"
proof (rule keepsI)
  fix w assume w: "db_ok w"
  show "db_ok (snd (upsert p n v w))"
  proof (cases "value_get_or_create (id_page p, n) w")
    case (Pair out u)
    from value_store.inv_after [OF w this] have u: "db_ok u" .
    show ?thesis
    proof (cases out)
      case (Inl e)
      with Pair u show ?thesis by (simp add: upsert_def andThen_def)
    next
      case (Inr rb)
      obtain r b where rb: "rb = (r, b)" by (cases rb)
      have "r \<in> set (value_rows u)"
        using value_store.returned(2) [OF w] Pair Inr rb by fastforce
      then have "id_value r < next_value u"
        using db_ok_keys_ok(4) [OF u] by (auto simp: keys_ok_def)
      then have "db_ok (snd (value_save (r\<lparr>value_text := str_scalar v\<rparr>) u))"
        using u by (intro value_save_ok) simp_all
      with Pair Inr rb show ?thesis
        by (auto simp: upsert_def andThen_def ret_def Let_def split: prod.splits sum.splits)
    qed
  qed
qed

lemma upsert_map:
  assumes "db_ok w" "upsert p n v w = (Inr r, w')"
  shows "value_map w' = (value_map w)((id_page p, n) \<mapsto> str_scalar v)"
proof -
  let ?k = "(id_page p, n)"
  have w': "db_ok w'" using keeps_resultD [OF upsert_ok assms] .
  from assms(2) obtain q b u where u: "value_get_or_create ?k w = (Inr (q, b), u)"
    by (auto simp: upsert_def andThen_def split: prod.splits sum.splits)
  let ?q = "q\<lparr>value_text := str_scalar v\<rparr>"
  from assms(2) u have put: "w' = value_put ?q u"
    by (auto simp: upsert_def andThen_def ret_def Let_def value_save_def split: prod.splits sum.splits if_splits)
  note ret = value_store.returned [OF assms(1) u]
  have ok: "db_ok u" by (rule value_store.inv_after [OF assms(1) u])
  have q: "q \<in> set (value_rows u)" using ret(2) by simp
  have rows: "set (value_rows w') = insert ?q {s \<in> set (value_rows u). id_value s \<noteq> id_value q}"
    using value_table.saved_rows [OF db_ok_keys(4) [OF ok], of ?q]
      value_table.get_of_row [OF db_ok_keys(4) [OF ok] q] put by simp
  have same: "s = q" if "s \<in> set (value_rows u)" "value_nat_key s = ?k" for s
    using that q ret(1) db_ok_unique(4) [OF ok] by (auto simp: unique_by_def dest: distinct_map_eqD)
  have same_id: "s = q" if "s \<in> set (value_rows u)" "id_value s = id_value q" for s
    using value_table.same_key [OF db_ok_keys(4) [OF ok] that(1) q that(2)] .
  have key: "value_nat_key ?q = ?k" "value_text ?q = str_scalar v"
    using ret(1) by (simp_all add: value_nat_key_def)
  show ?thesis
  proof (rule map_eq_SomeI)
    fix k t
    have "(\<exists>s \<in> set (value_rows w'). value_nat_key s = k \<and> value_text s = t) \<longleftrightarrow>
        (if k = ?k then t = str_scalar v
         else \<exists>s \<in> set (value_rows u). value_nat_key s = k \<and> value_text s = t)"
    proof (cases "k = ?k")
      case True
      have only: "t = str_scalar v" if s: "s \<in> set (value_rows w')" "value_nat_key s = ?k" "value_text s = t" for s
      proof (cases "s = ?q")
        case False
        with s(1) rows have "s \<in> set (value_rows u)" "id_value s \<noteq> id_value q" by blast+
        with same s(2) show ?thesis by blast
      qed (use s key in simp)
      have "?q \<in> set (value_rows w')" using rows by blast
      with key True have "\<exists>s \<in> set (value_rows w'). value_nat_key s = k \<and> value_text s = t" if "t = str_scalar v"
        using that by (intro bexI [of _ ?q]) simp_all
      with only True have "(\<exists>s \<in> set (value_rows w'). value_nat_key s = k \<and> value_text s = t) \<longleftrightarrow> t = str_scalar v"
        by (metis (no_types, lifting))
      then show ?thesis unfolding if_P [OF True] .
    next
      case False
      have "s \<in> set (value_rows w') \<longleftrightarrow> s \<in> set (value_rows u)" if "value_nat_key s = k" for s
      proof -
        have "s \<noteq> ?q" "s \<noteq> q" using that False key ret(1) by auto
        then show ?thesis using rows same_id by blast
      qed
      then show ?thesis using False by (simp only: if_False) blast
    qed
    moreover have "(\<exists>s \<in> set (value_rows u). value_nat_key s = k \<and> value_text s = t) \<longleftrightarrow>
        (\<exists>s \<in> set (value_rows w). value_nat_key s = k \<and> value_text s = t)" if "k \<noteq> ?k"
      using ret(1,2) that by auto
    ultimately show "value_map w' k = Some t \<longleftrightarrow> ((value_map w)(?k \<mapsto> str_scalar v)) k = Some t"
      unfolding value_map_Some [OF w'] using value_map_Some [OF assms(1), of k t]
      by (cases "k = ?k") (simp_all add: eq_commute)
  qed
qed

section \<open>Dictionaries\<close>

lemma map_of_dict_put: "map_of (dict_put k v d) = (map_of d)(k \<mapsto> v)"
  by (induction d) (auto simp: fun_eq_iff)

lemma keys_dict_put: "fst ` set (dict_put k v d) = insert k (fst ` set d)"
  by (induction d) auto

lemma distinct_dict_put: "distinct (map fst d) \<Longrightarrow> distinct (map fst (dict_put k v d))"
proof (induction d)
  case (Cons kv d)
  then show ?case using keys_dict_put [of k v d] by auto
qed simp

lemma distinct_dict_update: "distinct (map fst d) \<Longrightarrow> distinct (map fst (dict_update d e))"
  unfolding dict_update_def by (induction e arbitrary: d) (simp_all add: distinct_dict_put)

lemma map_of_dict_update: "map_of (dict_update d e) = map_of d ++ map_of (rev e)"
  unfolding dict_update_def
  by (induction e arbitrary: d) (simp_all add: map_of_dict_put fun_eq_iff map_add_def split: option.splits)

lemma map_of_rev_distinct: "distinct (map fst d) \<Longrightarrow> map_of (rev d) = map_of d"
proof (induction d)
  case (Cons kv d)
  then have "map_of d (fst kv) = None" by (simp add: map_of_eq_None_iff)
  with Cons show ?case by (auto simp: fun_eq_iff map_add_def split: option.splits)
qed simp

section \<open>Storing the values of a page\<close>

lemma delete_values_map:
  assumes "db_ok w"
  shows "value_map (delete_values (\<lambda>v. P (value_nat_key v)) w) =
     (\<lambda>k. if P k then None else value_map w k)"
  using value_map_Some [OF assms] value_map_Some [OF delete_values_ok [OF assms]]
  by (intro map_eq_SomeI) (auto simp: delete_values_def)

definition upsert_all :: "page \<Rightarrow> dict \<Rightarrow> unit op" where
  "upsert_all p vals = for_acc (\<lambda>nv _. andThen (upsert p (fst nv) (snd nv)) (\<lambda>_. ret ())) vals ()"

lemma upsert_all_map:
  assumes "db_ok w" "upsert_all p vals w = (Inr x, w')"
  shows "db_ok w' \<and> value_map w' =
     value_map w ++ (\<lambda>(k, n). if k = id_page p then map_option str_scalar (map_of (rev vals) n) else None)"
  using assms(2) unfolding upsert_all_def
proof (rule for_acc_induct, goal_cases)
  case 1
  show ?case using assms(1) by (auto simp: fun_eq_iff map_add_def)
next
  case (2 ds nv a v a' v')
  then obtain r where r: "upsert p (fst nv) (snd nv) v = (Inr r, v')"
    by (auto simp: andThen_def ret_def split: prod.splits sum.splits)
  with 2(1) upsert_map [OF _ r] keeps_resultD [OF upsert_ok _ r] show ?case
    by (auto simp: fun_eq_iff map_add_def split: option.splits)
qed

lemma rest_of_upsert_all: "rest_of (snd (upsert_all p vals w)) = rest_of w"
proof -
  have "keeps (\<lambda>v. rest_of v = rest_of w) (upsert p n x)" for n x
    by (simp add: keeps_def rest_of_upsert)
  then have "keeps (\<lambda>v. rest_of v = rest_of w) (upsert_all p vals)"
    unfolding upsert_all_def by (intro keeps_intros)
  then show ?thesis by (simp add: keeps_def)
qed

lemma store_values_eq:
  "store_values p vals w =
     (let gone = filter (\<lambda>n. n \<notin> fst ` set vals) (map value_name (page_values p w));
          w1 = (if gone \<noteq> [] then delete_values (\<lambda>v. value_page v = id_page p \<and> value_name v \<in> set gone) w else w)
      in upsert_all p vals w1)"
  by (simp add: store_values_def upsert_all_def andThen_def reads_def writes_def ret_def Let_def)

lemma gone_map:
  fixes p :: page and vals :: dict
  assumes "db_ok w"
  defines "gone \<equiv> filter (\<lambda>n. n \<notin> fst ` set vals) (map value_name (page_values p w))"
  shows "value_map (delete_values (\<lambda>v. value_page v = id_page p \<and> value_name v \<in> set gone) w) =
     (\<lambda>(k, n). if k = id_page p \<and> n \<notin> fst ` set vals then None else value_map w (k, n))"
proof -
  have "value_map w (id_page p, n) = None" if "n \<notin> fst ` set vals" "n \<notin> set gone" for n
  proof (rule ccontr)
    assume "value_map w (id_page p, n) \<noteq> None"
    then obtain v where "v \<in> set (value_rows w)" "value_nat_key v = (id_page p, n)"
      using value_map_Some [OF assms(1)] by blast
    with that show False by (force simp: gone_def page_values_def value_nat_key_def)
  qed
  moreover have "n \<notin> fst ` set vals" if "n \<in> set gone" for n
    using that by (simp add: gone_def)
  ultimately show ?thesis
    using delete_values_map [OF assms(1), of "\<lambda>(k, n). k = id_page p \<and> n \<in> set gone"]
    by (auto simp: value_nat_key_def fun_eq_iff)
qed

lemma store_values_outcome:
  assumes "db_ok w" "distinct (map fst vals)" "store_values p vals w = (Inr x, w')"
  shows "db_ok w'" and "rest_of w' = rest_of w"
    and "value_map w' = (\<lambda>(k, n). if k = id_page p then map_option str_scalar (map_of vals n)
                                 else value_map w (k, n))"
proof -
  define gone where "gone = filter (\<lambda>n. n \<notin> fst ` set vals) (map value_name (page_values p w))"
  define w1 where "w1 = (if gone \<noteq> [] then delete_values (\<lambda>v. value_page v = id_page p \<and> value_name v \<in> set gone) w else w)"
  have up: "upsert_all p vals w1 = (Inr x, w')"
    using assms(3) by (simp only: store_values_eq gone_def w1_def Let_def)
  have w1: "db_ok w1" using assms(1) by (simp add: w1_def delete_values_ok)
  have same: "delete_values (\<lambda>v. value_page v = id_page p \<and> value_name v \<in> set []) w = w"
    by (simp add: delete_values_def row_del_def)
  have w1_eq: "w1 = delete_values (\<lambda>v. value_page v = id_page p \<and> value_name v \<in> set gone) w"
    using same by (cases "gone = []") (simp_all add: w1_def)
  have "value_map w1 = (\<lambda>(k, n). if k = id_page p \<and> n \<notin> fst ` set vals then None else value_map w (k, n))"
    unfolding w1_eq gone_def by (rule gone_map [OF assms(1)])
  moreover have "map_of (rev vals) = map_of vals"
    by (rule map_of_rev_distinct [OF assms(2)])
  moreover have "map_of vals n = None \<longleftrightarrow> n \<notin> fst ` set vals" for n
    by (rule map_of_eq_None_iff)
  ultimately show "value_map w' = (\<lambda>(k, n). if k = id_page p then map_option str_scalar (map_of vals n)
                                 else value_map w (k, n))"
    using upsert_all_map [OF w1 up] by (auto simp: fun_eq_iff map_add_def split: option.splits)
  show "db_ok w'" using upsert_all_map [OF w1 up] by simp
  have "rest_of w1 = rest_of w" by (simp add: w1_def rest_of_def delete_values_def)
  then show "rest_of w' = rest_of w" using rest_of_upsert_all [of p vals w1] up by simp
qed

section \<open>Running the plug-ins\<close>

text \<open>
  The plug-ins are asked in the order of their registration; an exception of one of them is
  noted and the others still run.
\<close>

fun plugin_outcomes :: "page \<Rightarrow> headers \<Rightarrow> string \<Rightarrow> nat \<Rightarrow> (string \<times> plugin) list \<Rightarrow>
    (string \<times> (pyexn + dict option)) list" where
  "plugin_outcomes p headers body t [] = []"
| "plugin_outcomes p headers body t (np # nps) =
     (fst np, snd np t p headers body) # plugin_outcomes p headers body (Suc t) nps"

fun merged :: "dict \<Rightarrow> (string \<times> (pyexn + dict option)) list \<Rightarrow> dict" where
  "merged d [] = d"
| "merged d ((_, Inr (Some r)) # outs) = merged (dict_update d r) outs"
| "merged d (_ # outs) = merged d outs"

definition plugin_failures :: "(string \<times> (pyexn + dict option)) list \<Rightarrow> string list" where
  "plugin_failures outs = concat (map (\<lambda>(n, out). case out of Inl e \<Rightarrow> [n @ '': '' @ str_exn e] | Inr _ \<Rightarrow> []) outs)"

lemma plugin_failures_Nil_iff: "plugin_failures outs = [] \<longleftrightarrow> (\<forall>out \<in> snd ` set outs. \<not> raised out)"
  by (auto simp: plugin_failures_def raised_def split: sum.splits)

lemma distinct_merged: "distinct (map fst d) \<Longrightarrow> distinct (map fst (merged d outs))"
  by (induction d outs rule: merged.induct) (simp_all add: distinct_dict_update)

lemma dict_update_Nil [simp]: "dict_update d [] = d"
  by (simp add: dict_update_def)

lemma run_plugin_step:
  "run_plugin p headers body np acc w =
     (Inr (merged (fst acc) [(fst np, snd np (tick w) p headers body)],
           snd acc @ plugin_failures [(fst np, snd np (tick w) p headers body)]),
      w\<lparr>tick := Suc (tick w)\<rparr>)"
  by (auto simp: run_plugin_def andThen_def ask_def ret_def plugin_failures_def
      split: sum.splits option.splits)

lemma merged_append: "merged d (xs @ ys) = merged (merged d xs) ys"
  by (induction d xs rule: merged.induct) simp_all

lemma plugin_failures_Cons: "plugin_failures (x # xs) = plugin_failures [x] @ plugin_failures xs"
  by (simp add: plugin_failures_def)

lemma merged_Cons: "merged d (x # xs) = merged (merged d [x]) xs"
  using merged_append [of d "[x]" xs] by simp

lemma plugin_loop:
  "for_acc (run_plugin p headers body) nps acc w =
     (Inr (merged (fst acc) (plugin_outcomes p headers body (tick w) nps),
           snd acc @ plugin_failures (plugin_outcomes p headers body (tick w) nps)),
      w\<lparr>tick := tick w + length nps\<rparr>)"
proof (induction nps arbitrary: acc w)
  case Nil
  then show ?case by (simp add: ret_def plugin_failures_def)
next
  case (Cons np nps)
  show ?case
    by (simp add: andThen_Inr [OF run_plugin_step] Cons.IH del: merged.simps(2,3))
      (simp add: merged_Cons [of _ _ "plugin_outcomes p headers body (Suc (tick w)) nps"]
        plugin_failures_Cons [of _ "plugin_outcomes p headers body (Suc (tick w)) nps"])
qed

lemma value_map_tick [simp]: "value_map (w\<lparr>tick := n\<rparr>) = value_map w"
  by (simp add: value_map_def)

lemma run_plugins_outcome:
  fixes env :: env and p :: page and headers :: headers and body :: string
  defines "outs \<equiv> \<lambda>w. plugin_outcomes p headers body (tick w) (e_plugins env)"
  assumes "db_ok w" "run_plugins env p headers body w = (Inr r, w')"
  shows "db_ok w'" and "rest_of w' = rest_of w"
    and "value_map w' = (\<lambda>(k, n). if k = id_page p then map_option str_scalar (map_of (merged [] (outs w)) n)
                                 else value_map w (k, n))"
    and "r = (if \<forall>out \<in> snd ` set (outs w). \<not> raised out then Success (merged [] (outs w))
              else Failure (plugin_failure_text (plugin_failures (outs w))) None)"
proof -
  let ?v = "w\<lparr>tick := tick w + length (e_plugins env)\<rparr>"
  from assms(3) obtain x where
      s: "store_values p (merged [] (outs w)) ?v = (Inr x, w')" and
      r: "r = (if plugin_failures (outs w) \<noteq> [] then Failure (plugin_failure_text (plugin_failures (outs w))) None
               else Success (merged [] (outs w)))"
    by (auto simp: run_plugins_def andThen_Inr [OF plugin_loop] outs_def ret_def
        elim!: andThen_InrE split: if_splits)
  have "distinct (map fst (merged [] (outs w)))" by (rule distinct_merged) simp
  note o = store_values_outcome [OF _ this s]
  show "db_ok w'" using o(1) assms(2) by simp
  show "rest_of w' = rest_of w" using o(2) assms(2) by simp
  show "value_map w' = (\<lambda>(k, n). if k = id_page p then map_option str_scalar (map_of (merged [] (outs w)) n)
                                 else value_map w (k, n))"
    using o(3) assms(2) by (auto simp: fun_eq_iff)
  show "r = (if \<forall>out \<in> snd ` set (outs w). \<not> raised out then Success (merged [] (outs w))
              else Failure (plugin_failure_text (plugin_failures (outs w))) None)"
    using r by (simp only: plugin_failures_Nil_iff if_not_P if_P) auto
qed

lemma live_upsert [keeps_intros]: "keeps (live k) (upsert p n v)"
proof (rule liveI [OF upsert_ok])
  show "next_page w \<le> next_page (snd (upsert p n v w))" for w
    using rest_of_upsert [of p n v w] by (simp add: rest_of_def)
qed

lemma live_delete_values [keeps_intros]: "keeps (live k) (writes (delete_values P))"
  by (rule keeps_writes) (auto simp: live_def delete_values_ok, simp add: delete_values_def)

lemma live_store_values [keeps_intros]: "keeps (live k) (store_values p vals)"
  unfolding store_values_def by (intro keeps_intros)

lemma live_run_plugin [keeps_intros]: "keeps (live k) (run_plugin p headers body np acc)"
  by (simp add: keeps_def run_plugin_step)

lemma live_run_plugins [keeps_intros]: "keeps (live k) (run_plugins env p headers body)"
  unfolding run_plugins_def by (intro keeps_intros) (auto intro!: keeps_intros split: prod.split)

end
