(* ===== verification/Check.thy ===== *)
theory Check
  imports Values
begin

text \<open>
  \<open>core.check_page\<close>: it keeps the invariant of the database; the outcome of a check in every
  answer of the server; and the phase after \<open>page.is_valid()\<close>, for the result that the code
  expects of it.
\<close>

section \<open>The invariant\<close>

lemma page_save_frame: "next_page (snd (page_save p w)) = next_page w"
  "link_rows (snd (page_save p w)) = link_rows w" "site_rows (snd (page_save p w)) = site_rows w"
  "value_rows (snd (page_save p w)) = value_rows w" "sched_rows (snd (page_save p w)) = sched_rows w"
  by (auto simp: page_save_def page_put_def)

lemma live_page_save [keeps_intros]: "id_page p = k \<Longrightarrow> keeps (live k) (page_save p)"
  by (rule keepsI) (auto simp: live_def page_save_frame page_save_ok)

lemma live_get_text [keeps_intros]: "keeps (live k) (get_text_from_url env url)"
  unfolding get_text_from_url_def
  by (intro keeps_intros) (auto intro!: keeps_intros split: get_outcome.split)

lemma live_is_valid [keeps_intros]: "keeps (live k) (is_valid env s p)"
  unfolding is_valid_def
  by (intro keeps_intros) (auto intro!: keeps_intros split: head_outcome.split)

lemma live_site_of [keeps_intros]: "keeps (live k) (site_of p)"
  by (auto simp: keeps_def site_of_def split: option.split)

lemma live_check_failed [keeps_intros]: "id_page p = k \<Longrightarrow> keeps (live k) (check_failed env p url t r)"
  unfolding check_failed_def by (intro keeps_intros) simp_all

lemma live_check_html [keeps_intros]: "id_page p = k \<Longrightarrow> keeps (live k) (check_html env s p url)"
  unfolding check_html_def
  by (intro keeps_intros) (auto intro!: keeps_intros split: fetched.split prod.split)

lemma live_check_responded [keeps_intros]:
  "id_page p = k \<Longrightarrow> keeps (live k) (check_responded env s p url t r)"
  unfolding check_responded_def Let_def by (intro keeps_intros) simp_all

lemma live_check_after [keeps_intros]:
  "id_page p = k \<Longrightarrow> keeps (live k) (check_page_after env s p url t r)"
  unfolding check_page_after_def
  by (intro keeps_intros) (auto intro!: keeps_intros split: valid_value.split)

lemma live_check_page: "keeps (live (id_page p)) (check_page env p)"
  unfolding check_page_def Let_def by (intro keeps_intros) simp_all

lemma row_live: "db_ok w \<Longrightarrow> p \<in> set (page_rows w) \<Longrightarrow> live (id_page p) w"
  using db_ok_keys_ok(2) [of w] by (auto simp: live_def keys_ok_def)

lemma check_page_ok: "db_ok w \<Longrightarrow> p \<in> set (page_rows w) \<Longrightarrow> db_ok (snd (check_page env p w))"
  using keepsD [OF live_check_page row_live] by (auto simp: live_def)

section \<open>Saving a row that exists\<close>

lemma page_save_row:
  assumes "db_ok w" "p \<in> set (page_rows w)" "id_page q = id_page p" "page_nat_key q = page_nat_key p"
  shows "page_save q w = (if page_fits q then (Inr (), page_put q w) else (Inl (DataError ''page''), w))"
proof -
  have "\<not> clashes id_page page_nat_key q (page_rows w)"
    using db_ok_unique(2) [OF assms(1)] assms(2-4)
    by (auto simp: clashes_def unique_by_def dest: distinct_map_eqD)
  moreover have "site_get (page_site q) w \<noteq> None"
    using assms in_ids_get(2) by (auto simp: db_ok_defs page_nat_key_def)
  ultimately show ?thesis by (auto simp: page_save_def)
qed

lemma row_site:
  assumes "db_ok w" "p \<in> set (page_rows w)"
  obtains s where "site_get (page_site p) w = Some s" "s \<in> set (site_rows w)" "id_site s = page_site p"
proof -
  have "site_get (page_site p) w \<noteq> None" using assms in_ids_get(2) by (auto simp: db_ok_defs)
  then obtain s where s: "site_get (page_site p) w = Some s" by auto
  with site_table.get_iff [OF db_ok_keys(1) [OF assms(1)]] show ?thesis by (auto intro: that)
qed

section \<open>The check as it runs\<close>

text \<open>The row of a page whose request raised: checked now, status \<open>-1\<close>, the text of the exception.\<close>

definition failed_row :: "env \<Rightarrow> page \<Rightarrow> nat \<Rightarrow> string \<Rightarrow> page" where
  "failed_row env p t err =
     p\<lparr>checked_at := e_local env t, is_checked := True, status := -1, error_message := err,
       check_time := e_time env (t + 3) - e_time env (t + 1)\<rparr>"

definition failed_text :: "string \<Rightarrow> string \<Rightarrow> string" where
  "failed_text url err = ''Error al comprobar '' @ url @ '': '' @ ''-1: '' @ err"

lemma show_int_minus_one: "show_int (-1) = ''-1''"
  by code_simp

lemma is_valid_no_response: "fst (is_valid env s p w) \<noteq> Inr (Success (VResponse r))"
  by (auto simp: is_valid_def andThen_def lift_def ask_def raise_def ret_def success_init_def failure_init_def
      split: sum.splits head_outcome.splits prod.splits)

lemma check_page_step:
  assumes "site_get (page_site p) w = Some s" "get_full_url s p = Inr url" "has_url_type url"
  shows "check_page env p w =
    (let t = tick w; q = p\<lparr>checked_at := e_local env t, is_checked := True\<rparr>;
         w3 = w\<lparr>tick := t + 3\<rparr>
     in case e_head env (t + 2) url of
          HeadRaises err \<Rightarrow> check_failed env q url (e_time env (t + 1)) (Failure err (Some (-1))) w3
        | HeadResponds st \<Rightarrow>
            if 200 \<le> st \<and> st < 300 then (Inl (AttributeError ''status_code''), w3)
            else (Inl (TypeError ''int() argument must be a string, a bytes-like object or a real number, not NoneType''), w3))"
proof -
  have "get_full_url s (p\<lparr>checked_at := e_local env (tick w), is_checked := True\<rparr>) = Inr url"
    using assms(2) by (simp add: get_full_url_def split: sum.splits)
  with assms show ?thesis
    by (simp add: check_page_def andThen_def ask_def site_of_def site_get_def lift_def is_valid_def Let_def
        ret_def check_page_after_def check_failed_def code_as_int_def success_init_def failure_init_def
        raise_def eval_nat_numeral split: head_outcome.split)
qed

lemma check_page_outcome:
  assumes "db_ok w" "p \<in> set (page_rows w)" "site_get (page_site p) w = Some s"
    "get_full_url s p = Inr url" "has_url_type url"
  shows "check_page env p w =
    (let t = tick w
     in case e_head env (t + 2) url of
          HeadRaises err \<Rightarrow>
            if length err \<le> 512
            then (Inr (Failure (failed_text url err) None), (page_put (failed_row env p t err) w)\<lparr>tick := t + 4\<rparr>)
            else (Inl (DataError ''page''), w\<lparr>tick := t + 4\<rparr>)
        | HeadResponds st \<Rightarrow>
            (Inl (if 200 \<le> st \<and> st < 300 then AttributeError ''status_code''
                  else TypeError ''int() argument must be a string, a bytes-like object or a real number, not NoneType''),
             w\<lparr>tick := t + 3\<rparr>))"
proof (cases "e_head env (tick w + 2) url")
  case (HeadRaises err)
  let ?w = "w\<lparr>tick := tick w + 4\<rparr>" and ?q = "failed_row env p (tick w) err"
  have fits: "page_fits ?q \<longleftrightarrow> length err \<le> 512"
    using assms(1,2) by (auto simp: page_fits_def failed_row_def int_fits_def db_ok_defs)
  have "page_save ?q ?w = (if page_fits ?q then (Inr (), page_put ?q ?w) else (Inl (DataError ''page''), ?w))"
    using assms(1,2) by (intro page_save_row) (simp_all add: failed_row_def page_nat_key_def)
  moreover have "page_put ?q ?w = (page_put ?q w)\<lparr>tick := tick w + 4\<rparr>"
    by (simp add: page_put_def)
  moreover have "check_page env p w =
     (case page_save ?q ?w of (Inl e, u) \<Rightarrow> (Inl e, u) | (Inr _, u) \<Rightarrow> (Inr (Failure (failed_text url err) None), u))"
    using HeadRaises
    by (simp add: check_page_step [OF assms(3-5)] Let_def check_failed_def andThen_def lift_def ask_def
        code_as_int_def ret_def failed_row_def failed_text_def str_failure_def show_int_minus_one
        eval_nat_numeral split: prod.split sum.split)
  ultimately show ?thesis using HeadRaises fits
    by (cases "length err \<le> 512") (simp_all add: Let_def)
next
  case (HeadResponds st)
  then show ?thesis by (simp add: check_page_step [OF assms(3-5)] Let_def)
qed

text \<open>\<open>returns P m\<close>: whatever \<open>m\<close> returns, if it returns, satisfies \<open>P\<close>.\<close>

definition returns :: "('a \<Rightarrow> bool) \<Rightarrow> 'a op \<Rightarrow> bool" where
  "returns P m \<longleftrightarrow> (\<forall>w r. fst (m w) = Inr r \<longrightarrow> P r)"

lemma returns_any: "returns (\<lambda>_. True) m"
  by (simp add: returns_def)

lemma returns_andThen:
  assumes "returns Q m" "\<And>x. Q x \<Longrightarrow> returns P (f x)"
  shows "returns P (andThen m f)"
  unfolding returns_def
proof (intro allI impI)
  fix w r assume r: "fst (andThen m f w) = Inr r"
  show "P r"
  proof (rule andThen_cases [of m w f])
    fix x t assume "m w = (Inr x, t)" "andThen m f w = f x t"
    with r assms show "P r" unfolding returns_def by (metis fst_conv)
  qed (use r in simp)
qed

lemmas returns_then = returns_andThen [OF returns_any]

lemma check_page_fails: "returns is_failure (check_page env p)"
proof -
  have "returns is_failure (check_failed env q url t r)" for q url t r
    unfolding check_failed_def by (intro returns_then) (simp add: returns_def ret_def)
  moreover have "returns is_failure (check_page_after env s q url t x)" if "\<forall>r. x \<noteq> Success (VResponse r)" for s q url t x
    using that calculation
    by (cases x rule: presult.exhaust)
      (auto simp: check_page_after_def returns_def andThen_def lift_def raise_def split: valid_value.split)
  ultimately show ?thesis
    unfolding check_page_def Let_def
    by (intro returns_then returns_andThen [where Q = "\<lambda>x. \<forall>r. x \<noteq> Success (VResponse r)"])
      (auto simp: returns_def is_valid_no_response)
qed

section \<open>The phase after \<open>is_valid\<close>\<close>

text \<open>
  \<open>check_page\<close> goes on with a response. What follows holds for any response; \<open>p\<close> is the
  page object, whose key and address are those of a row of the table.
\<close>

definition row_of :: "world \<Rightarrow> page \<Rightarrow> bool" where
  "row_of w p \<longleftrightarrow> (\<exists>q \<in> set (page_rows w). id_page p = id_page q \<and> page_nat_key p = page_nat_key q)"

lemma row_of_save:
  assumes "db_ok w" "row_of w p"
  shows "page_save p w = (if page_fits p then (Inr (), page_put p w) else (Inl (DataError ''page''), w))"
  using page_save_row [OF assms(1)] assms(2) by (auto simp: row_of_def)

lemma row_of_put:
  assumes "db_ok w" "row_of w p" "page_fits p"
  shows "db_ok (page_put p w)" "row_of (page_put p w) q \<longleftrightarrow> (id_page q = id_page p \<and> page_nat_key q = page_nat_key p) \<or>
      (\<exists>r \<in> set (page_rows w). id_page r \<noteq> id_page p \<and> id_page q = id_page r \<and> page_nat_key q = page_nat_key r)"
proof -
  have "id_page p < next_page w"
    using assms(1,2) db_ok_keys_ok(2) by (auto simp: row_of_def keys_ok_def)
  with page_save_ok [OF assms(1), of p] row_of_save [OF assms(1,2)] assms(3)
  show "db_ok (page_put p w)" by simp
  have "set (page_rows (page_put p w)) = insert p {s \<in> set (page_rows w). id_page s \<noteq> id_page p}"
    using db_ok_keys(2) [OF assms(1)] by (simp add: page_put_def page_keys_def set_row_put)
  then show "row_of (page_put p w) q \<longleftrightarrow> (id_page q = id_page p \<and> page_nat_key q = page_nat_key p) \<or>
      (\<exists>r \<in> set (page_rows w). id_page r \<noteq> id_page p \<and> id_page q = id_page r \<and> page_nat_key q = page_nat_key r)"
    by (auto simp: row_of_def)
qed

lemma row_of_tick [simp]: "row_of (w\<lparr>tick := n\<rparr>) p = row_of w p"
  by (simp add: row_of_def)

lemma row_of_same: "row_of w p \<Longrightarrow> id_page q = id_page p \<Longrightarrow> page_nat_key q = page_nat_key p \<Longrightarrow> row_of w q"
  by (auto simp: row_of_def)

text \<open>What a successful check of a local HTML page leaves behind.\<close>

definition html_checked :: "env \<Rightarrow> site \<Rightarrow> page \<Rightarrow> string \<Rightarrow> headers \<Rightarrow> string \<Rightarrow> world \<Rightarrow>
    check_result \<Rightarrow> world \<Rightarrow> bool" where
  "html_checked env s p url headers body w res w' \<longleftrightarrow> (\<exists>cf out w1.
     e_robots env (tick w) (site_url s ''robots.txt'') = Inr cf \<and>
     links_updated s p (addresses s p cf (candidates env body)) w out w1 \<and>
     db_ok w' \<and> rest_of w' = rest_of w1 \<and>
     (let outs = plugin_outcomes p headers body (tick w1) (e_plugins env)
      in value_map w' = (\<lambda>(k, n). if k = id_page p then map_option str_scalar (map_of (merged [] outs) n)
                                  else value_map w (k, n)) \<and>
         res = Success (Checked url (Some (length (snd out), length (fst out),
                 \<forall>x \<in> snd ` set outs. \<not> raised x)))))"

definition with_length :: "headers \<Rightarrow> string \<Rightarrow> headers" where
  "with_length headers body =
     (if header_lookup headers ''content-length'' = None
      then headers @ [(''content-length'', HInt (int (length body)))] else headers)"

text \<open>The outcome of the download and the two phases after it.\<close>

definition html_outcome :: "env \<Rightarrow> site \<Rightarrow> page \<Rightarrow> string \<Rightarrow> world \<Rightarrow> check_result \<Rightarrow> world \<Rightarrow> bool" where
  "html_outcome env s p url w res w' \<longleftrightarrow> (\<exists>headers body.
     e_get env (tick w) url = GetOk headers body \<and>
     (if is_valid_html body
      then html_checked env s p url (with_length headers body) body (w\<lparr>tick := Suc (tick w)\<rparr>) res w'
      else res = Failure (teapot_text url) None \<and>
           w' = (page_put (p\<lparr>status := 418, error_message := teapot_text url\<rparr>) w)\<lparr>tick := Suc (tick w)\<rparr>))"

lemma get_text_returns:
  assumes "get_text_from_url env url w = (Inr out, w')"
  shows "w' = w\<lparr>tick := Suc (tick w)\<rparr>"
    "out = Pair h b \<Longrightarrow> \<exists>headers. e_get env (tick w) url = GetOk headers b \<and> h = with_length headers b"
    "out = Quadruple m \<Longrightarrow> \<exists>err. e_get env (tick w) url = GetIOError err"
  using assms
  by (auto simp: get_text_from_url_def andThen_def ask_def raise_def ret_def with_length_def
      split: get_outcome.splits if_splits)

lemma html_valid_outcome:
  assumes "db_ok w" "andThen (update_links env s p body) (\<lambda>(deleted_links, added_links).
     andThen (run_plugins env p headers body) (\<lambda>plugins_phase.
       ret (Success (Checked url (Some (length added_links, length deleted_links, bool_of plugins_phase)))))) w =
     (Inr res, w')"
  shows "html_checked env s p url headers body w res w'"
proof -
  from assms(2) obtain out w1 where u: "update_links env s p body w = (Inr out, w1)"
      and rest: "(case out of (deleted_links, added_links) \<Rightarrow> andThen (run_plugins env p headers body) (\<lambda>ph.
        ret (Success (Checked url (Some (length added_links, length deleted_links, bool_of ph)))))) w1 = (Inr res, w')"
    by (rule andThen_InrE)
  from rest obtain r where r: "run_plugins env p headers body w1 = (Inr r, w')"
      and res: "res = Success (Checked url (Some (length (snd out), length (fst out), bool_of r)))"
    by (auto elim!: andThen_InrE simp: ret_def split_beta)
  from update_links_outcome [OF assms(1) u] obtain cf where
      cf: "e_robots env (tick w) (site_url s ''robots.txt'') = Inr cf"
      and l: "links_updated s p (addresses s p cf (candidates env body)) w out w1" by blast
  have ok: "db_ok w1" and vals: "value_map w1 = value_map w"
    using l by (simp_all add: links_updated_def value_map_def)
  note o = run_plugins_outcome [OF ok r]
  have "bool_of r = (\<forall>x \<in> snd ` set (plugin_outcomes p headers body (tick w1) (e_plugins env)). \<not> raised x)"
    unfolding o(4) by simp
  with cf l o(1-3) res show ?thesis
    unfolding html_checked_def Let_def vals by blast
qed

lemma check_html_outcome:
  assumes "db_ok w" "row_of w p" "check_html env s p url w = (Inr res, w')"
  shows "html_outcome env s p url w res w'"
proof -
  let ?w = "w\<lparr>tick := Suc (tick w)\<rparr>"
  from assms(3) obtain out w1 where g: "get_text_from_url env url w = (Inr out, w1)"
    by (auto simp: check_html_def elim!: andThen_InrE)
  note gt = get_text_returns [OF g]
  show ?thesis
  proof (cases out)
    case (Quadruple m)
    with assms(3) g show ?thesis by (simp add: check_html_def andThen_def raise_def)
  next
    case (Pair h b)
    from gt(2) [OF this] obtain headers where h: "e_get env (tick w) url = GetOk headers b" "h = with_length headers b"
      by blast
    show ?thesis
    proof (cases "is_valid_html b")
      case True
      with assms(3) g Pair gt(1) have "andThen (update_links env s p b) (\<lambda>(deleted_links, added_links).
           andThen (run_plugins env p h b) (\<lambda>plugins_phase.
             ret (Success (Checked url (Some (length added_links, length deleted_links, bool_of plugins_phase)))))) ?w =
           (Inr res, w')"
        unfolding check_html_def andThen_def [of "get_text_from_url env url"] g by simp
      with html_valid_outcome [of ?w env s p b h url res w'] assms(1) h True show ?thesis
        by (simp add: html_outcome_def)
    next
      case False
      let ?q = "p\<lparr>status := 418, error_message := teapot_text url\<rparr>"
      have "row_of ?w ?q" using assms(2) by (auto simp: row_of_def page_nat_key_def)
      with row_of_save [of ?w ?q] assms(1) have "page_save ?q ?w =
          (if page_fits ?q then (Inr (), page_put ?q ?w) else (Inl (DataError ''page''), ?w))" by simp
      moreover have "page_put ?q ?w = (page_put ?q w)\<lparr>tick := Suc (tick w)\<rparr>" by (simp add: page_put_def)
      ultimately show ?thesis
        using assms(3) False Pair gt(1) h
        unfolding check_html_def andThen_def [of "get_text_from_url env url"] g
        by (auto simp: html_outcome_def andThen_def ret_def split: if_splits)
    qed
  qed
qed

text \<open>The row that is saved before the content is looked at.\<close>

definition responded_row :: "page \<Rightarrow> response \<Rightarrow> string \<Rightarrow> int \<Rightarrow> rat \<Rightarrow> page" where
  "responded_row p r ct sz time = p\<lparr>status := status_code r, content_type := ct, size_bytes := sz, check_time := time\<rparr>"

lemma check_responded_outcome:
  assumes "db_ok w" "row_of w p" "check_responded env s p url start r w = (Inr res, w')"
  shows "\<exists>ct sz q w1. get_content_type (resp_headers r) = Inr ct \<and> get_content_length (resp_headers r) = Inr sz \<and>
    q = responded_row p r ct sz (e_time env (tick w) - start) \<and>
    w1 = (page_put q w)\<lparr>tick := Suc (tick w)\<rparr> \<and>
    (if ct \<noteq> ''text/html'' then res = Success (Checked url None) \<and> w' = w1
     else if is_local s (resp_url r) = Inr True then html_outcome env s q url w1 res w'
     else res = Success (Checked url None) \<and> w' = delete_links (\<lambda>l. from_page l = id_page p) w1)"
proof -
  from assms(3) obtain ct sz where ct: "get_content_type (resp_headers r) = Inr ct"
      and sz: "get_content_length (resp_headers r) = Inr sz"
    by (auto simp: check_responded_def andThen_def lift_def split: sum.splits)
  let ?w = "w\<lparr>tick := Suc (tick w)\<rparr>"
  define q where "q = responded_row p r ct sz (e_time env (tick w) - start)"
  define w1 where "w1 = (page_put q w)\<lparr>tick := Suc (tick w)\<rparr>"
  have row: "row_of w q" using assms(2) by (auto simp: row_of_def page_nat_key_def q_def responded_row_def)
  have save: "page_save q ?w = (if page_fits q then (Inr (), w1) else (Inl (DataError ''page''), ?w))"
    using row_of_save [of ?w q] assms(1) row by (simp add: w1_def page_put_def)
  have run: "andThen (page_save q) (\<lambda>_. andThen (lift (content_is_html (resp_headers r))) (\<lambda>is_html.
      if is_html then
        andThen (lift (is_local s (resp_url r))) (\<lambda>loc.
        if loc then check_html env s q url
        else andThen (writes (delete_links (\<lambda>l. from_page l = id_page q))) (\<lambda>_.
             ret (Success (Checked url None))))
      else ret (Success (Checked url None)))) ?w = (Inr res, w')"
    using assms(3) unfolding q_def responded_row_def
    by (simp add: check_responded_def andThen_Inr lift_eval ct sz ask_def Let_def)
  have html: "content_is_html (resp_headers r) = Inr (ct = ''text/html'')"
    by (simp add: content_is_html_def ct)
  have fits: "page_fits q"
    using run unfolding andThen_def [of "page_save q"] save by (cases "page_fits q") simp_all
  have ok: "db_ok w1" "row_of w1 q"
    using row_of_put [OF assms(1) row fits] by (simp_all add: w1_def)
  have id: "id_page q = id_page p" by (simp add: q_def responded_row_def)
  have "if ct \<noteq> ''text/html'' then res = Success (Checked url None) \<and> w' = w1
     else if is_local s (resp_url r) = Inr True then html_outcome env s q url w1 res w'
     else res = Success (Checked url None) \<and> w' = delete_links (\<lambda>l. from_page l = id_page p) w1"
    using run id check_html_outcome [OF ok, of env s url res w']
    unfolding andThen_def [of "page_save q"] save if_P [OF fits]
    by (auto simp: html ret_def andThen_def [of "lift _"] lift_def andThen_def [of "writes _"]
        writes_def split: sum.splits if_splits)
  with ct sz q_def w1_def show ?thesis by blast
qed

end
