(* ===== verification/Crawl.thy ===== *)
theory Crawl
  imports Check Frontier
begin

text \<open>
  The crawl loop \<open>core.check_site\<close>. It
  only needs two services, the choice of the next page and its check; what it relies on is
  the locale \<open>crawler\<close>, and \<open>busy_crawler\<close> adds that there always is a next page.
\<close>

section \<open>The loop\<close>

text \<open>The generator as a whole: the first choice, then the loop.\<close>

definition site_run :: "'p option op \<Rightarrow> ('p \<Rightarrow> 'r op) \<Rightarrow> nat \<Rightarrow> world \<Rightarrow> 'r run" where
  "site_run select check n w =
     (case select w of
        (Inl e, w') \<Rightarrow> ([], Some e, w')
      | (Inr pg, w') \<Rightarrow> crawl select check n pg w')"

locale crawler =
  fixes select :: "'p option op"
    and check :: "'p \<Rightarrow> 'r op"
    and inv :: "world \<Rightarrow> bool"
    and ready :: "'p \<Rightarrow> world \<Rightarrow> bool"
    and good :: "'r \<Rightarrow> bool"
  assumes select_inv: "inv w \<Longrightarrow> select w = (out, w') \<Longrightarrow> inv w'"
    and select_ready: "inv w \<Longrightarrow> select w = (Inr (Some p), w') \<Longrightarrow> ready p w'"
    and check_inv: "inv w \<Longrightarrow> ready p w \<Longrightarrow> check p w = (res, w') \<Longrightarrow> inv w'"
    and check_good: "inv w \<Longrightarrow> ready p w \<Longrightarrow> check p w = (Inr r, w') \<Longrightarrow> good r"
begin

lemma crawl_sound:
  assumes "inv w" "\<And>p. pg = Some p \<Longrightarrow> ready p w" "crawl select check n pg w = (rs, e, w')"
  shows "inv w' \<and> length rs \<le> n \<and> (\<forall>r \<in> set rs. good r)"
  using assms
proof (induction n arbitrary: pg w rs)
  case 0
  then show ?case by simp
next
  case (Suc n)
  show ?case
  proof (cases pg)
    case None
    with Suc.prems show ?thesis by simp
  next
    case (Some p)
    have ready: "ready p w" using Suc.prems(2) [OF Some] .
    obtain out w1 where c: "check p w = (out, w1)" by (cases "check p w")
    have i1: "inv w1" using check_inv [OF Suc.prems(1) ready c] .
    show ?thesis
    proof (cases out)
      case (Inl x)
      with Suc.prems(3) Some c i1 show ?thesis by simp
    next
      case (Inr r)
      have good: "good r" using check_good [OF Suc.prems(1) ready] c Inr by simp
      obtain nx w2 where n: "select w1 = (nx, w2)" by (cases "select w1")
      note i2 = select_inv [OF i1 n]
      show ?thesis
      proof (cases nx)
        case (Inl x)
        with Suc.prems(3) Some c Inr n i2 good show ?thesis by (auto simp: yielded_def)
      next
        case (Inr q)
        obtain rs' where rs': "crawl select check n q w2 = (rs', e, w')" "rs = r # rs'"
          using Suc.prems(3) Some c \<open>out = Inr r\<close> n Inr by (auto simp: yielded_def split: prod.splits)
        have "ready x w2" if "q = Some x" for x
          using select_ready [OF i1] n Inr that by simp
        from Suc.IH [OF i2 this rs'(1)] rs'(2) good show ?thesis by auto
      qed
    qed
  qed
qed

lemma site_run_sound:
  assumes "inv w" "site_run select check n w = (rs, e, w')"
  shows "inv w' \<and> length rs \<le> n \<and> (\<forall>r \<in> set rs. good r)"
proof (cases "select w")
  case (Pair out w1)
  show ?thesis
  proof (cases out)
    case (Inl x)
    with Pair assms select_inv [OF assms(1) Pair] show ?thesis by (auto simp: site_run_def)
  next
    case (Inr pg)
    with Pair assms select_inv [OF assms(1) Pair] select_ready [OF assms(1)] show ?thesis
      by (intro crawl_sound [of w1 pg]) (auto simp: site_run_def)
  qed
qed

end

locale busy_crawler = crawler +
  assumes select_page: "inv w \<Longrightarrow> fst (select w) \<noteq> Inr None"
begin

lemma crawl_full:
  assumes "inv w" "ready p w" "crawl select check n (Some p) w = (rs, None, w')"
  shows "length rs = n"
  using assms
proof (induction n arbitrary: p w rs)
  case (Suc n)
  from Suc.prems(3) obtain r w1 nx w2 where c: "check p w = (Inr r, w1)" and n: "select w1 = (Inr nx, w2)"
      and rs: "rs = r # fst (crawl select check n nx w2)" and rest: "fst (snd (crawl select check n nx w2)) = None"
      "snd (snd (crawl select check n nx w2)) = w'"
    by (auto simp: yielded_def split: prod.splits sum.splits)
  have i1: "inv w1" using check_inv [OF Suc.prems(1,2) c] .
  then obtain q where q: "nx = Some q" using select_page [OF i1] n by (cases nx) auto
  have "length (fst (crawl select check n nx w2)) = n"
    using select_inv [OF i1 n] select_ready [OF i1] n q rest Suc.IH [of w2 q] by (simp add: prod_eq_iff)
  with rs show ?case by simp
qed simp

lemma site_run_full: "inv w \<Longrightarrow> site_run select check n w = (rs, None, w') \<Longrightarrow> length rs = n"
proof (cases "select w")
  case (Pair out w1)
  assume w: "inv w" and run: "site_run select check n w = (rs, None, w')"
  from run Pair obtain pg where pg: "out = Inr pg" by (auto simp: site_run_def split: sum.splits)
  then obtain p where "pg = Some p" using select_page [OF w] Pair by (cases pg) auto
  with pg Pair run select_inv [OF w Pair] select_ready [OF w] show ?thesis
    by (intro crawl_full [of w1 p]) (auto simp: site_run_def)
qed

end

section \<open>What a check leaves alone\<close>

text \<open>A failed check saves the page that it was given, whatever has become of its row.\<close>

lemma stale_check:
  assumes "site_get (page_site p) w = Some s" "get_full_url s p = Inr url" "has_url_type url"
    and "e_head env (tick w + 2) url = HeadRaises err"
  shows "check_page env p w =
    (case page_save (failed_row env p (tick w) err) (w\<lparr>tick := tick w + 4\<rparr>) of
       (Inl e, u) \<Rightarrow> (Inl e, u)
     | (Inr _, u) \<Rightarrow> (Inr (Failure (failed_text url err) None), u))"
  using assms(4)
  by (simp add: check_page_step [OF assms(1-3)] Let_def check_failed_def andThen_def lift_def ask_def
      code_as_int_def ret_def failed_row_def failed_text_def str_failure_def show_int_minus_one
      eval_nat_numeral split: prod.split sum.split)

text \<open>A check that raises writes nothing; one that returns has saved the row of a failure.\<close>

lemma check_page_effect:
  obtains (raises) e n where "check_page env p w = (Inl e, w\<lparr>tick := n\<rparr>)"
  | (fails) r t err n where "check_page env p w = (Inr r, (page_put (failed_row env p t err) w)\<lparr>tick := n\<rparr>)"
proof (cases "site_get (page_site p) w")
  case None
  then have "site_of (p\<lparr>checked_at := x, is_checked := True\<rparr>) (w\<lparr>tick := n\<rparr>) = (Inl DoesNotExist, w\<lparr>tick := n\<rparr>)" for x n
    by (simp add: site_of_def site_get_def)
  then show ?thesis
    by (intro raises) (simp add: check_page_def andThen_def ask_def Let_def)
next
  case (Some s)
  have read: "site_of p (w\<lparr>tick := n\<rparr>) = (Inr s, w\<lparr>tick := n\<rparr>)" for n
    using Some by (simp add: site_of_def site_get_def)
  have url: "get_full_url s (p\<lparr>checked_at := x, is_checked := b\<rparr>) = get_full_url s p" for x b
    by (simp add: get_full_url_def split: sum.split)
  show ?thesis
  proof (cases "get_full_url s p")
    case (Inl e)
    with read show ?thesis
      by (intro raises) (simp add: check_page_def andThen_def ask_def lift_def Let_def site_of_def url)
  next
    case (Inr u)
    show ?thesis
    proof (cases "has_url_type u")
      case False
      with read Inr show ?thesis
        by (intro raises) (simp add: check_page_def andThen_def ask_def lift_def Let_def site_of_def url is_valid_def raise_def)
    next
      case True
      show ?thesis
      proof (cases "e_head env (tick w + 2) u")
        case (HeadResponds st)
        with check_page_step [OF Some Inr True, of env] show ?thesis
          by (cases "200 \<le> st \<and> st < 300") (auto simp: Let_def intro: raises)
      next
        case (HeadRaises err)
        have "page_put q (w\<lparr>tick := n\<rparr>) = (page_put q w)\<lparr>tick := n\<rparr>" for q n by (simp add: page_put_def)
        with stale_check [OF Some Inr True HeadRaises] show ?thesis
          by (auto simp: page_save_def split: if_splits intro: raises fails)
      qed
    qed
  qed
qed

lemma check_page_frame:
  "\<exists>n. snd (check_page env p w) = w\<lparr>tick := n\<rparr> \<or>
    (\<exists>t err. snd (check_page env p w) = (page_put (failed_row env p t err) w)\<lparr>tick := n\<rparr>)"
  by (cases rule: check_page_effect [of env p w]) auto

lemma check_page_inhabits:
  assumes "db_ok w" "p \<in> set (page_rows w)" "site_pages s w \<noteq> []"
  shows "site_pages s (snd (check_page env p w)) \<noteq> []"
proof -
  obtain q where q: "q \<in> set (page_rows w)" "page_site q = id_site s"
    using assms(3) by (auto simp: site_pages_def filter_empty_conv)
  have "set (page_rows (page_put (failed_row env p t err) w)) =
      insert (failed_row env p t err) {x \<in> set (page_rows w). id_page x \<noteq> id_page p}" for t err
    using db_ok_keys(2) [OF assms(1)]
    by (simp add: page_put_def page_keys_def set_row_put failed_row_def)
  moreover have "page_site (failed_row env p t err) = page_site p" for t err by (simp add: failed_row_def)
  moreover have "p = q" if "id_page p = id_page q"
    using page_table.same_key [OF db_ok_keys(2) [OF assms(1)] assms(2) q(1) that] .
  ultimately have "\<exists>x \<in> set (page_rows (page_put (failed_row env p t err) w)). page_site x = id_site s" for t err
    using q by (cases "id_page p = id_page q") auto
  with check_page_frame [of env p w] q show ?thesis
    by (auto simp: site_pages_def filter_empty_conv)
qed

lemma next_page_tick: "next_page_to_check env s w = (out, w') \<Longrightarrow> \<exists>n. w' = w\<lparr>tick := n\<rparr>"
  using next_page_returns [of env s w] by auto

lemma site_pages_tick [simp]: "site_pages s (w\<lparr>tick := n\<rparr>) = site_pages s w"
  by (simp add: site_pages_def)

section \<open>The loop on the model\<close>

interpretation site_crawl: crawler "next_page_to_check env s" "check_page env" db_ok
    "\<lambda>p w. p \<in> set (page_rows w)" is_failure for env s
proof (unfold_locales, goal_cases)
  case (1 w out w')
  then show ?case using next_page_tick [of env s w out w'] by auto
next
  case (2 w p w')
  then show ?case
    using next_page_tick [of env s w "Inr (Some p)" w'] next_page_in_site [of w env s p w'] db_ok_keys(2) [of w]
    by (auto simp: site_pages_def)
next
  case (3 w p out w')
  then show ?case using check_page_ok [of w p env] by simp
next
  case (4 w p r w')
  then show ?case using check_page_fails [of env p] unfolding returns_def by (metis fst_conv)
qed

interpretation busy_site_crawl: busy_crawler "next_page_to_check env s" "check_page env"
    "\<lambda>w. db_ok w \<and> site_pages s w \<noteq> []" "\<lambda>p w. p \<in> set (page_rows w)" is_failure for env s
proof (unfold_locales, goal_cases)
  case (1 w out w')
  then show ?case using next_page_tick [of env s w out w'] by auto
next
  case (2 w p w')
  then show ?case using site_crawl.select_ready by blast
next
  case (3 w p out w')
  then show ?case using site_crawl.check_inv [of w p env out w'] check_page_inhabits [of w p s env] by simp
next
  case (4 w p r w')
  then show ?case using site_crawl.check_good by blast
next
  case (5 w)
  then show ?case using next_page_None_iff [OF db_ok_keys(2), of w env s] by simp
qed

lemma check_site_run: "check_site env s num w = site_run (next_page_to_check env s) (check_page env) (nat num) w"
  by (simp add: check_site_def site_run_def)

lemma check_site_sound:
  "db_ok w \<Longrightarrow> check_site env s num w = (rs, e, w') \<Longrightarrow>
     db_ok w' \<and> length rs \<le> nat num \<and> (\<forall>r \<in> set rs. is_failure r)"
  unfolding check_site_run by (rule site_crawl.site_run_sound)

lemma check_site_full:
  "db_ok w \<Longrightarrow> site_pages s w \<noteq> [] \<Longrightarrow> check_site env s num w = (rs, None, w') \<Longrightarrow> length rs = nat num"
  unfolding check_site_run by (rule busy_site_crawl.site_run_full) simp_all

end
