(* ===== verification/Coverage.thy ===== *)
theory Coverage
  imports Crawl
begin

text \<open>
  What a crawl covers: the locale \<open>draining_crawler\<close> adds a queue to the services of the loop,
  and its instance on the model is the list of the pages never checked, in the order of their
  discovery. Each result of a crawl takes the first page off that list.
\<close>

section \<open>The order of discovery\<close>

text \<open>
  A crawl that drains a queue: the choice is the head of the queue while there is one, a check
  that returns takes it off, and one that raises leaves it.
\<close>

locale draining_crawler = crawler +
  fixes queue :: "world \<Rightarrow> 'a list"
  assumes select_queue: "inv w \<Longrightarrow> select w = (out, w') \<Longrightarrow> queue w' = queue w"
    and select_head: "inv w \<Longrightarrow> queue w \<noteq> [] \<Longrightarrow> fst (select w) = Inr (Some (hd (queue w)))"
    and check_pops: "inv w \<Longrightarrow> ready p w \<Longrightarrow> queue w \<noteq> [] \<longrightarrow> p = hd (queue w) \<Longrightarrow>
      check p w = (Inr r, w') \<Longrightarrow> queue w' = tl (queue w)"
    and check_raises: "inv w \<Longrightarrow> ready p w \<Longrightarrow> check p w = (Inl e, w') \<Longrightarrow> queue w' = queue w"
begin

lemma crawl_drains:
  assumes "inv w" "\<And>p. pg = Some p \<Longrightarrow> ready p w" "queue w \<noteq> [] \<longrightarrow> pg = Some (hd (queue w))"
    "crawl select check n pg w = (rs, e, w')"
  shows "queue w' = drop (length rs) (queue w)"
  using assms
proof (induction n arbitrary: pg w rs)
  case 0
  then show ?case by simp
next
  case (Suc n)
  show ?case
  proof (cases pg)
    case None
    with Suc.prems show ?thesis by simp
  next
    case (Some p)
    have ready: "ready p w" using Suc.prems(2) [OF Some] .
    obtain out w1 where c: "check p w = (out, w1)" by (cases "check p w")
    have i1: "inv w1" using check_inv [OF Suc.prems(1) ready c] .
    show ?thesis
    proof (cases out)
      case (Inl x)
      with Suc.prems(4) Some c check_raises [OF Suc.prems(1) ready, of x w1] show ?thesis by simp
    next
      case (Inr r)
      have q1: "queue w1 = tl (queue w)"
        using check_pops [OF Suc.prems(1) ready] Suc.prems(3) Some c Inr by simp
      obtain nx w2 where n: "select w1 = (nx, w2)" by (cases "select w1")
      note i2 = select_inv [OF i1 n] and q2 = select_queue [OF i1 n]
      show ?thesis
      proof (cases nx)
        case (Inl x)
        with Suc.prems(4) Some c Inr \<open>out = Inr r\<close> n q1 q2 show ?thesis by (auto simp: yielded_def drop_Suc)
      next
        case (Inr q)
        obtain rs' where rs': "crawl select check n q w2 = (rs', e, w')" "rs = r # rs'"
          using Suc.prems(4) Some c \<open>out = Inr r\<close> n Inr by (auto simp: yielded_def split: prod.splits)
        have "ready x w2" if "q = Some x" for x
          using select_ready [OF i1] n Inr that by simp
        moreover have "queue w2 \<noteq> [] \<longrightarrow> q = Some (hd (queue w2))"
          using select_head [OF i1] n Inr q2 by simp
        ultimately have "queue w' = drop (length rs') (queue w2)" using Suc.IH [OF i2 _ _ rs'(1)] by blast
        with rs'(2) q1 q2 show ?thesis by (simp add: drop_Suc)
      qed
    qed
  qed
qed

lemma site_run_drains:
  assumes "inv w" "site_run select check n w = (rs, e, w')"
  shows "queue w' = drop (length rs) (queue w)"
proof (cases "select w")
  case (Pair out w1)
  note i1 = select_inv [OF assms(1) Pair] and q1 = select_queue [OF assms(1) Pair]
  show ?thesis
  proof (cases out)
    case (Inl x)
    with Pair assms q1 show ?thesis by (auto simp: site_run_def)
  next
    case (Inr pg)
    with Pair assms select_ready [OF assms(1)] select_head [OF assms(1)] q1 show ?thesis
      using crawl_drains [OF i1, of pg n rs e w'] by (simp add: site_run_def)
  qed
qed

end

text \<open>The pages of the site never checked, in the order in which they were discovered.\<close>

definition discovered :: "site \<Rightarrow> world \<Rightarrow> page list" where
  "discovered s w = sort_key page_created_at (filter (\<lambda>p. \<not> is_checked p) (site_pages s w))"

lemma set_discovered: "set (discovered s w) = unchecked_pages s w"
  by (simp add: discovered_def unchecked_pages_def)

lemma discovered_tick [simp]: "discovered s (w\<lparr>tick := n\<rparr>) = discovered s w"
  by (simp add: discovered_def)

lemma filter_replaced:
  "\<forall>x \<in> set xs. key x = key p \<longrightarrow> x = p \<Longrightarrow> \<not> U q \<Longrightarrow>
     filter U (map (\<lambda>x. if key x = key p then q else x) xs) = filter (\<lambda>x. U x \<and> x \<noteq> p) xs"
  by (induction xs) auto

lemma discovered_put:
  assumes "page_keys w" "p \<in> set (page_rows w)"
  shows "discovered s (page_put (failed_row env p t err) w) = filter (\<lambda>x. x \<noteq> p) (discovered s w)"
proof -
  let ?q = "failed_row env p t err"
  have q: "id_page ?q = id_page p" "is_checked ?q" by (simp_all add: failed_row_def)
  have "row_put id_page ?q (page_rows w) = map (\<lambda>r. if id_page r = id_page p then ?q else r) (page_rows w)"
    using assms(2) by (auto simp: row_put_def q(1))
  moreover have "\<forall>x \<in> set (page_rows w). id_page x = id_page p \<longrightarrow> x = p"
    using page_table.same_key [OF assms(1) _ assms(2)] by blast
  ultimately have "filter (\<lambda>x. \<not> is_checked x) (site_pages s (page_put ?q w)) =
      filter (\<lambda>x. x \<noteq> p) (filter (\<lambda>x. \<not> is_checked x) (site_pages s w))"
    using filter_replaced [of "page_rows w" id_page p "\<lambda>x. page_site x = id_site s \<and> \<not> is_checked x" ?q] q(2)
    by (simp add: site_pages_def page_put_def conj_ac)
  then show ?thesis by (simp add: discovered_def filter_sort)
qed

lemma discovered_distinct: "page_keys w \<Longrightarrow> distinct (discovered s w)"
  by (simp add: discovered_def site_pages_def page_keys_def distinct_map)

lemma discovered_pops:
  assumes "page_keys w" "p \<in> set (page_rows w)" "discovered s w \<noteq> [] \<longrightarrow> p = hd (discovered s w)"
  shows "discovered s (page_put (failed_row env p t err) w) = tl (discovered s w)"
  using assms(3) discovered_distinct [OF assms(1), of s] unfolding discovered_put [OF assms(1,2)]
  by (cases "discovered s w") (auto simp: filter_id_conv)

text \<open>No page of the site has a schedule; such a site stays so.\<close>

definition unscheduled :: "site \<Rightarrow> world \<Rightarrow> bool" where
  "unscheduled s w \<longleftrightarrow> (\<forall>c \<in> set (sched_rows w). \<forall>p \<in> set (site_pages s w). sched_page c \<noteq> id_page p)"

lemma unscheduled_not_due: "unscheduled s w \<Longrightarrow> due_pages s w now = {}"
  by (auto simp: unscheduled_def due_pages_def)

lemma unscheduled_tick [simp]: "unscheduled s (w\<lparr>tick := n\<rparr>) = unscheduled s w"
  by (simp add: unscheduled_def)

lemma unscheduled_put:
  assumes "unscheduled s w" "p \<in> set (page_rows w)"
  shows "unscheduled s (page_put (failed_row env p t err) w)"
proof -
  have "\<exists>x \<in> set (site_pages s w). id_page x = id_page y"
    if "y \<in> set (site_pages s (page_put (failed_row env p t err) w))" for y
    using that assms(2)
    by (auto simp: site_pages_def page_put_def row_put_def failed_row_def split: if_splits)
  with assms(1) show ?thesis unfolding unscheduled_def by (fastforce simp: page_put_def)
qed

text \<open>Without schedules and without second chances for the pages in error, the head of the queue is chosen.\<close>

lemma discovered_chosen:
  assumes "page_keys w" "unscheduled s w" "\<And>t. 1 / 2 < e_random env t" "discovered s w \<noteq> []"
  shows "fst (next_page_to_check env s w) = Inr (Some (hd (discovered s w)))"
proof -
  have "unchecked_pages s w \<noteq> {}" using assms(4) by (simp flip: set_discovered)
  then have q: "frontier_query s w = Some (hd (discovered s w))"
    using assms(4) by (cases "discovered s w") (auto simp: frontier_query_cases discovered_def)
  have "\<not> e_random env t \<le> 1 / 2" for t using assms(3) [of t] by simp
  then show ?thesis
    using first_due_None [OF assms(1), of "e_now env (tick w)" s] unscheduled_not_due [OF assms(2)] q
    by (auto simp: next_page_eval Let_def)
qed

text \<open>
  The interpretation is for every environment, with its chances below a half raised first; one
  that has none is left as it is.
\<close>

definition patient :: "env \<Rightarrow> env" where
  "patient env = env\<lparr>e_random := (\<lambda>t. if 1 / 2 < e_random env t then e_random env t else 1)\<rparr>"

lemma patient_id: "(\<And>t. 1 / 2 < e_random env t) \<Longrightarrow> patient env = env"
  by (simp add: patient_def)

lemma patient_random: "1 / 2 < e_random (patient env) t"
  by (simp add: patient_def)

interpretation site_drain: draining_crawler "next_page_to_check (patient env) s" "check_page (patient env)"
    "\<lambda>w. db_ok w \<and> unscheduled s w" "\<lambda>p w. p \<in> set (page_rows w)" is_failure "discovered s" for env s
proof (unfold_locales, goal_cases)
  case (1 w out w')
  then show ?case using next_page_tick [of "patient env" s w out w'] by auto
next
  case (2 w p w')
  then show ?case using site_crawl.select_ready by blast
next
  case (3 w p out w')
  then have ok: "db_ok w" "p \<in> set (page_rows w)" by simp_all
  show ?case
    using 3 site_crawl.check_inv [OF ok 3(3)] unscheduled_put [of s w p]
    by (cases rule: check_page_effect [of "patient env" p w]) auto
next
  case (4 w p r w')
  then show ?case using site_crawl.check_good by blast
next
  case (5 w out w')
  then show ?case using next_page_tick [of "patient env" s w out w'] by auto
next
  case (6 w)
  then show ?case using discovered_chosen patient_random db_ok_keys(2) by blast
next
  case (7 w p r w')
  then have ok: "db_ok w" "p \<in> set (page_rows w)" by simp_all
  show ?case
    using 7 discovered_pops [OF db_ok_keys(2) [OF ok(1)] ok(2)]
    by (cases rule: check_page_effect [of "patient env" p w]) auto
next
  case (8 w p e w')
  then have ok: "db_ok w" "p \<in> set (page_rows w)" by simp_all
  show ?case
    using 8 by (cases rule: check_page_effect [of "patient env" p w]) auto
qed

lemma check_site_drains:
  assumes "db_ok w" "unscheduled s w" "\<And>t. 1 / 2 < e_random env t" "check_site env s num w = (rs, e, w')"
  shows "discovered s w' = drop (length rs) (discovered s w)"
    "e = None \<Longrightarrow> discovered s w' = drop (nat num) (discovered s w)"
proof -
  have run: "site_run (next_page_to_check env s) (check_page env) (nat num) w = (rs, e, w')"
    using assms(4) by (simp add: check_site_run)
  show drains: "discovered s w' = drop (length rs) (discovered s w)"
    using site_drain.site_run_drains [of w s env "nat num" rs e w'] run assms(1,2)
    by (simp add: patient_id [OF assms(3)])
  show "discovered s w' = drop (nat num) (discovered s w)" if "e = None"
  proof (cases "site_pages s w = []")
    case True
    with drains show ?thesis by (simp add: discovered_def)
  next
    case False
    with busy_site_crawl.site_run_full [of w s env "nat num" rs w'] run that assms(1) drains show ?thesis by simp
  qed
qed

end
