(* ===== verification/Sites.thy ===== *)
theory Sites
  imports Crawl
begin

text \<open>
  The life of a site: \<open>core.init_site\<close> and \<open>core.reset_site\<close>, what they leave in the tables and
  when they fail.
\<close>

section \<open>Looking a site up\<close>

lemma load_site_found:
  assumes "db_ok w" "s \<in> set (site_rows w)"
  shows "load_site_by_name (site_name s) w = (Inr (Some s), w)"
  using filter_unique_by [OF db_ok_unique(1) [OF assms(1)] assms(2)] by (simp add: load_site_by_name_def)

lemma load_site_missing:
  "name \<notin> site_name ` set (site_rows w) \<Longrightarrow> load_site_by_name name w = (Inr None, w)"
  using filter_none [of name site_name "site_rows w"] by (simp add: load_site_by_name_def)

section \<open>Creating a site\<close>

lemma init_site_exists:
  assumes "db_ok w" "name \<in> site_name ` set (site_rows w)"
  shows "init_site env url name w = (Inl (ValueError (''Error: El site '' @ name @ '' ya existe'')), w)"
proof -
  from assms(2) obtain s where s: "s \<in> set (site_rows w)" "name = site_name s" by auto
  from load_site_found [OF assms(1) s(1)] s(2) show ?thesis
    by (simp add: init_site_def andThen_def raise_def)
qed

definition seeded_site :: "env \<Rightarrow> url_parts \<Rightarrow> string \<Rightarrow> world \<Rightarrow> site" where
  "seeded_site env info name w =
     \<lparr>id_site = next_site w, site_name = name, site_scheme = scheme info, site_netloc = netloc info,
      site_path = path info, site_created_at = e_now env (tick w)\<rparr>"

definition seed_page :: "env \<Rightarrow> url_parts \<Rightarrow> world \<Rightarrow> page" where
  "seed_page env info w =
     (new_page (next_site w) (path info) [] (e_now env (Suc (tick w))) (next_page w))\<lparr>status := -1\<rparr>"

lemma site_insert_new:
  assumes "db_ok w" "id_site (f (next_site w)) = next_site w" "site_fits (f (next_site w))"
    "site_name (f (next_site w)) \<notin> site_name ` set (site_rows w)"
    "site_url_key (f (next_site w)) \<notin> site_url_key ` set (site_rows w)"
  shows "site_insert f w = (Inr (f (next_site w)),
     w\<lparr>site_rows := site_rows w @ [f (next_site w)], next_site := Suc (next_site w)\<rparr>)"
proof -
  have "\<not> clashes id_site site_name (f (next_site w)) (site_rows w)"
    "\<not> clashes id_site site_url_key (f (next_site w)) (site_rows w)"
    using assms(4,5) by (auto simp: clashes_def image_iff)
  then show ?thesis
    using assms(2,3) row_put_next [OF db_ok_keys_ok(1) [OF assms(1)] assms(2)]
    by (simp add: site_insert_def site_save_def site_put_def Let_def)
qed

lemma page_insert_new:
  assumes "db_ok w" "id_page (f (next_page w)) = next_page w" "page_fits (f (next_page w))"
    "page_nat_key (f (next_page w)) \<notin> page_nat_key ` set (page_rows w)"
    "page_site (f (next_page w)) \<in> site_ids w"
  shows "page_insert f w = (Inr (f (next_page w)),
     w\<lparr>page_rows := page_rows w @ [f (next_page w)], next_page := Suc (next_page w)\<rparr>)"
proof -
  have "\<not> clashes id_page page_nat_key (f (next_page w)) (page_rows w)"
    using assms(4) by (auto simp: clashes_def image_iff)
  moreover have "site_get (page_site (f (next_page w))) w \<noteq> None"
    using assms(5) in_ids_get(2) by blast
  ultimately show ?thesis
    using assms(2,3) row_put_next [OF db_ok_keys_ok(2) [OF assms(1)] assms(2)]
    by (auto simp: page_insert_def page_save_def page_put_def Let_def)
qed

lemma site_insert_inv:
  "db_ok w \<Longrightarrow> (\<And>k. id_site (f k) = k) \<Longrightarrow> site_insert f w = (r, w') \<Longrightarrow> db_ok w'"
  using keeps_resultD [OF site_insert_ok] by blast

lemma new_page_fits: "length sub \<le> 280 \<Longrightarrow> length par \<le> 1024 \<Longrightarrow> page_fits (new_page sid sub par now k)"
  by (simp add: page_fits_def new_page_def int_fits_def)

lemma seed_page_fits: "length (path info) \<le> 280 \<Longrightarrow> page_fits (seed_page env info w)"
  by (simp add: page_fits_def seed_page_def new_page_def int_fits_def)

lemma no_page_of_next_site: "db_ok w \<Longrightarrow> p \<in> set (page_rows w) \<Longrightarrow> page_site p \<noteq> next_site w"
  using db_ok_keys_ok(1) [of w] by (force simp: db_ok_def foreign_inv_def site_ids_def keys_ok_def)

lemma init_site_new:
  assumes "db_ok w" "name \<notin> site_name ` set (site_rows w)" "urlparse url [] = Inr info"
    and "site_fits (seeded_site env info name w)"
    and "site_url_key (seeded_site env info name w) \<notin> site_url_key ` set (site_rows w)"
  shows "init_site env url name w = (Inr (seeded_site env info name w),
     w\<lparr>site_rows := site_rows w @ [seeded_site env info name w], next_site := Suc (next_site w),
       page_rows := page_rows w @ [seed_page env info w], next_page := Suc (next_page w),
       tick := tick w + 2\<rparr>)"
proof -
  let ?s = "seeded_site env info name w" and ?p = "seed_page env info w"
  let ?w1 = "w\<lparr>tick := Suc (tick w)\<rparr>"
  let ?w2 = "?w1\<lparr>site_rows := site_rows w @ [?s], next_site := Suc (next_site w)\<rparr>"
  let ?w3 = "?w2\<lparr>tick := Suc (Suc (tick w))\<rparr>"
  define f where "f = (\<lambda>k. \<lparr>id_site = k, site_name = name, site_scheme = scheme info,
     site_netloc = netloc info, site_path = path info, site_created_at = e_now env (tick w)\<rparr>)"
  define g where "g = (\<lambda>k. (new_page (next_site w) (path info) [] (e_now env (Suc (tick w))) k)\<lparr>status := -1\<rparr>)"
  have f: "f (next_site w) = ?s" and g: "g (next_page w) = ?p"
    by (simp_all add: f_def g_def seeded_site_def seed_page_def)
  have ins: "site_insert f ?w1 = (Inr ?s, ?w2)"
    using site_insert_new [of ?w1 f] assms(1,2,4,5) f by (simp add: seeded_site_def)
  have w2: "db_ok ?w2" using assms(1) site_insert_inv [OF _ _ ins] by (simp add: f_def)
  then have w3: "db_ok ?w3" by (simp only: db_ok_tick)
  have "page_nat_key ?p \<notin> page_nat_key ` set (page_rows w)"
    using no_page_of_next_site [OF assms(1)]
    by (fastforce simp: page_nat_key_def seed_page_def new_page_def)
  moreover have "page_fits ?p" using assms(4) by (intro seed_page_fits) (simp add: site_fits_def seeded_site_def)
  ultimately have ins2: "page_insert g ?w3 = (Inr ?p, ?w3\<lparr>page_rows := page_rows w @ [?p], next_page := Suc (next_page w)\<rparr>)"
    using page_insert_new [OF w3, of g] g
    by (simp add: site_ids_def seed_page_def new_page_def seeded_site_def)
  have id: "id_site ?s = next_site w" by (simp add: seeded_site_def)
  show ?thesis
    using load_site_missing [OF assms(2)] assms(3) ins ins2 id
    by (simp add: init_site_def andThen_def lift_def ask_def ret_def f_def g_def)
qed

section \<open>Resetting a site\<close>

lemma reset_site_missing:
  "name \<notin> site_name ` set (site_rows w) \<Longrightarrow>
     reset_site env name w = (Inl (ValueError (''No existe ningun site llamado '' @ name)), w)"
  using load_site_missing [of name w] by (simp add: reset_site_def andThen_def raise_def)

text \<open>The state after the deletion, before the seed is added again.\<close>

lemma reset_site_found:
  fixes env :: env
  assumes "db_ok w" "s \<in> set (site_rows w)" "urlparse (site_path s) [] = Inr info"
    and "length (query info) \<le> 1024" "length (path info) \<le> 280"
  defines "u \<equiv> delete_pages (\<lambda>p. page_site p = id_site s) w"
    and "q \<equiv> new_page (id_site s) (path info) (query info) (e_now env (tick w)) (next_page w)"
  shows "reset_site env (site_name s) w =
     (Inr s, u\<lparr>page_rows := page_rows u @ [q], next_page := Suc (next_page w), tick := Suc (tick w)\<rparr>)"
proof -
  have u: "db_ok u" unfolding u_def by (rule delete_pages_ok [OF assms(1)])
  have same: "next_page u = next_page w" "tick u = tick w" "site_rows u = site_rows w"
    by (simp_all add: u_def delete_pages_def Let_def)
  have none: "site_pages s u = []"
    by (auto simp: u_def delete_pages_def Let_def site_pages_def filter_empty_conv)
  let ?v = "u\<lparr>tick := Suc (tick u)\<rparr>"
  define f where "f = new_page (id_site s) (path info) (query info) (e_now env (tick w))"
  have "page_nat_key q \<notin> page_nat_key ` set (page_rows u)"
    using none by (auto simp: page_nat_key_def q_def new_page_def site_pages_def filter_empty_conv)
  moreover have "page_fits q" unfolding q_def using assms(4,5) by (intro new_page_fits)
  moreover have "page_site q \<in> site_ids ?v" using assms(2) by (simp add: q_def new_page_def site_ids_def same)
  moreover have "f (next_page ?v) = q" by (simp add: f_def q_def same)
  ultimately have ins: "page_insert f ?v = (Inr q, ?v\<lparr>page_rows := page_rows u @ [q], next_page := Suc (next_page w)\<rparr>)"
    using page_insert_new [of ?v f] u by (simp add: same q_def new_page_def)
  have "load_or_create env s (path info, query info) u =
     (Inr (q, True), ?v\<lparr>page_rows := page_rows u @ [q], next_page := Suc (next_page w)\<rparr>)"
    using load_or_create_new [of "(path info, query info)" s u env] none ins
    by (simp add: andThen_def ask_def ret_def f_def same)
  then have "add_page env s (site_path s) u =
     (Inr (q, True), ?v\<lparr>page_rows := page_rows u @ [q], next_page := Suc (next_page w)\<rparr>)"
    using assms(3) by (simp add: add_page_def andThen_def lift_def)
  then show ?thesis
    using load_site_found [OF assms(1,2)]
    by (simp add: reset_site_def andThen_def writes_def ret_def u_def [symmetric] same)
qed

lemma reset_site_pages:
  fixes env :: env
  assumes "db_ok w" "s \<in> set (site_rows w)" "urlparse (site_path s) [] = Inr info"
    and "length (query info) \<le> 1024" "length (path info) \<le> 280"
    and "reset_site env (site_name s) w = (r, w')"
  shows "r = Inr s" "site_pages s w' = [new_page (id_site s) (path info) (query info) (e_now env (tick w)) (next_page w)]"
    "id_site s' \<noteq> id_site s \<Longrightarrow> site_pages s' w' = site_pages s' w" "site_rows w' = site_rows w"
    "set (link_rows w') = {l \<in> set (link_rows w). from_page l \<notin> id_page ` set (site_pages s w) \<and>
       to_page l \<notin> id_page ` set (site_pages s w)}"
proof -
  let ?u = "delete_pages (\<lambda>p. page_site p = id_site s) w"
  let ?q = "new_page (id_site s) (path info) (query info) (e_now env (tick w)) (next_page w)"
  from reset_site_found [OF assms(1-5), of env] assms(6)
  have out: "r = Inr s" "w' = ?u\<lparr>page_rows := page_rows ?u @ [?q], next_page := Suc (next_page w), tick := Suc (tick w)\<rparr>"
    by simp_all
  have u: "page_rows ?u = filter (\<lambda>p. page_site p \<noteq> id_site s) (page_rows w)" "site_rows ?u = site_rows w"
    by (simp_all add: delete_pages_def Let_def row_del_def)
  have q: "page_site ?q = id_site s" by (simp add: new_page_def)
  show "r = Inr s" "site_rows w' = site_rows w" using out u by simp_all
  show "site_pages s w' = [?q]" using u q by (simp add: out(2) site_pages_def)
  show "site_pages s' w' = site_pages s' w" if "id_site s' \<noteq> id_site s"
    using u q that by (auto simp: out(2) site_pages_def intro!: filter_cong)
  have gone: "(\<exists>p \<in> set (page_rows w). page_site p = id_site s \<and> id_page p = k) \<longleftrightarrow> k \<in> id_page ` set (site_pages s w)" for k
    by (auto simp: site_pages_def)
  have "link_rows w' = row_del (\<lambda>l. from_page l \<in> id_page ` set (site_pages s w) \<or> to_page l \<in> id_page ` set (site_pages s w)) (link_rows w)"
    unfolding out(2) delete_pages_def Let_def gone by simp
  then show "set (link_rows w') = {l \<in> set (link_rows w). from_page l \<notin> id_page ` set (site_pages s w) \<and>
       to_page l \<notin> id_page ` set (site_pages s w)}"
    by simp
qed

section \<open>The invariant\<close>

lemma init_site_keeps: "keeps db_ok (init_site env url name)"
proof -
  have l: "keeps db_ok (load_site_by_name n)" for n
    by (auto simp: keeps_def load_site_by_name_def split: list.split)
  show ?thesis
    unfolding init_site_def
    by (intro keeps_intros l site_insert_ok page_insert_ok) (simp_all add: new_page_def)
qed

lemma reset_site_keeps: "keeps db_ok (reset_site env name)"
proof -
  have l: "keeps db_ok (load_site_by_name n)" for n
    by (auto simp: keeps_def load_site_by_name_def split: list.split)
  have d: "keeps db_ok (writes (delete_pages P))" for P
    by (rule keeps_writes) (rule delete_pages_ok)
  have a: "keeps db_ok (add_page env s url)" for s url
    unfolding add_page_def by (intro keeps_intros load_or_create_keeps)
  show ?thesis
    unfolding reset_site_def
    by (intro keeps_intros l) (auto intro!: keeps_intros d a split: option.split)
qed

end
