(* ===== verification/Fechas.thy ===== *)
theory Fechas
  imports Py_Regex Py_Float
begin

text \<open>
  \<open>fechas.py\<close>: dates, their arithmetic and the two parsers. The \<open>datetime\<close> objects of the
  standard library are records of integers; their constructors check the ranges. The clock
  (in the zone of the settings) and the local time zone are arguments.
\<close>

section \<open>Dates and times\<close>

record date =
  year :: int
  month :: int
  day :: int

record datetime = date +
  hour :: int
  minute :: int
  second :: int
  microsecond :: int

definition is_leap :: "int \<Rightarrow> bool" where
  "is_leap y \<longleftrightarrow> y mod 4 = 0 \<and> (y mod 100 \<noteq> 0 \<or> y mod 400 = 0)"

text \<open>\<open>calendar.monthrange(y, m)[1]\<close> for a month between 1 and 12.\<close>

definition month_days :: "int \<Rightarrow> int \<Rightarrow> int" where
  "month_days y m =
     (if m = 2 then (if is_leap y then 29 else 28)
      else if m \<in> {4, 6, 9, 11} then 30 else 31)"

definition valid_date :: "date \<Rightarrow> bool" where
  "valid_date d \<longleftrightarrow> 1 \<le> year d \<and> year d \<le> 9999 \<and> 1 \<le> month d \<and> month d \<le> 12 \<and>
     1 \<le> day d \<and> day d \<le> month_days (year d) (month d)"

definition valid_time :: "int \<Rightarrow> int \<Rightarrow> int \<Rightarrow> bool" where
  "valid_time h mi s \<longleftrightarrow> 0 \<le> h \<and> h \<le> 23 \<and> 0 \<le> mi \<and> mi \<le> 59 \<and> 0 \<le> s \<and> s \<le> 59"

text \<open>The arguments of the constructors are C integers.\<close>

definition c_int :: "int \<Rightarrow> bool" where
  "c_int i \<longleftrightarrow> - (2 ^ 31) \<le> i \<and> i < 2 ^ 31"

definition Date :: "int \<Rightarrow> int \<Rightarrow> int \<Rightarrow> pyexn + date" where
  "Date y m d =
     (if \<not> (c_int y \<and> c_int m \<and> c_int d) then Inl (OverflowError ''signed integer is greater than maximum'')
      else if \<not> (1 \<le> y \<and> y \<le> 9999) then Inl (ValueError ''year is out of range'')
      else if \<not> (1 \<le> m \<and> m \<le> 12) then Inl (ValueError ''month must be in 1..12'')
      else if \<not> (1 \<le> d \<and> d \<le> month_days y m) then Inl (ValueError ''day is out of range for month'')
      else Inr \<lparr>year = y, month = m, day = d\<rparr>)"

definition DateTime :: "int \<Rightarrow> int \<Rightarrow> int \<Rightarrow> int \<Rightarrow> int \<Rightarrow> int \<Rightarrow> pyexn + datetime" where
  "DateTime y m d h mi s =
     (if \<not> (c_int h \<and> c_int mi \<and> c_int s) then Inl (OverflowError ''signed integer is greater than maximum'')
      else case Date y m d of
             Inl e \<Rightarrow> Inl e
           | Inr dt \<Rightarrow>
               if \<not> valid_time h mi s then Inl (ValueError ''hour, minute or second out of range'')
               else Inr \<lparr>year = y, month = m, day = d, hour = h, minute = mi, second = s, microsecond = 0\<rparr>)"

definition date_of :: "datetime \<Rightarrow> date" where
  "date_of t = \<lparr>year = year t, month = month t, day = day t\<rparr>"

section \<open>Constants: spans of time in microseconds\<close>

definition TimeDelta :: "int \<Rightarrow> int \<Rightarrow> int \<Rightarrow> int" where
  "TimeDelta days hours seconds = ((days * 24 + hours) * 3600 + seconds) * 1000000"

definition EPOCH :: datetime where
  "EPOCH = \<lparr>year = 1970, month = 1, day = 1, hour = 0, minute = 0, second = 0, microsecond = 0\<rparr>"

definition HALF_HOUR :: int where "HALF_HOUR = TimeDelta 0 0 1800"
definition ONE_HOUR :: int where "ONE_HOUR = TimeDelta 0 1 0"
definition HALF_DAY :: int where "HALF_DAY = TimeDelta 0 12 0"
definition ONE_DAY :: int where "ONE_DAY = TimeDelta 1 0 0"
definition TWO_DAYS :: int where "TWO_DAYS = TimeDelta 2 0 0"
definition ONE_WEEK :: int where "ONE_WEEK = TimeDelta 7 0 0"
definition ONE_MONTH :: int where "ONE_MONTH = TimeDelta 31 0 0"

definition num_days :: "int \<Rightarrow> int" where
  "num_days days = TimeDelta days 0 0"

definition num_seconds :: "int \<Rightarrow> int" where
  "num_seconds seconds = TimeDelta 0 0 seconds"

section \<open>The clock\<close>

text \<open>
  The clock gives the wall time in the zone of the settings (zone information stripped) and
  the one of the machine.
\<close>

definition datetime_now :: "bool \<Rightarrow> datetime \<Rightarrow> datetime \<Rightarrow> datetime" where
  "datetime_now use_tz zoned naive = (if use_tz then zoned else naive)"

definition just_now :: "bool \<Rightarrow> datetime \<Rightarrow> datetime \<Rightarrow> datetime" where
  "just_now use_tz zoned naive = datetime_now use_tz zoned naive"

definition just_today :: "bool \<Rightarrow> datetime \<Rightarrow> datetime \<Rightarrow> date" where
  "just_today use_tz zoned naive = date_of (datetime_now use_tz zoned naive)"

definition this_year :: "datetime \<Rightarrow> int" where
  "this_year now = year now"

definition next_year :: "datetime \<Rightarrow> int" where
  "next_year now = this_year now + 1"

section \<open>Arithmetic\<close>

text \<open>
  The days after and before a date, with the carries of the Gregorian calendar; at the two ends
  of the range of the type they do not exist.
\<close>

definition date_succ :: "date \<Rightarrow> pyexn + date" where
  "date_succ d =
     (if day d < month_days (year d) (month d) then Inr (d\<lparr>day := day d + 1\<rparr>)
      else if month d < 12 then Inr \<lparr>year = year d, month = month d + 1, day = 1\<rparr>
      else if year d < 9999 then Inr \<lparr>year = year d + 1, month = 1, day = 1\<rparr>
      else Inl (OverflowError ''date value out of range''))"

definition date_pred :: "date \<Rightarrow> pyexn + date" where
  "date_pred d =
     (if 1 < day d then Inr (d\<lparr>day := day d - 1\<rparr>)
      else if 1 < month d
        then Inr \<lparr>year = year d, month = month d - 1, day = month_days (year d) (month d - 1)\<rparr>
      else if 1 < year d then Inr \<lparr>year = year d - 1, month = 12, day = 31\<rparr>
      else Inl (OverflowError ''date value out of range''))"

fun days_later :: "nat \<Rightarrow> date \<Rightarrow> pyexn + date" where
  "days_later 0 d = Inr d"
| "days_later (Suc n) d = (case date_succ d of Inl e \<Rightarrow> Inl e | Inr d' \<Rightarrow> days_later n d')"

fun days_earlier :: "nat \<Rightarrow> date \<Rightarrow> pyexn + date" where
  "days_earlier 0 d = Inr d"
| "days_earlier (Suc n) d = (case date_pred d of Inl e \<Rightarrow> Inl e | Inr d' \<Rightarrow> days_earlier n d')"

definition date_plus_days :: "date \<Rightarrow> int \<Rightarrow> pyexn + date" where
  "date_plus_days d n = (if 0 \<le> n then days_later (nat n) d else days_earlier (nat (- n)) d)"

text \<open>
  A date plus a span of time takes the whole days of the span; a point in time carries what goes
  beyond its day into the date.
\<close>

definition date_plus :: "date \<Rightarrow> int \<Rightarrow> pyexn + date" where
  "date_plus d delta = date_plus_days d (delta div 86400000000)"

definition time_of_day :: "datetime \<Rightarrow> int" where
  "time_of_day t = ((hour t * 60 + minute t) * 60 + second t) * 1000000 + microsecond t"

definition datetime_plus :: "datetime \<Rightarrow> int \<Rightarrow> pyexn + datetime" where
  "datetime_plus t delta =
     (let us = time_of_day t + delta; rest = us mod 86400000000
      in case date_plus_days (date_of t) (us div 86400000000) of
           Inl e \<Rightarrow> Inl e
         | Inr d \<Rightarrow> Inr \<lparr>year = year d, month = month d, day = day d, hour = rest div 3600000000,
                       minute = rest mod 3600000000 div 60000000, second = rest mod 60000000 div 1000000,
                       microsecond = rest mod 1000000\<rparr>)"

definition next_day :: "date \<Rightarrow> pyexn + date" where
  "next_day fecha = date_plus fecha ONE_DAY"

text \<open>\<open>now -= ONE_HOUR\<close>\<close>

definition minus_one_hour :: "datetime \<Rightarrow> pyexn + datetime" where
  "minus_one_hour now = datetime_plus now (- ONE_HOUR)"

text \<open>The generator: what it yields, and the exception that ends it early.\<close>

fun last_hours :: "datetime \<Rightarrow> nat \<Rightarrow> (int \<times> int \<times> int \<times> int) list \<times> pyexn option" where
  "last_hours now 0 = ([], None)"
| "last_hours now (Suc n) =
     (case minus_one_hour now of
        Inl e \<Rightarrow> ([(year now, month now, day now, hour now)], Some e)
      | Inr t \<Rightarrow>
          (case last_hours t n of
             (hs, e) \<Rightarrow> ((year now, month now, day now, hour now) # hs, e)))"

text \<open>\<open>x or y\<close> on numbers: a missing or zero argument is replaced.\<close>

definition or_else :: "int option \<Rightarrow> int \<Rightarrow> int" where
  "or_else x y = (case x of None \<Rightarrow> y | Some i \<Rightarrow> if i = 0 then y else i)"

definition new_date :: "date \<Rightarrow> int option \<Rightarrow> int option \<Rightarrow> int option \<Rightarrow> pyexn + date" where
  "new_date hoy y m d = Date (or_else y (year hoy)) (or_else m (month hoy)) (or_else d (day hoy))"

definition new_date_and_time :: "int \<Rightarrow> int \<Rightarrow> int \<Rightarrow> int \<Rightarrow> int \<Rightarrow> int \<Rightarrow> pyexn + datetime" where
  "new_date_and_time y m d h mi s = DateTime y m d h mi s"

definition next_month :: "date \<Rightarrow> date \<Rightarrow> pyexn + date" where
  "next_month hoy fecha =
     (let (y, m, d) = (year fecha, month fecha, day fecha);
          (y, m) = (if m < 12 then (y, m + 1) else (y + 1, 1));
          days = month_days y m;
          d = min days d
      in new_date hoy (Some y) (Some m) (Some d))"

section \<open>The two small splitters\<close>

fun map_ints :: "string list \<Rightarrow> pyexn + int list" where
  "map_ints [] = Inr []"
| "map_ints (w # ws) =
     (case int_of_str w of
        None \<Rightarrow> Inl (ValueError ''invalid literal for int() with base 10'')
      | Some i \<Rightarrow> (case map_ints ws of Inl e \<Rightarrow> Inl e | Inr is \<Rightarrow> Inr (i # is)))"

fun dmy_with :: "string \<Rightarrow> char list \<Rightarrow> pyexn + int list option" where
  "dmy_with strfecha [] = Inr None"
| "dmy_with strfecha (c # cs) =
     (if length (split_on c strfecha) > 1
      then (case split_on c strfecha of
              [d, m, y] \<Rightarrow> (case map_ints [y, m, d] of Inl e \<Rightarrow> Inl e | Inr is \<Rightarrow> Inr (Some is))
            | _ \<Rightarrow> Inl (ValueError ''values to unpack (expected 3)''))
      else dmy_with strfecha cs)"

definition dmy :: "string \<Rightarrow> pyexn + int list option" where
  "dmy strfecha = dmy_with strfecha [CHR ''.'', CHR ''/'', CHR ''-'']"

definition ymd :: "string \<Rightarrow> pyexn + int list" where
  "ymd strfecha = map_ints (split_on (CHR ''-'') strfecha)"

section \<open>The patterns\<close>

definition sep_chr :: "char \<Rightarrow> bool" where
  "sep_chr c \<longleftrightarrow> c \<in> set [CHR 0x5C, CHR ''/'', CHR '':'', CHR ''.'', CHR '','', CHR ''-'', CHR '' '']"

definition digs :: "string \<Rightarrow> nat \<Rightarrow> rx" where
  "digs name n = RGroup name (rep n is_dec)"

definition PAT_DMY :: rx where
  "PAT_DMY = rseq [RGroup ''day'' (RPlus is_dec), RPlus sep_chr, RGroup ''month'' (RPlus is_ascii_alnum),
     RChr sep_chr, digs ''year'' 4, REnd]"

definition PAT_ISO8601_DATE_EXT :: rx where
  "PAT_ISO8601_DATE_EXT = rseq [digs ''year'' 4, lit ''-'', digs ''month'' 2, lit ''-'', digs ''day'' 2, REnd]"

definition PAT_ISO8601_DATETIME_EXT_BASIC :: rx where
  "PAT_ISO8601_DATETIME_EXT_BASIC = rseq [digs ''year'' 4, lit ''-'', digs ''month'' 2, lit ''-'', digs ''day'' 2,
     RChr (\<lambda>c. c = CHR '' '' \<or> c = CHR ''T''), digs ''hour'' 2, lit '':'', digs ''minute'' 2, lit '':'',
     digs ''second'' 2,
     ROpt (rseq [RChr (\<lambda>c. c = CHR ''+'' \<or> c = CHR ''-''), rep 2 is_dec, lit '':'', rep 2 is_dec]), REnd]"

definition PAT_ISO8601_DATE_BASIC :: rx where
  "PAT_ISO8601_DATE_BASIC = rseq [digs ''year'' 4, digs ''month'' 2, digs ''day'' 2, REnd]"

definition PAT_ISO8601_DATETIME_BASIC :: rx where
  "PAT_ISO8601_DATETIME_BASIC = rseq [digs ''year'' 4, digs ''month'' 2, digs ''day'' 2,
     digs ''hour'' 2, digs ''minute'' 2, digs ''second'' 2, REnd]"

definition week_day :: rx where
  "week_day = ROpt (rseq [rep 3 is_word, lit '', ''])"

definition PAT_RFC822_DATETIME :: rx where
  "PAT_RFC822_DATETIME = rseq [week_day, RGroup ''day'' (RPlus is_dec), lit '' '', RGroup ''month'' (RPlus is_word),
     lit '' '', RGroup ''year'' (RPlus is_dec), lit '' '', RGroup ''hour'' (RPlus is_dec), lit '':'',
     RGroup ''minute'' (RPlus is_dec), lit '':'', RGroup ''second'' (RPlus is_dec), RPlus dot, REnd]"

definition PAT_RFC822_DATE :: rx where
  "PAT_RFC822_DATE = rseq [week_day, RGroup ''day'' (RPlus is_dec), lit '' '', RGroup ''month'' (RPlus is_word),
     lit '' '', RGroup ''year'' (RPlus is_dec), REnd]"

definition PAT_FECHA_COMPLETA :: rx where
  "PAT_FECHA_COMPLETA = rseq [RGroup ''day'' (RPlus is_dec), lit '' de '', RGroup ''month'' (RPlus is_ascii_alpha),
     lit '' de '', RGroup ''year'' (RPlus is_dec), REnd]"

definition PAT_FECHA_HORA :: rx where
  "PAT_FECHA_HORA = rseq [RGroup ''day'' (RPlus is_dec), lit ''-'', RGroup ''month'' (RPlus is_dec), lit ''-'',
     RGroup ''year'' (RPlus is_dec), lit '' '', digs ''hour'' 2, lit '':'', digs ''minute'' 2, lit '':'',
     digs ''second'' 2, RChr dot, RPlus is_dec, REnd]"

definition one_or_two :: "string \<Rightarrow> rx" where
  "one_or_two name = RGroup name (RCat (RChr is_dec) (ROpt (RChr is_dec)))"

definition slash_or_dash :: rx where
  "slash_or_dash = RChr (\<lambda>c. c = CHR ''/'' \<or> c = CHR ''-'')"

definition clock_part :: "rx list" where
  "clock_part = [lit '' '', RGroup ''hour'' (RPlus is_dec), lit '':'', RGroup ''minute'' (RPlus is_dec), lit '':'',
     RGroup ''second'' (RPlus is_dec), REnd]"

definition PAT_DDMMYYYYHHMMSS :: rx where
  "PAT_DDMMYYYYHHMMSS = rseq ([one_or_two ''day'', slash_or_dash, one_or_two ''month'', slash_or_dash,
     digs ''year'' 4] @ clock_part)"

definition PAT_DDMMYYHHMMSS :: rx where
  "PAT_DDMMYYHHMMSS = rseq ([one_or_two ''day'', slash_or_dash, one_or_two ''month'', slash_or_dash,
     digs ''year'' 2] @ clock_part)"

definition PARSERS :: "rx list" where
  "PARSERS = [PAT_DMY, PAT_ISO8601_DATETIME_EXT_BASIC, PAT_ISO8601_DATETIME_BASIC, PAT_ISO8601_DATE_BASIC,
     PAT_ISO8601_DATE_EXT, PAT_RFC822_DATETIME, PAT_RFC822_DATE, PAT_FECHA_COMPLETA, PAT_FECHA_HORA,
     PAT_DDMMYYYYHHMMSS, PAT_DDMMYYHHMMSS]"

definition REVERSE_MONTH :: "(string \<times> int) list" where
  "REVERSE_MONTH =
     [(''JAN'', 1), (''JANUARY'', 1), (''ENE'', 1), (''ENERO'', 1),
      (''FEB'', 2), (''FEBRUARY'', 2), (''FEBRERO'', 2),
      (''MAR'', 3), (''MARCH'', 3), (''MARZO'', 3),
      (''APR'', 4), (''APRIL'', 4), (''ABR'', 4), (''ABRIL'', 4),
      (''MAY'', 5), (''MAYO'', 5),
      (''JUN'', 6), (''JUNE'', 6), (''JUNIO'', 6),
      (''JUL'', 7), (''JULY'', 7), (''JULIO'', 7),
      (''AUG'', 8), (''AUGUST'', 8), (''AGO'', 8), (''AGOSTO'', 8),
      (''SEP'', 9), (''SEPTEMBER'', 9), (''SEPTIEMBRE'', 9),
      (''OCT'', 10), (''OCTOBER'', 10), (''OCTUBRE'', 10),
      (''NOV'', 11), (''NOVEMBER'', 11), (''NOVIEMBRE'', 11),
      (''DEC'', 12), (''DECEMBER'', 12), (''DIC'', 12), (''DICIEMBRE'', 12)]"

section \<open>The parsers\<close>

text \<open>\<open>int(match.group(name))\<close>; a missing group raises \<open>IndexError\<close>.\<close>

definition group_int :: "caps \<Rightarrow> string \<Rightarrow> pyexn + int" where
  "group_int g name =
     (case group g name of
        None \<Rightarrow> Inl (IndexError ''no such group'')
      | Some t \<Rightarrow>
          (case int_of_str t of
             None \<Rightarrow> Inl (ValueError ''invalid literal for int() with base 10'')
           | Some i \<Rightarrow> Inr i))"

definition str_isdigit :: "string \<Rightarrow> bool" where
  "str_isdigit s \<longleftrightarrow> s \<noteq> [] \<and> list_all is_digit s"

definition month_number :: "string \<Rightarrow> pyexn + int" where
  "month_number m =
     (if str_isdigit m
      then (case int_of_str m of
              None \<Rightarrow> Inl (ValueError ''invalid literal for int() with base 10'')
            | Some i \<Rightarrow> Inr i)
      else (case map_of REVERSE_MONTH (upper m) of
              None \<Rightarrow> Inl (KeyError (upper m))
            | Some i \<Rightarrow> Inr i))"

definition to_year_month_day :: "caps \<Rightarrow> pyexn + int \<times> int \<times> int" where
  "to_year_month_day g =
     (case group_int g ''day'' of Inl e \<Rightarrow> Inl e | Inr d \<Rightarrow>
      (case group g ''month'' of None \<Rightarrow> Inl (IndexError ''no such group'') | Some mt \<Rightarrow>
       (case month_number mt of Inl e \<Rightarrow> Inl e | Inr m \<Rightarrow>
        (case group_int g ''year'' of Inl e \<Rightarrow> Inl e | Inr y \<Rightarrow>
          Inr (if y \<le> 100 then y + 2000 else y, m, d)))))"

text \<open>
  The \<open>except IndexError\<close> keeps what was assigned before the missing group was read; other
  exceptions go on.
\<close>

definition to_hour_minute_second :: "caps \<Rightarrow> pyexn + int \<times> int \<times> int" where
  "to_hour_minute_second g =
     (case group_int g ''hour'' of
        Inl (IndexError _) \<Rightarrow> Inr (0, 0, 0) | Inl e \<Rightarrow> Inl e
      | Inr h \<Rightarrow>
          (case group_int g ''minute'' of
             Inl (IndexError _) \<Rightarrow> Inr (h, 0, 0) | Inl e \<Rightarrow> Inl e
           | Inr mi \<Rightarrow>
               (case group_int g ''second'' of
                  Inl (IndexError _) \<Rightarrow> Inr (h, mi, 0) | Inl e \<Rightarrow> Inl e
                | Inr s \<Rightarrow> Inr (h, mi, s))))"

fun first_match :: "rx list \<Rightarrow> string \<Rightarrow> caps option" where
  "first_match [] texto = None"
| "first_match (patron # patrones) texto =
     (case rx_match patron texto of Some g \<Rightarrow> Some g | None \<Rightarrow> first_match patrones texto)"

definition escape_chr :: "char \<Rightarrow> string" where
  "escape_chr c =
     (if c = CHR ''&'' then ''&amp;'' else if c = CHR ''<'' then ''&lt;''
      else if c = CHR ''>'' then ''&gt;'' else if c = CHR 0x22 then ''&quot;''
      else if c = CHR 0x27 then ''&#x27;'' else [c])"

definition html_escape :: "string \<Rightarrow> string" where
  "html_escape s = concat (map escape_chr s)"

definition parse_date :: "string \<Rightarrow> pyexn + date option" where
  "parse_date texto =
     (let texto = strip texto
      in if texto = [] then Inr None
         else case first_match PARSERS texto of
           None \<Rightarrow> Inl (ValueError (''Formato de fecha incorrecto: '' @ [CHR 0x22] @ html_escape texto @ [CHR 0x22]))
         | Some g \<Rightarrow>
             (case to_year_month_day g of
                Inl e \<Rightarrow> Inl e
              | Inr (y, m, d) \<Rightarrow> (case Date y m d of Inl e \<Rightarrow> Inl e | Inr dt \<Rightarrow> Inr (Some dt))))"

definition parse_datetime :: "string \<Rightarrow> pyexn + datetime option" where
  "parse_datetime texto =
     (let texto = strip texto
      in if texto = [] then Inr None
         else case first_match PARSERS texto of
           None \<Rightarrow> Inl (ValueError (''Formato de fecha/hora incorrecto: '' @ [CHR 0x22] @ html_escape texto @ [CHR 0x22]))
         | Some g \<Rightarrow>
             (case to_year_month_day g of
                Inl e \<Rightarrow> Inl e
              | Inr (y, m, d) \<Rightarrow>
                  (case to_hour_minute_second g of
                     Inl e \<Rightarrow> Inl e
                   | Inr (h, mi, s) \<Rightarrow>
                       (case DateTime y m d h mi s of Inl e \<Rightarrow> Inl e | Inr dt \<Rightarrow> Inr (Some dt)))))"

section \<open>Dates in ISO 8601 text\<close>

definition dig :: "int \<Rightarrow> char" where
  "dig i = char_of (48 + nat (i mod 10))"

definition pad2 :: "int \<Rightarrow> string" where
  "pad2 i = [dig (i div 10), dig i]"

definition pad4 :: "int \<Rightarrow> string" where
  "pad4 i = [dig (i div 1000), dig (i div 100), dig (i div 10), dig i]"

definition iso_date :: "date \<Rightarrow> string" where
  "iso_date d = pad4 (year d) @ ''-'' @ pad2 (month d) @ ''-'' @ pad2 (day d)"

definition iso_datetime :: "char \<Rightarrow> datetime \<Rightarrow> string" where
  "iso_datetime sep t = pad4 (year t) @ ''-'' @ pad2 (month t) @ ''-'' @ pad2 (day t) @ [sep] @
     pad2 (hour t) @ '':'' @ pad2 (minute t) @ '':'' @ pad2 (second t)"

lemma is_dec_dig: "is_dec (dig i)"
  by (simp add: dig_def)

lemma code_dig: "code (dig i) = 48 + nat (i mod 10)"
  by (simp add: dig_def)

lemma int_of_pad:
  "0 \<le> i \<Longrightarrow> i < 100 \<Longrightarrow> int_of_str (pad2 i) = Some i"
  "0 \<le> i \<Longrightarrow> i < 10000 \<Longrightarrow> int_of_str (pad4 i) = Some i"
proof -
  have d: "list_all is_dec (pad2 i)" "list_all is_dec (pad4 i)" "pad2 i \<noteq> []" "pad4 i \<noteq> []"
    by (simp_all add: pad2_def pad4_def is_dec_dig)
  show "int_of_str (pad2 i) = Some i" if "0 \<le> i" "i < 100"
    using that unfolding int_of_str_digits [OF d(1,3)] by (simp add: pad2_def code_dig) presburger
  show "int_of_str (pad4 i) = Some i" if "0 \<le> i" "i < 10000"
  proof -
    have "int (digits_value (pad4 i) 0) =
        1000 * (i div 1000 mod 10) + 100 * (i div 100 mod 10) + 10 * (i div 10 mod 10) + i mod 10"
      by (simp add: pad4_def code_dig)
    moreover have "i = 10 * (i div 10) + i mod 10" by simp
    moreover have "i div 10 = 10 * (i div 100) + i div 10 mod 10"
      using mult_div_mod_eq [of 10 "i div 10"] zdiv_zmult2_eq [of 10 i 10] by simp
    moreover have "i div 100 = 10 * (i div 1000) + i div 100 mod 10"
      using mult_div_mod_eq [of 10 "i div 100"] zdiv_zmult2_eq [of 10 i 100] by simp
    moreover have "i div 1000 mod 10 = i div 1000" using that by simp
    ultimately have "int (digits_value (pad4 i) 0) = i" by linarith
    then show ?thesis by (simp add: int_of_str_digits [OF d(2,4)])
  qed
qed

lemma runs_rep:
  "runs (rep n p) (g, s) = (if n \<le> length s \<and> list_all p (take n s) then [(g, drop n s)] else [])"
proof -
  have "list_all2 (\<lambda>p c. p c) (replicate n p) u \<longleftrightarrow> length u = n \<and> list_all p u" for u
    by (induction u arbitrary: n) (case_tac [2] n, auto)
  then show ?thesis by (simp add: rep_def runs_chars flip: map_replicate)
qed

lemma runs_digs:
  "runs (digs name n) (g, s) =
     (if n \<le> length s \<and> list_all is_dec (take n s) then [((name, take n s) # g, drop n s)] else [])"
  by (simp add: digs_def runs_rep)

lemma runs_lit1: "runs (lit [c]) (g, s) = map (Pair g) (chr_runs (\<lambda>x. x = c) s)"
  by (simp add: lit_def)

lemma dec_sep: "is_dec c \<Longrightarrow> \<not> sep_chr c" "is_dec c \<Longrightarrow> is_ascii_alnum c"
  by (auto simp: is_dec_def sep_chr_def is_ascii_alnum_def code_def Let_def)

lemma sep_dash: "sep_chr (CHR ''-'')" "\<not> is_ascii_alnum (CHR ''-'')" "\<not> is_dec (CHR ''-'')"
  by code_simp+

lemmas runs_iso = runs_rseq_Cons runs_digs runs_lit1 dec_sep sep_dash at_end_def numeral_eq_Suc

text \<open>The patterns on eight digits in the shape of a date, and on fourteen in that of a date and a time.\<close>

lemma iso_date_match:
  assumes "list_all is_dec [a, b, c, d, e, f, g, h]"
  shows "first_match PARSERS [a, b, c, d, CHR ''-'', e, f, CHR ''-'', g, h] =
     Some [(''day'', [g, h]), (''month'', [e, f]), (''year'', [a, b, c, d])]"
proof -
  let ?s = "[a, b, c, d, CHR ''-'', e, f, CHR ''-'', g, h]"
  have "rx_match PAT_DMY ?s = None"
    using assms unfolding rx_match_None_iff PAT_DMY_def by (simp add: runs_iso del: rseq.simps(2,3))
  moreover have "rx_match PAT_ISO8601_DATETIME_EXT_BASIC ?s = None" "rx_match PAT_ISO8601_DATETIME_BASIC ?s = None"
    "rx_match PAT_ISO8601_DATE_BASIC ?s = None"
    using assms unfolding rx_match_None_iff PAT_ISO8601_DATETIME_EXT_BASIC_def
      PAT_ISO8601_DATETIME_BASIC_def PAT_ISO8601_DATE_BASIC_def
    by (simp_all add: runs_iso del: rseq.simps(2,3))
  moreover have "rx_match PAT_ISO8601_DATE_EXT ?s = Some [(''day'', [g, h]), (''month'', [e, f]), (''year'', [a, b, c, d])]"
    using assms unfolding rx_match_def PAT_ISO8601_DATE_EXT_def by (simp add: runs_iso del: rseq.simps(2,3))
  ultimately show ?thesis by (simp add: PARSERS_def)
qed

lemma iso_datetime_match:
  assumes "list_all is_dec [a, b, c, d, e, f, g, h, i, j, k, l, m, n]" "sep = CHR '' '' \<or> sep = CHR ''T''"
  shows "first_match PARSERS
      [a, b, c, d, CHR ''-'', e, f, CHR ''-'', g, h, sep, i, j, CHR '':'', k, l, CHR '':'', m, n] =
     Some [(''second'', [m, n]), (''minute'', [k, l]), (''hour'', [i, j]),
       (''day'', [g, h]), (''month'', [e, f]), (''year'', [a, b, c, d])]"
proof -
  let ?s = "[a, b, c, d, CHR ''-'', e, f, CHR ''-'', g, h, sep, i, j, CHR '':'', k, l, CHR '':'', m, n]"
  have sep: "\<not> is_dec sep"
    using assms(2) by (elim disjE) (simp_all add: is_dec_def code_def Let_def)
  then have "rx_match PAT_DMY ?s = None"
    using assms unfolding rx_match_None_iff PAT_DMY_def by (simp add: runs_iso del: rseq.simps(2,3))
  moreover have "rx_match PAT_ISO8601_DATETIME_EXT_BASIC ?s = Some [(''second'', [m, n]), (''minute'', [k, l]),
       (''hour'', [i, j]), (''day'', [g, h]), (''month'', [e, f]), (''year'', [a, b, c, d])]"
    using assms unfolding rx_match_def PAT_ISO8601_DATETIME_EXT_BASIC_def
    by (simp add: runs_iso del: rseq.simps(2,3))
  ultimately show ?thesis by (simp add: PARSERS_def)
qed

lemma strip_digits: "is_dec (hd s) \<Longrightarrow> is_dec (last s) \<Longrightarrow> strip s = s"
  by (intro strip_id) (simp add: is_dec_not_space)

lemma month_days_range: "28 \<le> month_days y m" "month_days y m \<le> 31"
  by (auto simp: month_days_def)

lemma valid_date_bounds:
  assumes "valid_date d"
  shows "0 \<le> year d" "year d < 10000" "0 \<le> month d" "month d < 100" "0 \<le> day d" "day d < 100"
  using assms month_days_range(2) [of "year d" "month d"] by (auto simp: valid_date_def)

lemma Date_valid: "valid_date d \<Longrightarrow> Date (year d) (month d) (day d) = Inr \<lparr>year = year d, month = month d, day = day d\<rparr>"
  using valid_date_bounds [of d] by (auto simp: Date_def valid_date_def c_int_def)

lemma parse_iso_date:
  assumes "valid_date d" "100 < year d"
  shows "parse_date (iso_date d) = Inr (Some \<lparr>year = year d, month = month d, day = day d\<rparr>)"
proof -
  have s: "iso_date d = [dig (year d div 1000), dig (year d div 100), dig (year d div 10), dig (year d), CHR ''-'',
      dig (month d div 10), dig (month d), CHR ''-'', dig (day d div 10), dig (day d)]"
    by (simp add: iso_date_def pad2_def pad4_def)
  have "strip (iso_date d) = iso_date d" by (rule strip_digits) (simp_all add: s is_dec_dig)
  moreover have "first_match PARSERS (iso_date d) =
      Some [(''day'', pad2 (day d)), (''month'', pad2 (month d)), (''year'', pad4 (year d))]"
    unfolding s by (simp add: iso_date_match is_dec_dig pad2_def pad4_def)
  moreover have "str_isdigit (pad2 (month d))"
    by (simp add: str_isdigit_def pad2_def is_digit_def is_dec_dig)
  moreover have "iso_date d \<noteq> []" by (simp add: s)
  ultimately show ?thesis
    using assms valid_date_bounds [OF assms(1)]
    by (simp add: parse_date_def to_year_month_day_def group_int_def group_def month_number_def int_of_pad
        Date_valid Let_def)
qed

lemma parse_iso_datetime:
  assumes "valid_date (date_of t)" "100 < year t" "valid_time (hour t) (minute t) (second t)"
    and "sep = CHR '' '' \<or> sep = CHR ''T''"
  shows "parse_datetime (iso_datetime sep t) = Inr (Some (t\<lparr>microsecond := 0\<rparr>))"
proof -
  have s: "iso_datetime sep t = [dig (year t div 1000), dig (year t div 100), dig (year t div 10), dig (year t), CHR ''-'',
      dig (month t div 10), dig (month t), CHR ''-'', dig (day t div 10), dig (day t), sep,
      dig (hour t div 10), dig (hour t), CHR '':'', dig (minute t div 10), dig (minute t), CHR '':'',
      dig (second t div 10), dig (second t)]"
    by (simp add: iso_datetime_def pad2_def pad4_def)
  have "strip (iso_datetime sep t) = iso_datetime sep t" by (rule strip_digits) (simp_all add: s is_dec_dig)
  moreover have "first_match PARSERS (iso_datetime sep t) =
      Some [(''second'', pad2 (second t)), (''minute'', pad2 (minute t)), (''hour'', pad2 (hour t)),
        (''day'', pad2 (day t)), (''month'', pad2 (month t)), (''year'', pad4 (year t))]"
    unfolding s using assms(4) by (simp add: iso_datetime_match is_dec_dig pad2_def pad4_def)
  moreover have "str_isdigit (pad2 (month t))"
    by (simp add: str_isdigit_def pad2_def is_digit_def is_dec_dig)
  moreover have "iso_datetime sep t \<noteq> []" by (simp add: s)
  moreover have "DateTime (year t) (month t) (day t) (hour t) (minute t) (second t) = Inr (t\<lparr>microsecond := 0\<rparr>)"
    using Date_valid [OF assms(1)] assms(3) by (auto simp: DateTime_def date_of_def valid_time_def c_int_def)
  ultimately show ?thesis
    using assms valid_date_bounds [OF assms(1)]
    by (simp add: parse_datetime_def to_year_month_day_def to_hour_minute_second_def group_int_def group_def
        month_number_def int_of_pad date_of_def valid_time_def Let_def)
qed

lemma parse_date_valid: "parse_date s = Inr (Some d) \<Longrightarrow> valid_date d"
  by (auto simp: parse_date_def Date_def valid_date_def Let_def split: option.splits sum.splits if_splits)

lemma parse_date_None: "parse_date s = Inr None \<longleftrightarrow> strip s = []"
  by (auto simp: parse_date_def Let_def split: option.splits sum.splits)

section \<open>The calendar\<close>

lemma next_month_spec:
  assumes "valid_date d" "year d < 9999 \<or> month d < 12"
  shows "\<exists>d'. next_month hoy d = Inr d' \<and> valid_date d' \<and>
     year d' * 12 + month d' = year d * 12 + month d + 1 \<and> day d' = min (day d) (month_days (year d') (month d'))"
proof -
  define y m where "y = (if month d < 12 then year d else year d + 1)" and "m = (if month d < 12 then month d + 1 else 1)"
  define d' where "d' = \<lparr>year = y, month = m, day = min (day d) (month_days y m)\<rparr>"
  have range: "1 \<le> y" "y \<le> 9999" "1 \<le> m" "m \<le> 12" "y * 12 + m = year d * 12 + month d + 1"
    using assms by (auto simp: y_def m_def valid_date_def)
  have "1 \<le> day d" using assms(1) by (simp add: valid_date_def)
  then have pos: "1 \<le> day d'" using month_days_range(1) [of y m] by (simp add: d'_def)
  then have valid: "valid_date d'" using range(1-4) by (simp add: valid_date_def d'_def)
  have "next_month hoy d = new_date hoy (Some y) (Some m) (Some (day d'))"
    by (simp add: next_month_def y_def m_def d'_def Let_def min.commute)
  also have "\<dots> = Date y m (day d')"
    using range(1,3) pos by (auto simp: new_date_def or_else_def)
  also have "\<dots> = Inr d'" using Date_valid [OF valid] by (simp add: d'_def)
  finally show ?thesis using valid range(5) by (intro exI [of _ d']) (simp add: d'_def)
qed

lemma next_month_end: "valid_date d \<Longrightarrow> year d = 9999 \<Longrightarrow> month d = 12 \<Longrightarrow>
    next_month hoy d = Inl (ValueError ''year is out of range'')"
  using month_days_range [of 10000 1] valid_date_bounds [of d]
  by (auto simp: next_month_def new_date_def or_else_def Date_def valid_date_def c_int_def Let_def)

text \<open>The proleptic Gregorian ordinal of a date, \<open>date.toordinal\<close>.\<close>

definition days_before_year :: "int \<Rightarrow> int" where
  "days_before_year y = (let z = y - 1 in z * 365 + z div 4 - z div 100 + z div 400)"

definition days_before_month :: "int \<Rightarrow> int \<Rightarrow> int" where
  "days_before_month y m = sum_list (map (month_days y) [1..m - 1])"

definition ordinal :: "date \<Rightarrow> int" where
  "ordinal d = days_before_year (year d) + days_before_month (year d) (month d) + day d"

lemma days_before_month_Suc: "1 \<le> m \<Longrightarrow> days_before_month y (m + 1) = days_before_month y m + month_days y m"
  by (simp add: days_before_month_def upto_rec2)

lemma div_step: "0 < k \<Longrightarrow> (y::int) div k = (y - 1) div k + (if y mod k = 0 then 1 else 0)"
proof -
  assume k: "0 < k"
  define q r where "q = y div k" and "r = y mod k"
  have y: "y = k * q + r" "0 \<le> r" "r < k" using k by (simp_all add: q_def r_def)
  have "(y - 1) div k = q - (if r = 0 then 1 else 0)"
  proof (cases "r = 0")
    case True
    with y k show ?thesis by (intro int_div_pos_eq [where r = "k - 1"]) (simp_all add: algebra_simps)
  next
    case False
    with y k show ?thesis by (intro int_div_pos_eq [where r = "r - 1"]) simp_all
  qed
  then show ?thesis by (simp add: q_def r_def)
qed

lemma leap_sum:
  "(a::int) = a' + (if p then 1 else 0) \<Longrightarrow> b = b' + (if q then 1 else 0) \<Longrightarrow> c = c' + (if r then 1 else 0) \<Longrightarrow>
     (r \<Longrightarrow> q) \<Longrightarrow> (q \<Longrightarrow> p) \<Longrightarrow>
     y * 365 + a - b + c = (y - 1) * 365 + a' - b' + c' + (if p \<and> (\<not> q \<or> r) then 366 else 365)"
  by (cases p; cases q; cases r) simp_all

lemma days_before_next_year: "days_before_year (y + 1) = days_before_year y + (if is_leap y then 366 else 365)"
proof -
  have dvd: "y mod 400 = 0 \<Longrightarrow> y mod 100 = 0" "y mod 100 = 0 \<Longrightarrow> y mod 4 = 0"
    using mod_mod_cancel [of 100 400 y] mod_mod_cancel [of 4 100 y] by simp_all
  have "days_before_year (y + 1) = y * 365 + y div 4 - y div 100 + y div 400"
    "days_before_year y = (y - 1) * 365 + (y - 1) div 4 - (y - 1) div 100 + (y - 1) div 400"
    by (simp_all add: days_before_year_def Let_def)
  moreover have "y div 4 = (y - 1) div 4 + (if y mod 4 = 0 then 1 else 0)"
    "y div 100 = (y - 1) div 100 + (if y mod 100 = 0 then 1 else 0)"
    "y div 400 = (y - 1) div 400 + (if y mod 400 = 0 then 1 else 0)"
    by (rule div_step, simp)+
  note leap_sum [OF this dvd, of y]
  ultimately show ?thesis by (simp only: is_leap_def)
qed

lemma days_before_end: "days_before_month y 12 + 31 = (if is_leap y then 366 else 365)"
  by (simp add: days_before_month_def month_days_def upto_rec1)

lemma date_succ_ordinal:
  assumes "valid_date d" "date_succ d = Inr d'"
  shows "valid_date d' \<and> ordinal d' = ordinal d + 1"
proof -
  have "days_before_month y 1 = 0" for y by (simp add: days_before_month_def)
  moreover have "days_before_month (year d) 13 = days_before_month (year d) 12 + 31"
    using days_before_month_Suc [of 12 "year d"] by (simp add: month_days_def)
  moreover have "day d = month_days (year d) (month d)" if "\<not> day d < month_days (year d) (month d)"
    using that assms(1) by (simp add: valid_date_def)
  ultimately show ?thesis
    using assms days_before_month_Suc [of "month d" "year d"] days_before_next_year [of "year d"]
      days_before_end [of "year d"] month_days_range [of "year d" "month d + 1"]
    by (auto simp: date_succ_def valid_date_def ordinal_def month_days_def [of _ 12] month_days_def [of _ 1]
        split: if_splits)
qed

lemma date_succ_end: "valid_date d \<Longrightarrow> date_succ d = Inl e \<longleftrightarrow>
    e = OverflowError ''date value out of range'' \<and> year d = 9999 \<and> month d = 12 \<and> day d = 31"
  by (auto simp: date_succ_def valid_date_def month_days_def)

lemma next_day_succ: "next_day d = date_succ d"
  by (simp add: next_day_def date_plus_def ONE_DAY_def TimeDelta_def date_plus_days_def split: sum.split)

lemma date_pred_succ: "valid_date d \<Longrightarrow> date_pred d = Inr d' \<Longrightarrow> valid_date d' \<and> date_succ d' = Inr \<lparr>year = year d, month = month d, day = day d\<rparr>"
  using month_days_range [of "year d" "month d - 1"]
  by (auto simp: date_pred_def date_succ_def valid_date_def month_days_def [of _ 12] split: if_splits)

lemma valid_date_fields [simp]: "valid_date \<lparr>year = year d, month = month d, day = day d\<rparr> = valid_date d"
  by (simp add: valid_date_def)

lemma date_pred_ordinal:
  assumes "valid_date d" "date_pred d = Inr d'"
  shows "valid_date d' \<and> ordinal d' = ordinal d - 1"
  using date_pred_succ [OF assms] date_succ_ordinal [of d'] by (auto simp: ordinal_def)

text \<open>Hours on one axis.\<close>

definition hour_index :: "int \<times> int \<times> int \<times> int \<Rightarrow> int" where
  "hour_index = (\<lambda>(y, m, d, h). 24 * ordinal \<lparr>year = y, month = m, day = d\<rparr> + h)"

text \<open>The fields of a time of day, out of its microseconds.\<close>

definition valid_datetime :: "datetime \<Rightarrow> bool" where
  "valid_datetime t \<longleftrightarrow> valid_date (date_of t) \<and> valid_time (hour t) (minute t) (second t) \<and>
     0 \<le> microsecond t \<and> microsecond t < 1000000"

lemma clock_fields:
  assumes "valid_time h mi se" "0 \<le> us" "us < 1000000"
  defines "n \<equiv> ((h * 60 + mi) * 60 + se) * 1000000 + us"
  shows "n div 3600000000 = h" "n mod 3600000000 div 60000000 = mi" "n mod 60000000 div 1000000 = se"
    "n mod 1000000 = us" "0 \<le> n" "n < 86400000000"
proof -
  have b: "0 \<le> h" "h \<le> 23" "0 \<le> mi" "mi \<le> 59" "0 \<le> se" "se \<le> 59"
    using assms(1) by (simp_all add: valid_time_def)
  show "n div 3600000000 = h"
    by (rule int_div_pos_eq [where r = "mi * 60000000 + se * 1000000 + us"]) (use b assms(2,3) in \<open>simp_all add: n_def\<close>)
  have "n mod 3600000000 = mi * 60000000 + se * 1000000 + us"
    by (rule int_mod_pos_eq [where q = h]) (use b assms(2,3) in \<open>simp_all add: n_def\<close>)
  then show "n mod 3600000000 div 60000000 = mi"
    by (intro int_div_pos_eq [where r = "se * 1000000 + us"]) (use b assms(2,3) in simp_all)
  have "n mod 60000000 = se * 1000000 + us"
    by (rule int_mod_pos_eq [where q = "h * 60 + mi"]) (use b assms(2,3) in \<open>simp_all add: n_def\<close>)
  then show "n mod 60000000 div 1000000 = se"
    by (intro int_div_pos_eq [where r = us]) (use assms(2,3) in simp_all)
  show "n mod 1000000 = us"
    by (rule int_mod_pos_eq [where q = "(h * 60 + mi) * 60 + se"]) (use assms(2,3) in \<open>simp_all add: n_def\<close>)
  show "0 \<le> n" "n < 86400000000" using b assms(2,3) by (simp_all add: n_def)
qed

text \<open>One hour less: the hour before it on the same day, or the last one of the day before.\<close>

lemma minus_one_hour_eq:
  assumes "valid_datetime t"
  shows "minus_one_hour t =
    (if 0 < hour t then Inr (t\<lparr>hour := hour t - 1\<rparr>)
     else case date_pred (date_of t) of
            Inl e \<Rightarrow> Inl e
          | Inr d \<Rightarrow> Inr (t\<lparr>year := year d, month := month d, day := day d, hour := 23\<rparr>))"
proof -
  have t: "valid_time (hour t) (minute t) (second t)" "0 \<le> microsecond t" "microsecond t < 1000000"
    using assms by (simp_all add: valid_datetime_def)
  define h where "h = (if 0 < hour t then hour t - 1 else 23)"
  define n where "n = ((h * 60 + minute t) * 60 + second t) * 1000000 + microsecond t"
  have "valid_time h (minute t) (second t)" using t(1) by (auto simp: valid_time_def h_def)
  note f = clock_fields [OF this t(2,3), folded n_def]
  have sum: "time_of_day t + - ONE_HOUR = (if 0 < hour t then 0 else -1) * 86400000000 + n"
    using t(1) by (auto simp: time_of_day_def ONE_HOUR_def TimeDelta_def n_def h_def valid_time_def)
  have rest: "(time_of_day t + - ONE_HOUR) mod 86400000000 = n"
    by (rule int_mod_pos_eq [where q = "if 0 < hour t then 0 else -1"]) (use f(5,6) sum in simp_all)
  have day: "(time_of_day t + - ONE_HOUR) div 86400000000 = (if 0 < hour t then 0 else -1)"
    by (rule int_div_pos_eq [where r = n]) (use f(5,6) sum in simp_all)
  show ?thesis
    unfolding minus_one_hour_def datetime_plus_def Let_def rest day f(1-4)
    by (auto simp: date_plus_days_def date_of_def h_def split: sum.split)
qed

lemma minus_one_hour_index:
  assumes "valid_datetime t" "minus_one_hour t = Inr t'"
  shows "valid_datetime t'"
    "hour_index (year t', month t', day t', hour t') = hour_index (year t, month t, day t, hour t) - 1"
  using assms date_pred_ordinal [of "date_of t"]
  by (auto simp: minus_one_hour_eq valid_datetime_def valid_time_def date_of_def hour_index_def ordinal_def
      split: if_splits sum.splits)

lemma minus_one_hour_end:
  assumes "valid_datetime t" "minus_one_hour t = Inl e"
  shows "e = OverflowError ''date value out of range''" "(year t, month t, day t, hour t) = (1, 1, 1, 0)"
  using assms
  by (auto simp: minus_one_hour_eq date_pred_def date_of_def valid_datetime_def valid_time_def valid_date_def
      split: if_splits sum.splits)

lemma last_hours_indices:
  assumes "valid_datetime t" "last_hours t n = (hs, e)"
  shows "map hour_index hs = map (\<lambda>i. hour_index (year t, month t, day t, hour t) - int i) [0..<length hs] \<and>
    (case e of
       None \<Rightarrow> length hs = n
     | Some x \<Rightarrow> x = OverflowError ''date value out of range'' \<and> length hs \<le> n \<and> last hs = (1, 1, 1, 0))"
  using assms
proof (induction n arbitrary: t hs)
  case (Suc n)
  show ?case
  proof (cases "minus_one_hour t")
    case (Inl x)
    with Suc.prems minus_one_hour_end [OF Suc.prems(1) Inl] show ?thesis by auto
  next
    case (Inr t')
    note step = minus_one_hour_index [OF Suc.prems(1) Inr]
    obtain hs' where hs: "last_hours t' n = (hs', e)" "hs = (year t, month t, day t, hour t) # hs'"
      using Suc.prems(2) Inr by (auto split: prod.splits)
    have "map (\<lambda>i. x - int i) [0..<Suc k] = x # map (\<lambda>i. x - 1 - int i) [0..<k]" for x k
      by (simp add: upt_conv_Cons map_Suc_upt [symmetric] comp_def del: upt_Suc)
    moreover have "hs' \<noteq> []" if "e = Some x" for x using hs(1) that by (cases n) (auto split: sum.splits prod.splits)
    ultimately show ?thesis using Suc.IH [OF step(1) hs(1)] step(2) hs(2) by (auto split: option.splits)
  qed
qed simp

section \<open>Timestamps\<close>

text \<open>
  \<open>datetime.fromtimestamp\<close>: seconds since the epoch, rounded to microseconds (the product is
  taken as exact), in the local time of the machine, whose distance to UTC in seconds at a
  given second is an argument. Outside the years 1 to 9999 it raises.
\<close>

definition from_timestamp :: "(int \<Rightarrow> int) \<Rightarrow> rat \<Rightarrow> pyexn + datetime" where
  "from_timestamp utcoffset num =
     (let us = round_half_even (num * 1000000);
          local_secs = us div 1000000 + utcoffset (us div 1000000);
          rest = local_secs mod 86400
      in case date_plus_days (date_of EPOCH) (local_secs div 86400) of
           Inl e \<Rightarrow> Inl (ValueError ''year is out of range'')
         | Inr d \<Rightarrow> Inr \<lparr>year = year d, month = month d, day = day d, hour = rest div 3600,
                       minute = rest mod 3600 div 60, second = rest mod 60, microsecond = us mod 1000000\<rparr>)"

text \<open>\<open>timezone\<close> stands for the constructor of \<open>pytz\<close>.\<close>

definition get_zone_info :: "(string \<Rightarrow> pyexn + 'zone) \<Rightarrow> string \<Rightarrow> pyexn + 'zone" where
  "get_zone_info timezone TIME_ZONE = timezone TIME_ZONE"

lemma days_later_ordinal: "valid_date d \<Longrightarrow> days_later n d = Inr d' \<Longrightarrow> valid_date d' \<and> ordinal d' = ordinal d + int n"
proof (induction n arbitrary: d)
  case (Suc n)
  from Suc.prems(2) obtain e where e: "date_succ d = Inr e" "days_later n e = Inr d'" by (auto split: sum.splits)
  with date_succ_ordinal [OF Suc.prems(1) e(1)] Suc.IH [of e] show ?case by simp
qed simp

lemma days_earlier_ordinal: "valid_date d \<Longrightarrow> days_earlier n d = Inr d' \<Longrightarrow> valid_date d' \<and> ordinal d' = ordinal d - int n"
proof (induction n arbitrary: d)
  case (Suc n)
  from Suc.prems(2) obtain e where e: "date_pred d = Inr e" "days_earlier n e = Inr d'" by (auto split: sum.splits)
  with date_pred_ordinal [OF Suc.prems(1) e(1)] Suc.IH [of e] show ?case by simp
qed simp

lemma date_plus_days_ordinal:
  assumes "valid_date d" "date_plus_days d n = Inr d'"
  shows "valid_date d' \<and> ordinal d' = ordinal d + n"
proof (cases "0 \<le> n")
  case True
  with assms(2) have "days_later (nat n) d = Inr d'" by (simp only: date_plus_days_def if_True)
  from days_later_ordinal [OF assms(1) this] True show ?thesis by (simp only: int_nat_eq if_True simp_thms)
next
  case False
  with assms(2) have "days_earlier (nat (- n)) d = Inr d'" by (simp only: date_plus_days_def if_False)
  from days_earlier_ordinal [OF assms(1) this] False show ?thesis by linarith
qed

text \<open>The microseconds of a point in time since the epoch, on the calendar.\<close>

definition micros_of :: "datetime \<Rightarrow> int" where
  "micros_of t = (((ordinal (date_of t) - ordinal (date_of EPOCH)) * 24 + hour t) * 3600 + minute t * 60 + second t) * 1000000 +
     microsecond t"

lemma valid_epoch: "valid_date (date_of EPOCH)"
  by code_simp

lemma from_timestamp_micros:
  assumes "from_timestamp utcoffset num = Inr t"
  defines "us \<equiv> round_half_even (num * 1000000)"
  shows "valid_date (date_of t)" "valid_time (hour t) (minute t) (second t)"
    "micros_of t = us + utcoffset (us div 1000000) * 1000000"
proof -
  define loc where "loc = us div 1000000 + utcoffset (us div 1000000)"
  define rest where "rest = loc mod 86400"
  from assms(1) obtain d where d: "date_plus_days (date_of EPOCH) (loc div 86400) = Inr d"
      and t: "t = \<lparr>year = year d, month = month d, day = day d, hour = rest div 3600,
                 minute = rest mod 3600 div 60, second = rest mod 60, microsecond = us mod 1000000\<rparr>"
    by (auto simp: from_timestamp_def Let_def us_def loc_def rest_def split: sum.splits)
  note o = date_plus_days_ordinal [OF valid_epoch d]
  have date: "date_of t = \<lparr>year = year d, month = month d, day = day d\<rparr>" using t by (simp add: date_of_def)
  then show "valid_date (date_of t)" using o by simp
  have rest: "0 \<le> rest" "rest < 86400" by (simp_all add: rest_def)
  have "rest div 3600 \<le> 86399 div 3600" "rest mod 3600 div 60 \<le> 3599 div 60"
    using rest pos_mod_bound [of 3600 rest] by (auto intro!: zdiv_mono1)
  then show "valid_time (hour t) (minute t) (second t)"
    using t rest pos_mod_bound [of 60 rest] by (simp add: valid_time_def pos_imp_zdiv_nonneg_iff)
  have "rest div 3600 * 3600 + rest mod 3600 = rest" "rest mod 3600 div 60 * 60 + rest mod 3600 mod 60 = rest mod 3600"
    by (rule div_mult_mod_eq)+
  moreover have "rest mod 3600 mod 60 = rest mod 60" by (rule mod_mod_cancel) simp
  ultimately have hms: "(rest div 3600) * 3600 + (rest mod 3600 div 60) * 60 + rest mod 60 = rest" by linarith
  have "ordinal (date_of t) = ordinal d" using date by (simp add: ordinal_def)
  with o have "ordinal (date_of t) - ordinal (date_of EPOCH) = loc div 86400" by linarith
  moreover have "hour t = rest div 3600" "minute t = rest mod 3600 div 60" "second t = rest mod 60"
    "microsecond t = us mod 1000000" by (simp_all only: t datetime.select_convs)
  ultimately have "micros_of t = (((loc div 86400) * 24 + rest div 3600) * 3600 + rest mod 3600 div 60 * 60 + rest mod 60) * 1000000 +
      us mod 1000000"
    by (simp only: micros_of_def)
  also have "\<dots> = ((loc div 86400) * 86400 + ((rest div 3600) * 3600 + (rest mod 3600 div 60) * 60 + rest mod 60)) * 1000000 +
      us mod 1000000"
    by (simp add: algebra_simps)
  also have "\<dots> = loc * 1000000 + us mod 1000000" unfolding hms by (simp add: rest_def)
  also have "\<dots> = us + utcoffset (us div 1000000) * 1000000" by (simp add: loc_def algebra_simps)
  finally show "micros_of t = us + utcoffset (us div 1000000) * 1000000" .
qed

end
