(* ===== verification/Plugins.thy ===== *)
theory Plugins
  imports Core
begin

text \<open>
  The plug-ins: their registry (\<open>plugins/__init__.py\<close>), the two that read a value from a page
  (\<open>get_title.py\<close>, \<open>get_version.py\<close>) and the one that sends it to a search index
  (\<open>index_site.py\<close>), with the index it is for (\<open>search.py\<close>). What BeautifulSoup, the import
  machinery and the search service do are arguments.
\<close>

section \<open>The registry\<close>

record registry =
  modules :: "(string \<times> plugin option) list"
  initialized :: bool

definition registry_init :: "string list \<Rightarrow> registry" where
  "registry_init stems =
     \<lparr>modules = map (\<lambda>stem. (stem, None)) (filter (\<lambda>stem. \<not> starts_with ''_'' stem) stems), initialized = False\<rparr>"

text \<open>\<open>load\<close> stands for \<open>import_module\<close> and the access to \<open>process\<close>, either of which may raise.\<close>

definition load_module :: "(string \<Rightarrow> pyexn + plugin) \<Rightarrow> string \<Rightarrow> (registry, unit) py" where
  "load_module load name =
     andThen (lift (load name)) (\<lambda>process.
     writes (\<lambda>r. r\<lparr>modules := dict_put name (Some process) (modules r)\<rparr>))"

definition initialize :: "(string \<Rightarrow> pyexn + plugin) \<Rightarrow> (registry, unit) py" where
  "initialize load =
     andThen (reads initialized) (\<lambda>i.
     if \<not> i then
       andThen (reads (\<lambda>r. map fst (modules r))) (\<lambda>names.
       andThen (for_acc (\<lambda>name _. load_module load name) names ()) (\<lambda>_.
       writes (\<lambda>r. r\<lparr>initialized := True\<rparr>)))
     else ret ())"

definition get_all_plugins :: "(string \<Rightarrow> pyexn + plugin) \<Rightarrow> (registry, (string \<times> plugin option) list) py" where
  "get_all_plugins load =
     andThen (reads initialized) (\<lambda>i.
     andThen (if \<not> i then initialize load else ret ()) (\<lambda>_.
     reads modules))"

section \<open>get_title\<close>

text \<open>\<open>titles\<close>: the texts of the elements \<open>title\<close> of a document, as BeautifulSoup finds them.\<close>

definition get_title_process :: "(string \<Rightarrow> string list) \<Rightarrow> page \<Rightarrow> headers \<Rightarrow> string \<Rightarrow> pyexn + dict option" where
  "get_title_process titles page headers body =
     (case first (titles body) (\<lambda>_. True) None of
        Some t \<Rightarrow> Inr (Some [(''title'', PText (strip t))])
      | None \<Rightarrow> Inr (Some []))"

section \<open>get_version\<close>

definition version_prefix :: string where
  "version_prefix = ''<meta name='' @ [CHR 0x22] @ ''version'' @ [CHR 0x22] @ '' content='' @ [CHR 0x22]"

definition version_suffix :: string where
  "version_suffix = [CHR 0x22, CHR ''>'']"

definition PAT_VERSION :: rx where
  "PAT_VERSION = rseq [lit version_prefix, RGroup ''1'' (RPlus is_dec), lit version_suffix]"

definition get_version_process :: "page \<Rightarrow> headers \<Rightarrow> string \<Rightarrow> pyexn + dict option" where
  "get_version_process page headers body =
     (case content_is_html headers of
        Inl e \<Rightarrow> Inl e
      | Inr html \<Rightarrow>
          if html then
            (case rx_search PAT_VERSION body of
               Some g \<Rightarrow> (case group g ''1'' of
                    Some version \<Rightarrow> Inr (Some [(''version'', PText version)])
                  | None \<Rightarrow> Inl (IndexError ''no such group''))
             | None \<Rightarrow> Inr (Some []))
          else Inr (Some []))"

section \<open>The search index\<close>

definition INDEX_NAME :: string where
  "INDEX_NAME = ''web''"

text \<open>A schema: its name, its fields (name, type, and whether it is a facet), the default sorting field.\<close>

record index_schema =
  schema_name :: string
  schema_fields :: "(string \<times> string \<times> bool) list"
  default_sorting_field :: string

definition INDEX_SCHEMA :: index_schema where
  "INDEX_SCHEMA =
     \<lparr>schema_name = INDEX_NAME,
      schema_fields =
       [(''id'', ''string'', False), (''page_id'', ''int64'', False), (''url'', ''string'', False),
        (''title'', ''string'', False), (''keywords'', ''string[]'', False), (''area'', ''string'', True),
        (''h1'', ''string[]'', False), (''h2'', ''string[]'', False), (''h3'', ''string[]'', False),
        (''h4'', ''string[]'', False), (''h5'', ''string[]'', False), (''h6'', ''string[]'', False),
        (''body'', ''string'', False), (''version'', ''int32'', True)],
      default_sorting_field = ''page_id''\<rparr>"

definition SEARCH_FIELDS :: "string list" where
  "SEARCH_FIELDS = [''url'', ''title'', ''keywords'', ''h1'', ''h2'', ''h3'', ''h4'', ''h5'', ''h6'', ''body'']"

text \<open>The module never imports the adapter that its generator names.\<close>

definition search_web :: "string \<Rightarrow> pyexn + string list" where
  "search_web q = Inl (NameError ''_sa'')"

section \<open>index_site\<close>

text \<open>The elements of a parsed document that the plug-in looks at.\<close>

record element =
  el_text :: string
  el_find_all :: "string \<Rightarrow> string list"

record soup =
  s_title :: "string option"
  s_metas :: "(string \<times> string) list list"
  s_main :: "element option"
  s_body :: "element option"

definition attr_or :: "(string \<times> string) list \<Rightarrow> string \<Rightarrow> string \<Rightarrow> string" where
  "attr_or attrs name dflt = (case map_of attrs name of Some v \<Rightarrow> v | None \<Rightarrow> dflt)"

text \<open>One turn of the loop over the \<open>meta\<close> elements: keywords, area and version.\<close>

definition read_meta :: "(string \<times> string) list \<Rightarrow> string list \<times> string \<times> int \<Rightarrow>
    pyexn + string list \<times> string \<times> int" where
  "read_meta attrs acc =
     (case acc of (keywords, area, version) \<Rightarrow>
        let name = attr_or attrs ''name'' [] in
        if name = ''area'' then Inr (keywords, attr_or attrs ''content'' [], version)
        else if name = ''version'' then
          (let val = attr_or attrs ''content'' []
           in if val \<noteq> [] \<and> list_all is_digit val
              then (case int_of_str val of
                      Some i \<Rightarrow> Inr (keywords, area, i)
                    | None \<Rightarrow> Inl (ValueError ''invalid literal for int() with base 10''))
              else Inr (keywords, area, version))
        else if name = ''keywords'' then
          (let val = attr_or attrs ''content'' []
           in if val \<noteq> [] then Inr (map (\<lambda>k. lower (strip k)) (split_on (CHR '','') val), area, version)
              else Inr (keywords, area, version))
        else Inr (keywords, area, version))"

fun read_metas :: "(string \<times> string) list list \<Rightarrow> string list \<times> string \<times> int \<Rightarrow>
    pyexn + string list \<times> string \<times> int" where
  "read_metas [] acc = Inr acc"
| "read_metas (m # ms) acc = (case read_meta m acc of Inl e \<Rightarrow> Inl e | Inr acc \<Rightarrow> read_metas ms acc)"

text \<open>\<open>data\<close> stands for the calls of \<open>handle_data\<close> that \<open>HTMLParser.feed\<close> makes.\<close>

definition strip_tags :: "(string \<Rightarrow> string list) \<Rightarrow> string \<Rightarrow> string" where
  "strip_tags data html = join '' '' (split_ws (concat (data html)))"

datatype field = FText string | FInt int | FTexts "string list"

definition headings :: "element \<Rightarrow> string \<Rightarrow> field" where
  "headings main h = FTexts (map strip (el_find_all main h))"

definition get_info :: "(string \<Rightarrow> string list) \<Rightarrow> (string \<Rightarrow> soup) \<Rightarrow> site \<Rightarrow> page \<Rightarrow> string \<Rightarrow>
    pyexn + (string \<times> field) list" where
  "get_info data parse s page body =
     (let soup = parse body
      in case s_title soup of
           None \<Rightarrow> Inl (AttributeError ''text'')
         | Some title \<Rightarrow>
           (case read_metas (s_metas soup) ([], [], 0) of Inl e \<Rightarrow> Inl e | Inr (keywords, area, version) \<Rightarrow>
           (case (if s_main soup = None then s_body soup else s_main soup) of
              None \<Rightarrow> Inl (AttributeError ''text'')
            | Some main \<Rightarrow>
              (case get_relative_url s page of Inl e \<Rightarrow> Inl e | Inr url \<Rightarrow>
                 Inr [(''id'', FText url), (''page_id'', FInt (int (id_page page))), (''url'', FText url),
                      (''title'', FText title), (''keywords'', FTexts keywords), (''area'', FText area),
                      (''h1'', headings main ''h1''), (''h2'', headings main ''h2''), (''h3'', headings main ''h3''),
                      (''h4'', headings main ''h4''), (''h5'', headings main ''h5''), (''h6'', headings main ''h6''),
                      (''body'', FText (strip_tags data (el_text main))), (''version'', FInt version)]))))"

text \<open>
  The state is the list of the documents sent to the service, by index name; \<open>accept\<close> tells
  whether the service takes a document or raises.
\<close>

definition index_process :: "(string \<Rightarrow> string list) \<Rightarrow> (string \<Rightarrow> soup) \<Rightarrow> ((string \<times> field) list \<Rightarrow> pyexn + unit) \<Rightarrow>
    site \<Rightarrow> page \<Rightarrow> headers \<Rightarrow> string \<Rightarrow> ((string \<times> (string \<times> field) list) list, dict option) py" where
  "index_process data parse accept s page headers body =
     andThen (lift (content_is_html headers)) (\<lambda>html.
     if html then
       andThen (lift (get_info data parse s page body)) (\<lambda>doc.
       andThen (lift (accept doc)) (\<lambda>_.
       andThen (writes (\<lambda>docs. docs @ [(INDEX_NAME, doc)])) (\<lambda>_. ret (Some []))))
     else ret (Some []))"

section \<open>Facts: the registry\<close>

lemma map_fst_dict_put: "k \<in> fst ` set d \<Longrightarrow> map fst (dict_put k v d) = map fst d"
  by (induction d) auto

text \<open>A module that has its process, as the import gave it.\<close>

definition loaded :: "(string \<Rightarrow> pyexn + plugin) \<Rightarrow> string \<times> plugin option \<Rightarrow> bool" where
  "loaded load np \<longleftrightarrow> (\<exists>q. load (fst np) = Inr q \<and> snd np = Some q)"

lemma set_dict_put:
  "distinct (map fst d) \<Longrightarrow> set (dict_put k v d) = insert (k, v) {kv \<in> set d. fst kv \<noteq> k}"
  by (induction d) (auto simp: image_iff)

lemma load_module_step:
  assumes "load_module load n r = (Inr x, r')" "distinct (map fst (modules r))" "n \<in> fst ` set (modules r)"
  shows "map fst (modules r') = map fst (modules r)" "initialized r' = initialized r"
    "\<forall>np \<in> set (modules r'). np \<in> set (modules r) \<and> fst np \<noteq> n \<or> loaded load np"
  using assms map_fst_dict_put [OF assms(3)]
  by (auto simp: load_module_def andThen_def lift_def writes_def set_dict_put loaded_def
      split: sum.splits)

lemma initialize_loads:
  assumes "initialize load r = (Inr x, r')" "\<not> initialized r" "distinct (map fst (modules r))"
  shows "map fst (modules r') = map fst (modules r)" "initialized r'" "\<forall>np \<in> set (modules r'). loaded load np"
proof -
  let ?names = "map fst (modules r)"
  from assms(1,2) obtain u y where loop: "for_acc (\<lambda>name _. load_module load name) ?names () r = (Inr y, u)"
      and r': "r' = u\<lparr>initialized := True\<rparr>"
    by (auto simp: initialize_def andThen_def reads_def writes_def split: prod.splits sum.splits)
  have "map fst (modules u) = ?names \<and>
      (\<forall>np \<in> set (modules u). fst np \<in> set ?names \<longrightarrow> loaded load np)"
    using loop
  proof (rule for_acc_induct [where P = "\<lambda>ds _ v. map fst (modules v) = ?names \<and>
      (\<forall>np \<in> set (modules v). fst np \<in> set ds \<longrightarrow> loaded load np)"], goal_cases)
    case (2 ds n a v a' v')
    then have "distinct (map fst (modules v))" "n \<in> fst ` set (modules v)"
      using assms(3) by (auto simp flip: set_map)
    from load_module_step [OF 2(3) this] 2(1) show ?case by auto
  qed simp
  then have m: "map fst (modules u) = ?names" "\<forall>np \<in> set (modules u). fst np \<in> set ?names \<longrightarrow> loaded load np"
    by simp_all
  have "fst np \<in> set ?names" if "np \<in> set (modules u)" for np
    using that arg_cong [where f = set, OF m(1)] by auto
  with m r' show "map fst (modules r') = ?names" "initialized r'" "\<forall>np \<in> set (modules r'). loaded load np"
    by auto
qed

lemma registry_ready:
  assumes "distinct stems" "get_all_plugins load (registry_init stems) = (Inr ps, r)"
  shows "map fst ps = filter (\<lambda>stem. \<not> starts_with ''_'' stem) stems" "\<forall>np \<in> set ps. loaded load np"
    "get_all_plugins load' r = (Inr ps, r)"
proof -
  let ?r0 = "registry_init stems"
  from assms(2) obtain x where i: "initialize load ?r0 = (Inr x, r)" and ps: "ps = modules r"
    by (auto simp: get_all_plugins_def andThen_def reads_def registry_init_def split: prod.splits sum.splits)
  have names: "map fst (modules ?r0) = filter (\<lambda>stem. \<not> starts_with ''_'' stem) stems" "\<not> initialized ?r0"
    by (simp_all add: registry_init_def comp_def)
  have "distinct (map fst (modules ?r0))" using assms(1) by (simp add: names)
  from initialize_loads [OF i names(2) this] names ps
  show "map fst ps = filter (\<lambda>stem. \<not> starts_with ''_'' stem) stems" "\<forall>np \<in> set ps. loaded load np"
    "get_all_plugins load' r = (Inr ps, r)"
    by (simp_all add: get_all_plugins_def andThen_def reads_def ret_def)
qed

section \<open>Facts: the version\<close>

lemma runs_lit: "runs (lit w) (g, s) = (if take (length w) s = w then [(g, drop (length w) s)] else [])"
proof -
  have "list_all2 (\<lambda>p c. p c) (map (\<lambda>c x. x = c) w) u \<longleftrightarrow> u = w" for u
    by (induction w arbitrary: u) (auto simp: list_all2_Cons1)
  moreover have "length w \<le> length s" if "take (length w) s = w"
    using arg_cong [where f = length, OF that] by simp
  ultimately show ?thesis by (auto simp: lit_as_chars runs_chars simp del: map_map)
qed

lemma set_plus_runs: "t \<in> set (plus_runs p s) \<longleftrightarrow> (\<exists>u. u \<noteq> [] \<and> s = u @ t \<and> list_all p u)"
  by (cases s) (auto simp: set_star_runs Cons_eq_append_conv intro: exI [of _ "_ # _"])

lemma runs_version:
  "(g, t) \<in> set (runs PAT_VERSION ([], s)) \<longleftrightarrow>
     (\<exists>v. v \<noteq> [] \<and> list_all is_dec v \<and> s = version_prefix @ v @ version_suffix @ t \<and> g = [(''1'', v)])"
proof -
  have pre: "take (length p) s = p \<longleftrightarrow> (\<exists>r. s = p @ r)" for p s :: string
    by (metis append_eq_conv_conj append_take_drop_id)
  have "(g, t) \<in> set (runs PAT_VERSION ([], s)) \<longleftrightarrow>
      (\<exists>r u. s = version_prefix @ r \<and> u \<in> set (plus_runs is_dec r) \<and> u = version_suffix @ t \<and>
        g = [(''1'', take (length r - length u) r)])"
    by (auto simp: PAT_VERSION_def runs_lit pre split: if_splits intro!: bexI [of _ "version_suffix @ t"])
  also have "\<dots> \<longleftrightarrow> (\<exists>v. v \<noteq> [] \<and> list_all is_dec v \<and> s = version_prefix @ v @ version_suffix @ t \<and> g = [(''1'', v)])"
    by (auto simp: set_plus_runs)
  finally show ?thesis .
qed

lemma rx_search_Some: "rx_search r s = Some g \<Longrightarrow> \<exists>u v. s = u @ v \<and> rx_match r v = Some g"
proof (induction s)
  case (Cons c cs)
  show ?case
  proof (cases "rx_match r (c # cs)")
    case None
    with Cons obtain u v where "cs = u @ v" "rx_match r v = Some g" by auto
    then show ?thesis by (intro exI [of _ "c # u"] exI [of _ v]) simp
  next
    case (Some h)
    with Cons.prems show ?thesis by (intro exI [of _ "[]"] exI [of _ "c # cs"]) simp
  qed
qed auto

text \<open>The tag that carries a version.\<close>

definition version_tag :: "string \<Rightarrow> string \<Rightarrow> bool" where
  "version_tag v body \<longleftrightarrow> v \<noteq> [] \<and> list_all is_dec v \<and> contains (version_prefix @ v @ version_suffix) body"

lemma search_version:
  "rx_search PAT_VERSION body = Some g \<Longrightarrow> \<exists>v. g = [(''1'', v)] \<and> version_tag v body"
  "rx_search PAT_VERSION body = None \<longleftrightarrow> (\<nexists>v. version_tag v body)"
proof -
  show "\<exists>v. g = [(''1'', v)] \<and> version_tag v body" if search: "rx_search PAT_VERSION body = Some g"
  proof -
    from rx_search_Some [OF search] obtain u w where b: "body = u @ w" and m: "rx_match PAT_VERSION w = Some g" by blast
    from m have "g \<in> set (map fst (runs PAT_VERSION ([], w)))" unfolding rx_match_def by (rule head_Some_in)
    then obtain t where "(g, t) \<in> set (runs PAT_VERSION ([], w))" by auto
    then obtain v where "v \<noteq> []" "list_all is_dec v" "w = version_prefix @ v @ version_suffix @ t" "g = [(''1'', v)]"
      by (auto simp: runs_version)
    with b show ?thesis unfolding version_tag_def contains_iff by auto
  qed
  have "rx_match PAT_VERSION w \<noteq> None \<longleftrightarrow> (\<exists>v t. v \<noteq> [] \<and> list_all is_dec v \<and> w = version_prefix @ v @ version_suffix @ t)" for w
  proof -
    have "runs PAT_VERSION ([], w) \<noteq> [] \<longleftrightarrow> (\<exists>g t. (g, t) \<in> set (runs PAT_VERSION ([], w)))"
      by (metis empty_iff last_in_set list.set(1) prod.exhaust_sel)
    then show ?thesis by (simp only: rx_match_None_iff runs_version) blast
  qed
  then have "rx_search PAT_VERSION body \<noteq> None \<longleftrightarrow> (\<exists>v. version_tag v body)"
    unfolding rx_search_iff version_tag_def contains_iff by auto
  then show "rx_search PAT_VERSION body = None \<longleftrightarrow> (\<nexists>v. version_tag v body)" by blast
qed

lemma get_version_spec:
  assumes "content_is_html headers = Inr True"
  shows "(\<exists>v. version_tag v body \<and> get_version_process p headers body = Inr (Some [(''version'', PText v)])) \<or>
    (\<nexists>v. version_tag v body) \<and> get_version_process p headers body = Inr (Some [])"
  using assms search_version [of body]
  by (cases "rx_search PAT_VERSION body") (fastforce simp: get_version_process_def group_def)+

section \<open>Facts: the index\<close>

text \<open>
  What the elements \<open>meta\<close> declare: for each of the three names the last element of that name that
  says something.
\<close>

definition last_of :: "('m \<Rightarrow> bool) \<Rightarrow> ('m \<Rightarrow> 'v) \<Rightarrow> 'v \<Rightarrow> 'm list \<Rightarrow> 'v" where
  "last_of P f dflt ms = (case filter P (rev ms) of [] \<Rightarrow> dflt | m # _ \<Rightarrow> f m)"

definition named :: "string \<Rightarrow> (string \<times> string) list \<Rightarrow> bool" where
  "named n m \<longleftrightarrow> attr_or m ''name'' [] = n"

definition content :: "(string \<times> string) list \<Rightarrow> string" where
  "content m = attr_or m ''content'' []"

definition number_in :: "string \<Rightarrow> int" where
  "number_in t = (case int_of_str t of Some i \<Rightarrow> i | None \<Rightarrow> 0)"

definition declared_version :: "(string \<times> string) list list \<Rightarrow> int" where
  "declared_version =
     last_of (\<lambda>m. named ''version'' m \<and> content m \<noteq> [] \<and> list_all is_digit (content m)) (\<lambda>m. number_in (content m)) 0"

definition declared_area :: "(string \<times> string) list list \<Rightarrow> string" where
  "declared_area = last_of (named ''area'') content []"

definition declared_keywords :: "(string \<times> string) list list \<Rightarrow> string list" where
  "declared_keywords = last_of (\<lambda>m. named ''keywords'' m \<and> content m \<noteq> [])
     (\<lambda>m. map (\<lambda>k. lower (strip k)) (split_on (CHR '','') (content m))) []"

lemma last_of_Nil [simp]: "last_of P f d [] = d"
  by (simp add: last_of_def)

lemma last_of_Cons [simp]: "last_of P f d (m # ms) = last_of P f (if P m then f m else d) ms"
  by (cases "filter P (rev ms)") (simp_all add: last_of_def)

lemma read_metas_declared:
  "read_metas ms (k, a, v) = Inr out \<Longrightarrow> out =
     (last_of (\<lambda>m. named ''keywords'' m \<and> content m \<noteq> []) (\<lambda>m. map (\<lambda>k. lower (strip k)) (split_on (CHR '','') (content m))) k ms,
      last_of (named ''area'') content a ms,
      last_of (\<lambda>m. named ''version'' m \<and> content m \<noteq> [] \<and> list_all is_digit (content m)) (\<lambda>m. number_in (content m)) v ms)"
proof (induction ms arbitrary: k a v)
  case (Cons m ms)
  then obtain k' a' v' where m: "read_meta m (k, a, v) = Inr (k', a', v')" and rest: "read_metas ms (k', a', v') = Inr out"
    by (auto split: sum.splits)
  have "k' = (if named ''keywords'' m \<and> content m \<noteq> [] then map (\<lambda>k. lower (strip k)) (split_on (CHR '','') (content m)) else k)"
    "a' = (if named ''area'' m then content m else a)"
    "v' = (if named ''version'' m \<and> content m \<noteq> [] \<and> list_all is_digit (content m) then number_in (content m) else v)"
    using m by (auto simp: read_meta_def named_def content_def number_in_def Let_def split: if_splits option.splits)
  with Cons.IH [OF rest] show ?case by (simp only: last_of_Cons)
qed simp

text \<open>A field that the service takes for its column: an integer must be one of its 32 or 64 bits.\<close>

definition field_fits :: "string \<times> field \<Rightarrow> string \<times> string \<times> bool \<Rightarrow> bool" where
  "field_fits kv f \<longleftrightarrow> fst kv = fst f \<and>
     (case snd kv of
        FText _ \<Rightarrow> fst (snd f) = ''string''
      | FTexts _ \<Rightarrow> fst (snd f) = ''string[]''
      | FInt i \<Rightarrow> fst (snd f) = ''int32'' \<and> int_fits 32 i \<or> fst (snd f) = ''int64'' \<and> int_fits 64 i)"

definition indexed :: "site \<Rightarrow> page \<Rightarrow> (string \<times> string) list list \<Rightarrow> (string \<times> field) list \<Rightarrow> bool" where
  "indexed s p metas doc \<longleftrightarrow>
     map fst doc = map fst (schema_fields INDEX_SCHEMA) \<and>
     (\<exists>url. get_relative_url s p = Inr url \<and> map_of doc ''id'' = Some (FText url) \<and> map_of doc ''url'' = Some (FText url)) \<and>
     map_of doc ''page_id'' = Some (FInt (int (id_page p))) \<and>
     map_of doc ''keywords'' = Some (FTexts (declared_keywords metas)) \<and>
     map_of doc ''area'' = Some (FText (declared_area metas)) \<and>
     map_of doc ''version'' = Some (FInt (declared_version metas)) \<and>
     (list_all2 field_fits doc (schema_fields INDEX_SCHEMA) \<longleftrightarrow>
        int_fits 64 (int (id_page p)) \<and> int_fits 32 (declared_version metas))"

lemma get_info_indexed:
  assumes "get_info data parse s p body = Inr doc"
  shows "indexed s p (s_metas (parse body)) doc"
proof -
  obtain ks area version title main url where
    metas: "read_metas (s_metas (parse body)) ([], [], 0) = Inr (ks, area, version)" and
    url: "get_relative_url s p = Inr url" and
    doc: "doc = [(''id'', FText url), (''page_id'', FInt (int (id_page p))), (''url'', FText url),
                      (''title'', FText title), (''keywords'', FTexts ks), (''area'', FText area),
                      (''h1'', headings main ''h1''), (''h2'', headings main ''h2''), (''h3'', headings main ''h3''),
                      (''h4'', headings main ''h4''), (''h5'', headings main ''h5''), (''h6'', headings main ''h6''),
                      (''body'', FText (strip_tags data (el_text main))), (''version'', FInt version)]"
    using assms by (auto simp: get_info_def Let_def split: option.splits sum.splits prod.splits)
  from read_metas_declared [OF metas] have
    "ks = declared_keywords (s_metas (parse body))" "area = declared_area (s_metas (parse body))"
    "version = declared_version (s_metas (parse body))"
    by (simp_all add: declared_keywords_def declared_area_def declared_version_def)
  with url show ?thesis unfolding doc by (simp add: indexed_def INDEX_SCHEMA_def field_fits_def headings_def)
qed

lemma index_process_sends:
  assumes "index_process data parse accept s p headers body docs = (Inr out, docs')"
  shows "out = Some [] \<and>
    (content_is_html headers = Inr False \<and> docs' = docs \<or>
     content_is_html headers = Inr True \<and>
       (\<exists>doc. docs' = docs @ [(INDEX_NAME, doc)] \<and> indexed s p (s_metas (parse body)) doc))"
  using assms get_info_indexed [of data parse s p body]
  by (auto simp: index_process_def andThen_def lift_def writes_def ret_def split: sum.splits if_splits)

text \<open>What is searched are text fields of the schema.\<close>

lemma search_fields_are_text:
  "set SEARCH_FIELDS \<subseteq> {n. \<exists>t f. (n, t, f) \<in> set (schema_fields INDEX_SCHEMA) \<and> (t = ''string'' \<or> t = ''string[]'')}"
  by (auto simp: SEARCH_FIELDS_def INDEX_SCHEMA_def)

end
