(* ===== verification/Routes.thy ===== *)
theory Routes
  imports Sites
begin

text \<open>
  The parameters of the URLs (\<open>converters.py\<close>), the table of routes (\<open>urls.py\<close>) and the links
  to them (\<open>links.py\<close>). A link is the arguments of \<open>reverse_lazy\<close>: the view's name and the
  names of its parameters. Django resolves it to a route of that name with those parameters.
\<close>

section \<open>Converters\<close>

text \<open>A value that a converter is given: an instance, or what stands in the URL.\<close>

datatype 'a arg = Instance 'a | Text string | Number int | Other

definition site_regex :: rx where
  "site_regex = RPlus (\<lambda>c. c = CHR ''-'' \<or> is_word c)"

text \<open>\<open>to_python\<close> is called with the text of the URL (or an instance).\<close>

definition site_to_python :: "site + string \<Rightarrow> site op" where
  "site_to_python value =
     (case value of
        Inl s \<Rightarrow> ret s
      | Inr name \<Rightarrow>
          andThen (load_site_by_name name) (\<lambda>site.
            case site of
              None \<Rightarrow> raise (ValueError ''El identificador del site especificado es incorrecto'')
            | Some s \<Rightarrow> ret s))"

definition site_to_url :: "site arg \<Rightarrow> pyexn + string" where
  "site_to_url value =
     (case value of
        Text t \<Rightarrow> Inr t
      | Instance s \<Rightarrow> Inr (site_name s)
      | _ \<Rightarrow> Inl (ValueError ''Se necesita una instancia de la clase Site, o una cadena de texto con el nobre del site.''))"

definition page_regex :: rx where
  "page_regex = RPlus is_dec"

definition page_to_python :: "page + string \<Rightarrow> page op" where
  "page_to_python value =
     (case value of
        Inl p \<Rightarrow> ret p
      | Inr pk \<Rightarrow>
          (case int_of_str pk of
             None \<Rightarrow> raise (ValueError ''Field id_page expected a number'')
           | Some i \<Rightarrow>
               andThen (reads (\<lambda>w. if i < 0 then None else load_page_pk (nat i) w)) (\<lambda>page.
                 case page of
                   None \<Rightarrow> raise (ValueError (''El identificador de la p'' @ [CHR 0xE1] @ ''gina especificada es incorrecto''))
                 | Some p \<Rightarrow> ret p)))"

definition page_to_url :: "page arg \<Rightarrow> pyexn + int" where
  "page_to_url value =
     (case value of
        Number i \<Rightarrow> Inr i
      | Instance p \<Rightarrow> Inr (int (id_page p))
      | _ \<Rightarrow> Inl (ValueError (''Se necesita una instancia de la clase Page, o un n'' @ [CHR 0xFA] @
                ''mero entero con la clave prinaria de la p'' @ [CHR 0xE1] @ ''gina.'')))"

section \<open>Routes and links\<close>

definition tie :: "string \<Rightarrow> string \<Rightarrow> string option \<Rightarrow> string \<times> string" where
  "tie ruta vista name = (ruta, case name of Some n \<Rightarrow> if n \<noteq> [] then n else vista | None \<Rightarrow> vista)"

definition app_name :: string where
  "app_name = ''spidercheck''"

definition urlpatterns :: "(string \<times> string) list" where
  "urlpatterns =
     [tie [] ''homepage'' None,
      tie ''site/<site:site>/'' ''site_detail'' None,
      tie ''site/<site:site>/errores/'' ''site_errors'' None,
      tie ''site/<site:site>/queue/'' ''site_queue'' None,
      tie ''site/<site:site>/scheduled/'' ''site_scheduled'' None,
      tie ''site/<site:site>/last/'' ''site_last'' None,
      tie ''site/<site:site>/no_links/'' ''site_no_links'' None,
      tie ''site/<site:site>/search/'' ''site_search'' None,
      tie ''site/<site:site>/orphans/'' ''site_orphans'' None,
      tie ''site/<site:site>/expunge/'' ''site_expunge'' None,
      tie ''site/<site:site>/expunge/all/'' ''site_expunge_all'' None,
      tie ''page/<page:page>/'' ''detail_page'' None,
      tie ''page/<page:page>/check/'' ''page_check'' None,
      tie ''page/<page:page>/delete/'' ''page_delete'' None,
      tie ''page/<page:page>/toogle/is_linkable/'' ''toogle_is_linkable'' None]"

type_synonym 'a lazy_link = "string \<times> (string \<times> 'a) list"

definition a_homepage :: "'a lazy_link" where
  "a_homepage = (''intranet:spidercheck:homepage'', [])"

definition a_detalle_pagina :: "'a \<Rightarrow> 'a lazy_link" where
  "a_detalle_pagina page_or_pk = (''intranet:spidercheck:detail_page'', [(''page'', page_or_pk)])"

definition a_detalle_site :: "'a \<Rightarrow> 'a lazy_link" where
  "a_detalle_site site_or_name = (''intranet:spidercheck:site_detail'', [(''site'', site_or_name)])"

definition a_site_errors :: "'a \<Rightarrow> 'a lazy_link" where
  "a_site_errors site_or_name = (''intranet:spidercheck:site_errors'', [(''site'', site_or_name)])"

definition a_site_no_links :: "'a \<Rightarrow> 'a lazy_link" where
  "a_site_no_links site_or_name = (''intranet:spidercheck:site_no_links'', [(''site'', site_or_name)])"

definition a_site_orphans :: "'a \<Rightarrow> 'a lazy_link" where
  "a_site_orphans site_or_name = (''intranet:spidercheck:site_orphans'', [(''site'', site_or_name)])"

definition a_site_last :: "'a \<Rightarrow> 'a lazy_link" where
  "a_site_last site_or_name = (''intranet:spidercheck:site_last'', [(''site'', site_or_name)])"

definition a_site_scheduled :: "'a \<Rightarrow> 'a lazy_link" where
  "a_site_scheduled site_or_name = (''intranet:spidercheck:site_scheduled'', [(''site'', site_or_name)])"

definition a_site_queue :: "'a \<Rightarrow> 'a lazy_link" where
  "a_site_queue site_or_name = (''intranet:spidercheck:site_queue'', [(''site'', site_or_name)])"

definition a_add_no_link :: "'a \<Rightarrow> 'a lazy_link" where
  "a_add_no_link site_or_name = (''intranet:spidercheck:add_no_link'', [(''site'', site_or_name)])"

text \<open>The parameters of a route: the names in \<open><converter:name>\<close>.\<close>

fun route_params :: "string list \<Rightarrow> string list" where
  "route_params [] = []"
| "route_params (seg # segs) =
     (if take 1 seg = ''<'' then fst (split_first (CHR ''>'') (snd (split_first (CHR '':'') seg))) # route_params segs
      else route_params segs)"

text \<open>
  The name of a link is its namespaces and the name of its view. The namespace \<open>intranet\<close> is that
  of the project that includes this application; the next one is \<open>app_name\<close>.
\<close>

definition resolves :: "'a lazy_link \<Rightarrow> bool" where
  "resolves l \<longleftrightarrow>
     (case split_on (CHR '':'') (fst l) of
        [project, app, view_name] \<Rightarrow> project = ''intranet'' \<and> app = app_name \<and>
          (\<exists>r \<in> set urlpatterns. snd r = view_name \<and>
             set (route_params (split_on (CHR ''/'') (fst r))) = set (map fst (snd l)))
      | _ \<Rightarrow> False)"

section \<open>Facts\<close>

lemma site_url_round_trip:
  assumes "db_ok w" "s \<in> set (site_rows w)" "site_to_url (Instance s) = Inr t"
  shows "site_to_python (Inr t) w = (Inr s, w)"
  using assms(3) load_site_found [OF assms(1,2)] by (simp add: site_to_url_def site_to_python_def andThen_def ret_def)

lemma page_url_round_trip:
  assumes "db_ok w" "p \<in> set (page_rows w)" "page_to_url (Instance p) = Inr i"
  shows "page_to_python (Inr (show_int i)) w = (Inr p, w)"
proof -
  have i: "show_int i = show_nat (id_page p)" using assms(3) by (auto simp: page_to_url_def show_int_def)
  have "page_get (id_page p) w = Some p"
    by (rule page_table.get_of_row [OF db_ok_keys(2) [OF assms(1)] assms(2)])
  then show ?thesis
    by (simp add: page_to_python_def i int_of_show_nat andThen_def reads_def load_page_pk_def ret_def)
qed

lemma page_url_matches: "page_to_url (Instance p) = Inr i \<Longrightarrow> list_all is_dec (show_int i) \<and> show_int i \<noteq> []"
  by (auto simp: page_to_url_def show_int_def show_nat_digits)

lemma resolves_any: "resolves (n, [(k, v)]) \<longleftrightarrow> resolves (n, [(k, ())])"
  by (simp add: resolves_def split: list.split)

lemma links_resolve:
  "resolves a_homepage" "resolves (a_detalle_pagina v)" "resolves (a_detalle_site v)" "resolves (a_site_errors v)"
  "resolves (a_site_no_links v)" "resolves (a_site_orphans v)" "resolves (a_site_last v)"
  "resolves (a_site_scheduled v)" "resolves (a_site_queue v)" "\<not> resolves (a_add_no_link v)"
  unfolding a_homepage_def a_detalle_pagina_def a_detalle_site_def a_site_errors_def a_site_no_links_def
    a_site_orphans_def a_site_last_def a_site_scheduled_def a_site_queue_def a_add_no_link_def
    resolves_any [of _ _ v]
  by code_simp+

end
