(* ===== verification/Views.thy ===== *)
theory Views
  imports Routes Focus
begin

text \<open>
  \<open>views.py\<close>: the web front end. A request is its method, its query and form parameters and
  the user of its session; a view returns a redirection or a page to render and may leave
  messages for the user. Here a view is what stands under its decorator; \<open>Dispatch\<close> has the
  decorated ones. Templates are names; Django's paginator and the queries of \<open>dbraw\<close> (a module
  that the repository does not have) are arguments.
\<close>

section \<open>Requests, responses, messages\<close>

record request =
  is_post :: bool
  GET :: "(string \<times> string) list"
  id_pages :: "string list"
  id_usuario :: nat

datatype message = ErrorMessage nat string | SuccessMessage nat string

datatype target = ToPage page | ToSite site

text \<open>
  What a template is given: the dictionary of the call of \<open>render\<close>, with its keys in the order of
  the source. A query set is the list it stands for; the charts are kept as the data (and the
  label) they are built from, since their classes are not in the repository.
\<close>

datatype shown =
    CText string
  | CInt int
  | CSite site
  | CSites "site list"
  | CPage page
  | CPages "page list"
  | CScheduled "(scheduled_page \<times> page) list"
  | CHours "(int \<times> nat) list"
  | CSparkLine "nat list"
  | CBarChart "(string \<times> nat) list" string
  | CLinks "(string \<times> target lazy_link) list"

type_synonym template_context = "(string \<times> shown) list"

datatype reply = Redirect "target lazy_link" | Render string template_context

abbreviation CNat :: "nat \<Rightarrow> shown" where
  "CNat n \<equiv> CInt (int n)"

text \<open>The state of a view: the database and the messages left so far.\<close>

type_synonym 'a view = "(world \<times> message list, 'a) py"

definition on_db :: "'a op \<Rightarrow> 'a view" where
  "on_db = focused fst (\<lambda>w v. (w, snd v))"

interpretation db_part: focus fst "\<lambda>w v. (w, snd v)"
  by unfold_locales simp_all

definition add_error_message :: "nat \<Rightarrow> string \<Rightarrow> unit view" where
  "add_error_message user text = writes (\<lambda>(w, ms). (w, ms @ [ErrorMessage user text]))"

definition add_success_message :: "nat \<Rightarrow> string \<Rightarrow> unit view" where
  "add_success_message user text = writes (\<lambda>(w, ms). (w, ms @ [SuccessMessage user text]))"

definition assert :: "bool \<Rightarrow> 'a view \<Rightarrow> 'a view" where
  "assert b m = (if b then m else raise AssertionError)"

section \<open>The page number\<close>

definition get_or :: "(string \<times> string) list \<Rightarrow> string \<Rightarrow> string \<Rightarrow> string" where
  "get_or d k dflt = (case map_of d k of Some v \<Rightarrow> v | None \<Rightarrow> dflt)"

definition get_page :: "(string \<times> string) list \<Rightarrow> int" where
  "get_page g =
     (case int_of_str (get_or g ''p'' ''1'') of
        None \<Rightarrow> 1
      | Some n \<Rightarrow>
          (case map_of g ''page'' of
             None \<Rightarrow> n
           | Some t \<Rightarrow> (case int_of_str t of None \<Rightarrow> 1 | Some i \<Rightarrow> i)))"

section \<open>Lists\<close>

definition PAGE_SIZE :: nat where
  "PAGE_SIZE = 25"

definition get_links_per_site :: "site \<Rightarrow> (string \<times> target lazy_link) list" where
  "get_links_per_site s =
     [(''a_site_queue'', a_site_queue (ToSite s)), (''a_site_last'', a_site_last (ToSite s)),
      (''a_site_errors'', a_site_errors (ToSite s)), (''a_site_scheduled'', a_site_scheduled (ToSite s)),
      (''a_site_no_links'', a_site_no_links (ToSite s))]"

text \<open>\<open>paginate items size n\<close> stands for \<open>Paginator(items, size).page(n)\<close>, which may raise.\<close>

type_synonym paginator = "page list \<Rightarrow> nat \<Rightarrow> int \<Rightarrow> pyexn + page list"

definition homepage :: "request \<Rightarrow> reply view" where
  "homepage r =
     andThen (on_db (reads get_all_sites)) (\<lambda>sites.
     ret (Render ''spidercheck/homepage.html''
       [(''titulo'', CText ''Spidercheck homepage''),
        (''sites'', CSites sites)]))"

text \<open>\<open>hours\<close> stands for \<open>dbraw.get_hour_progress\<close>.\<close>

definition site_detail :: "(site \<Rightarrow> world \<Rightarrow> (int \<times> nat) list) \<Rightarrow> request \<Rightarrow> site \<Rightarrow> reply view" where
  "site_detail hours r s =
     andThen (on_db (reads (hours s))) (\<lambda>progress_hour.
     andThen (on_db (reads (count_values s ''version''))) (\<lambda>versiones.
     andThen (on_db (reads (all_scheduled_pages s))) (\<lambda>scheduled.
     andThen (on_db (reads (\<lambda>w. length (site_pages s w)))) (\<lambda>num_pages.
     andThen (on_db (reads (\<lambda>w. length (pages_with_errors s w)))) (\<lambda>num_errores.
     andThen (on_db (reads (\<lambda>w. length (all_queued_pages s w)))) (\<lambda>num_queued.
     andThen (on_db (reads (\<lambda>w. length (filter (\<lambda>p. is_linkable p = False) (site_pages s w))))) (\<lambda>num_no_links.
     andThen (on_db (reads (\<lambda>w. length (filter (\<lambda>p. is_checked p = True) (site_pages s w))))) (\<lambda>num_processed.
     ret (Render ''spidercheck/site_detail.html''
       [(''titulo'', CText (''Site '' @ site_name s)),
        (''site'', CSite s),
        (''num_pages'', CNat num_pages),
        (''num_errores'', CNat num_errores),
        (''num_queued'', CNat num_queued),
        (''num_no_links'', CNat num_no_links),
        (''num_processed'', CNat num_processed),
        (''scheduled'', CScheduled scheduled),
        (''num_scheduled'', CNat (length scheduled)),
        (''progress_hour'', CHours progress_hour),
        (''sparkline'', CSparkLine (map snd progress_hour)),
        (''versiones'', CBarChart versiones ''Versiones''),
        (''links'', CLinks (get_links_per_site s))])))))))))"

definition site_errors :: "paginator \<Rightarrow> request \<Rightarrow> site \<Rightarrow> reply view" where
  "site_errors paginate r s =
     (let num_page = get_page (GET r) in
     andThen (on_db (reads (pages_with_errors s))) (\<lambda>errors.
     andThen (on_db (reads (\<lambda>w. length (site_pages s w)))) (\<lambda>num_pages.
     andThen (lift (paginate errors PAGE_SIZE num_page)) (\<lambda>listed.
     ret (Render ''spidercheck/site_errors.html''
       [(''titulo'', CText (''Site '' @ site_name s @ '' - Errores'')),
        (''site'', CSite s),
        (''num_errors'', CNat (length errors)),
        (''num_page'', CInt num_page),
        (''num_pages'', CNat num_pages),
        (''page'', CPages listed)])))))"

definition site_queue :: "paginator \<Rightarrow> request \<Rightarrow> site \<Rightarrow> reply view" where
  "site_queue paginate r s =
     (let num_page = get_page (GET r) in
     andThen (on_db (reads (all_queued_pages s))) (\<lambda>pages.
     andThen (lift (paginate pages PAGE_SIZE num_page)) (\<lambda>listed.
     ret (Render ''spidercheck/site_queue.html''
       [(''titulo'', CText (''Site '' @ site_name s @ '' - Cola'')),
        (''site'', CSite s),
        (''num_page'', CInt num_page),
        (''num_pages'', CNat (length pages)),
        (''page'', CPages listed)]))))"

definition site_last :: "paginator \<Rightarrow> request \<Rightarrow> site \<Rightarrow> reply view" where
  "site_last paginate r s =
     (let num_page = get_page (GET r) in
     andThen (on_db (reads (all_checked_pages s))) (\<lambda>pages.
     andThen (lift (paginate pages PAGE_SIZE num_page)) (\<lambda>listed.
     ret (Render ''spidercheck/site_last.html''
       [(''titulo'', CText (''Site '' @ site_name s @ '' - Cola'')),
        (''site'', CSite s),
        (''num_page'', CInt num_page),
        (''num_pages'', CNat (length pages)),
        (''page'', CPages listed)]))))"

definition site_no_links :: "request \<Rightarrow> site \<Rightarrow> reply view" where
  "site_no_links r s =
     andThen (on_db (reads (\<lambda>w. filter (\<lambda>p. \<not> is_linkable p = True) (site_pages s w)))) (\<lambda>not_linkable_pages.
     (let num_pages = length not_linkable_pages in
     ret (Render ''spidercheck/site_no_links.html''
       [(''titulo'', CText (''P'' @ [CHR 0xE1] @ ''ginas no enlazables '' @ site_str s @ '' ('' @ show_nat num_pages @ '')'')),
        (''site'', CSite s),
        (''num_pages'', CNat num_pages),
        (''pages'', CPages not_linkable_pages)])))"

definition site_scheduled :: "request \<Rightarrow> site \<Rightarrow> reply view" where
  "site_scheduled r s =
     andThen (on_db (reads (all_scheduled_pages s))) (\<lambda>scheduled.
     ret (Render ''spidercheck/site_scheduled.html''
       [(''titulo'', CText (''Site '' @ site_name s @ '' - P'' @ [CHR 0xE1] @ ''ginas priorizadas'')),
        (''site'', CSite s),
        (''scheduled'', CScheduled scheduled),
        (''num_pages'', CNat (length scheduled))]))"

text \<open>\<open>orphans\<close> stands for \<open>dbraw.load_paginas_huerfanas\<close>.\<close>

definition site_orphans :: "paginator \<Rightarrow> (nat \<Rightarrow> world \<Rightarrow> page list) \<Rightarrow> request \<Rightarrow> site \<Rightarrow> reply view" where
  "site_orphans paginate orphans r s =
     (let num_page = get_page (GET r) in
     andThen (on_db (reads (orphans (id_site s)))) (\<lambda>found.
     (let total_pages = length found in
     andThen (lift (paginate found PAGE_SIZE num_page)) (\<lambda>listed.
     ret (Render ''spidercheck/site_orphans.html''
       [(''titulo'', CText (''P'' @ [CHR 0xE1] @ ''ginas hu'' @ [CHR 0xE9] @ ''rfanas en '' @ site_str s @
           '' ('' @ show_nat total_pages @ '')'')),
        (''site'', CSite s),
        (''num_page'', CInt num_page),
        (''num_pages'', CNat (length found)),
        (''page'', CPages listed)])))))"

definition site_search :: "request \<Rightarrow> site \<Rightarrow> reply view" where
  "site_search r s =
     (let q = get_or (GET r) ''q'' []
      in andThen (on_db (reads (\<lambda>w. if q \<noteq> [] then fst (search (\<lambda>_. Inl AssertionError) s q False w) else []))) (\<lambda>found.
         ret (Render ''spidercheck/site_search.html''
           [(''titulo'', CText (''B'' @ [CHR 0xFA] @ ''squeda por patrones de URL'')),
            (''site'', CSite s),
            (''query'', CText q),
            (''pages'', CPages found)])))"

section \<open>Pages\<close>

definition detail_page :: "request \<Rightarrow> page \<Rightarrow> reply view" where
  "detail_page r p =
     andThen (on_db (site_of p)) (\<lambda>s.
     ret (Render ''spidercheck/detail_page.html''
       [(''titulo'', CText (''P'' @ [CHR 0xE1] @ ''gina '' @ show_nat (id_page p) @ '' de '' @ site_name s)),
        (''page'', CPage p)]))"

text \<open>\<open>show_msg\<close> is the \<open>repr\<close> of the text of a successful check.\<close>

definition page_check :: "env \<Rightarrow> (check_msg \<Rightarrow> string) \<Rightarrow> request \<Rightarrow> page \<Rightarrow> reply view" where
  "page_check env show_msg r p =
     andThen (on_db (check_page env p)) (\<lambda>result.
     andThen (if bool_of result
              then add_success_message (id_usuario r)
                     (''La p'' @ [CHR 0xE1] @ ''gina '' @ show_nat (id_page p) @ '' se ha vuelto a comprobar: '' @
                      str_of show_msg show_int result)
              else add_error_message (id_usuario r)
                     (''La p'' @ [CHR 0xE1] @ ''gina '' @ show_nat (id_page p) @ '' sigue dando error: '' @
                      str_of show_msg show_int result)) (\<lambda>_.
     ret (Redirect (a_detalle_pagina (ToPage p)))))"

definition toogle_is_linkable :: "request \<Rightarrow> page \<Rightarrow> reply view" where
  "toogle_is_linkable r p =
     (let p = p\<lparr>is_linkable := \<not> is_linkable p\<rparr>
      in andThen (if \<not> is_linkable p
                  then andThen (on_db (reads (\<lambda>w. length (incoming_links p w)))) (\<lambda>counter.
                       andThen (on_db (writes (delete_links (\<lambda>l. to_page l = id_page p)))) (\<lambda>_.
                       if counter > 0
                       then add_success_message (id_usuario r) (''Se han eliminado '' @ show_nat counter @ '' enlaces'')
                       else ret ()))
                  else ret ()) (\<lambda>_.
         andThen (on_db (page_save p)) (\<lambda>_.
         ret (Redirect (a_detalle_pagina (ToPage p))))))"

definition page_delete :: "request \<Rightarrow> page \<Rightarrow> reply view" where
  "page_delete r p =
     assert (is_post r)
      (andThen (on_db (reads (can_be_deleted p))) (\<lambda>free.
       assert free
        (andThen (on_db (site_of p)) (\<lambda>site.
         andThen (on_db (writes (delete_pages (\<lambda>q. id_page q = id_page p)))) (\<lambda>_.
         ret (Redirect (a_detalle_site (ToSite site))))))))"

text \<open>One turn of the loops that delete pages; the accumulator is the counter.\<close>

definition delete_or_complain :: "nat \<Rightarrow> page \<Rightarrow> nat \<Rightarrow> nat view" where
  "delete_or_complain user p counter =
     andThen (on_db (reads (can_be_deleted p))) (\<lambda>free.
     if free then
       andThen (on_db (writes (delete_pages (\<lambda>q. id_page q = id_page p)))) (\<lambda>_. ret (counter + 1))
     else
       andThen (on_db (site_of p)) (\<lambda>s.
       andThen (lift (page_str s p)) (\<lambda>t.
       andThen (add_error_message user (''La p'' @ [CHR 0xE1] @ ''gina '' @ t @ '' no ha podido ser borrada'')) (\<lambda>_.
       ret counter))))"

fun ints_of :: "string list \<Rightarrow> pyexn + int list" where
  "ints_of [] = Inr []"
| "ints_of (t # ts) =
     (case int_of_str t of
        None \<Rightarrow> Inl (ValueError ''invalid literal for int() with base 10'')
      | Some i \<Rightarrow> (case ints_of ts of Inl e \<Rightarrow> Inl e | Inr is \<Rightarrow> Inr (i # is)))"

definition site_expunge :: "request \<Rightarrow> site \<Rightarrow> reply view" where
  "site_expunge r s =
     assert (is_post r)
      (andThen (lift (ints_of (id_pages r))) (\<lambda>ids.
       andThen (on_db (reads (\<lambda>w. sort_key page_created_at
                  (filter (\<lambda>p. int (id_page p) \<in> set ids) (site_pages s w))))) (\<lambda>chosen.
       andThen (for_acc (delete_or_complain (id_usuario r)) chosen 0) (\<lambda>counter.
       andThen (add_success_message (id_usuario r)
          (''Borradas '' @ show_nat counter @ '' p'' @ [CHR 0xE1] @ ''ginas de '' @ site_str s)) (\<lambda>_.
       ret (Redirect (a_site_orphans (ToSite s))))))))"

definition site_expunge_all :: "(nat \<Rightarrow> world \<Rightarrow> page list) \<Rightarrow> request \<Rightarrow> site \<Rightarrow> reply view" where
  "site_expunge_all orphans r s =
     assert (is_post r)
      (andThen (on_db (reads (orphans (id_site s)))) (\<lambda>chosen.
       andThen (for_acc (delete_or_complain (id_usuario r)) chosen 0) (\<lambda>counter.
       andThen (add_success_message (id_usuario r) (''Borradas '' @ show_nat counter @ '' p'' @ [CHR 0xE1] @ ''ginas'')) (\<lambda>_.
       ret (Redirect (a_detalle_site (ToSite s)))))))"

section \<open>Facts\<close>

lemma on_db_eval: "on_db m (w, ms) = (case m w of (out, w') \<Rightarrow> (out, (w', ms)))"
  by (simp add: on_db_def focused_def)

lemma on_db_keeps [keeps_intros]: "keeps I m \<Longrightarrow> keeps (\<lambda>v. I (fst v)) (on_db m)"
  unfolding on_db_def by (rule db_part.focused_keeps)

lemma message_keeps [keeps_intros]: "keeps (\<lambda>v. I (fst v)) (add_error_message u t)"
  "keeps (\<lambda>v. I (fst v)) (add_success_message u t)"
  by (auto simp: keeps_def add_error_message_def add_success_message_def writes_def)

lemma get_page_default: "get_page [] = 1"
  by code_simp

lemma get_page_last_wins: "get_or g ''p'' ''1'' = ''1'' \<Longrightarrow> map_of g ''page'' = Some (show_nat n) \<Longrightarrow> get_page g = int n"
proof -
  have "int_of_str ''1'' = Some 1" by code_simp
  then show "get_or g ''p'' ''1'' = ''1'' \<Longrightarrow> map_of g ''page'' = Some (show_nat n) \<Longrightarrow> get_page g = int n"
    by (simp add: get_page_def int_of_show_nat)
qed

text \<open>Toggling: the row changes its flag, and a page that stops being linkable loses the links to it.\<close>

lemma toogle_outcome:
  assumes "db_ok w" "p \<in> set (page_rows w)"
  shows "toogle_is_linkable r p (w, ms) =
    (let q = p\<lparr>is_linkable := \<not> is_linkable p\<rparr>; n = length (incoming_links p w)
     in (Inr (Redirect (a_detalle_pagina (ToPage q))),
         if is_linkable p
         then (page_put q (delete_links (\<lambda>l. to_page l = id_page p) w),
               if n > 0 then ms @ [SuccessMessage (id_usuario r) (''Se han eliminado '' @ show_nat n @ '' enlaces'')] else ms)
         else (page_put q w, ms)))"
proof -
  let ?q = "p\<lparr>is_linkable := \<not> is_linkable p\<rparr>"
  have fits: "page_fits ?q" using assms by (auto simp: page_fits_def db_ok_defs)
  have save: "page_save ?q w = (Inr (), page_put ?q w)"
    using page_save_row [OF assms, of ?q] fits by (simp add: page_nat_key_def)
  let ?d = "delete_links (\<lambda>l. to_page l = id_page p) w"
  have "p \<in> set (page_rows ?d)" using assms(2) by (simp add: delete_links_def)
  then have save': "page_save ?q ?d = (Inr (), page_put ?q ?d)"
    using page_save_row [OF delete_links_ok [OF assms(1)], of p _ ?q] fits by (simp add: page_nat_key_def)
  show ?thesis
    using save save'
    by (cases "is_linkable p") (simp_all add: toogle_is_linkable_def andThen_def on_db_eval reads_def writes_def ret_def Let_def
        incoming_links_def add_success_message_def)
qed

text \<open>Deleting pages that nothing links to: no link of another page is lost.\<close>

lemma delete_free_links:
  assumes "page_keys w" "p \<in> set (page_rows w)" "can_be_deleted p w"
  shows "set (link_rows (delete_pages (\<lambda>q. id_page q = id_page p) w)) = {l \<in> set (link_rows w). from_page l \<noteq> id_page p}"
    "set (page_rows (delete_pages (\<lambda>q. id_page q = id_page p) w)) = set (page_rows w) - {p}"
proof -
  have "(\<exists>q \<in> set (page_rows w). id_page q = id_page p \<and> id_page q = k) \<longleftrightarrow> k = id_page p" for k
    using assms(2) by auto
  moreover have "\<forall>l \<in> set (link_rows w). to_page l \<noteq> id_page p"
    using assms(3) by (simp add: can_be_deleted_def incoming_links_def filter_empty_conv)
  ultimately show "set (link_rows (delete_pages (\<lambda>q. id_page q = id_page p) w)) =
      {l \<in> set (link_rows w). from_page l \<noteq> id_page p}"
    unfolding delete_pages_def Let_def by auto
  show "set (page_rows (delete_pages (\<lambda>q. id_page q = id_page p) w)) = set (page_rows w) - {p}"
    using page_table.same_key [OF assms(1) _ assms(2)] assms(2) unfolding delete_pages_def Let_def by auto
qed

lemma page_delete_outcome:
  assumes "db_ok w" "p \<in> set (page_rows w)" "site_get (page_site p) w = Some s" "is_post r"
  shows "page_delete r p (w, ms) =
    (if can_be_deleted p w
     then (Inr (Redirect (a_detalle_site (ToSite s))), (delete_pages (\<lambda>q. id_page q = id_page p) w, ms))
     else (Inl AssertionError, (w, ms)))"
  using assms(3,4)
  by (simp add: page_delete_def assert_def andThen_def on_db_eval reads_def writes_def site_of_def ret_def raise_def)

text \<open>What goes with a page that nothing links to, and what stays.\<close>

lemma page_delete_effect:
  assumes "db_ok w" "p \<in> set (page_rows w)" "is_post r" "page_delete r p (w, ms) = (out, w', ms')"
  shows "ms' = ms \<and>
    (if \<exists>l \<in> set (link_rows w). to_page l = id_page p
     then out = Inl AssertionError \<and> w' = w
     else (\<exists>s. site_get (page_site p) w = Some s \<and> out = Inr (Redirect (a_detalle_site (ToSite s)))) \<and>
       db_ok w' \<and> site_rows w' = site_rows w \<and> set (page_rows w') = set (page_rows w) - {p} \<and>
       set (link_rows w') = {l \<in> set (link_rows w). from_page l \<noteq> id_page p} \<and>
       set (value_rows w') = {v \<in> set (value_rows w). value_page v \<noteq> id_page p} \<and>
       set (sched_rows w') = {c \<in> set (sched_rows w). sched_page c \<noteq> id_page p})"
proof -
  obtain s where s: "site_get (page_site p) w = Some s" using row_site [OF assms(1,2)] by blast
  have free: "can_be_deleted p w \<longleftrightarrow> \<not> (\<exists>l \<in> set (link_rows w). to_page l = id_page p)"
    by (auto simp: can_be_deleted_def incoming_links_def filter_empty_conv)
  have gone: "(\<exists>q \<in> set (page_rows w). id_page q = id_page p \<and> id_page q = k) \<longleftrightarrow> k = id_page p" for k
    using assms(2) by auto
  let ?d = "delete_pages (\<lambda>q. id_page q = id_page p) w"
  have "set (value_rows ?d) = {v \<in> set (value_rows w). value_page v \<noteq> id_page p}"
    "set (sched_rows ?d) = {c \<in> set (sched_rows w). sched_page c \<noteq> id_page p}" "site_rows ?d = site_rows w"
    unfolding delete_pages_def Let_def gone by auto
  with page_delete_outcome [OF assms(1,2) s assms(3), of ms] assms(4) s free
    delete_free_links [OF db_ok_keys(2) [OF assms(1)] assms(2)] delete_pages_ok [OF assms(1)]
  show ?thesis by (auto split: if_splits)
qed

text \<open>
  The deletion loops: every page deleted had no incoming link when its turn came, so the
  links between pages that stay are untouched.
\<close>

definition expunged :: "world \<Rightarrow> page set \<Rightarrow> world \<Rightarrow> bool" where
  "expunged w D w' \<longleftrightarrow> db_ok w' \<and> D \<subseteq> set (page_rows w) \<and> set (page_rows w') = set (page_rows w) - D \<and>
     set (link_rows w') = {l \<in> set (link_rows w). from_page l \<notin> id_page ` D} \<and>
     (\<forall>l \<in> set (link_rows w). to_page l \<in> id_page ` D \<longrightarrow> from_page l \<in> id_page ` D) \<and>
     site_rows w' = site_rows w"

lemma expunged_refl: "db_ok w \<Longrightarrow> expunged w {} w"
  by (simp add: expunged_def)

lemma expunged_step:
  assumes "expunged w D v" "db_ok w" "p \<in> set (page_rows v)" "can_be_deleted p v"
  shows "expunged w (insert p D) (delete_pages (\<lambda>q. id_page q = id_page p) v)"
proof -
  have ok: "db_ok v" and D: "D \<subseteq> set (page_rows w)" "set (page_rows v) = set (page_rows w) - D"
    and L: "set (link_rows v) = {l \<in> set (link_rows w). from_page l \<notin> id_page ` D}"
    and in_D: "\<forall>l \<in> set (link_rows w). to_page l \<in> id_page ` D \<longrightarrow> from_page l \<in> id_page ` D"
    and S: "site_rows v = site_rows w"
    using assms(1) by (auto simp: expunged_def)
  note del = delete_free_links [OF db_ok_keys(2) [OF ok] assms(3,4)]
  have "\<forall>l \<in> set (link_rows v). to_page l \<noteq> id_page p"
    using assms(4) by (simp add: can_be_deleted_def incoming_links_def filter_empty_conv)
  with L in_D have "\<forall>l \<in> set (link_rows w). to_page l \<in> id_page ` insert p D \<longrightarrow> from_page l \<in> id_page ` insert p D"
    by auto
  moreover have "site_rows (delete_pages (\<lambda>q. id_page q = id_page p) v) = site_rows w"
    using S by (simp add: delete_pages_def Let_def)
  ultimately show ?thesis
    unfolding expunged_def using del L D delete_pages_ok [OF ok] assms(3) by auto
qed

lemma delete_or_complain_cases:
  assumes "delete_or_complain u p n (v, ms) = (Inr k, v', ms')"
  shows "if can_be_deleted p v then k = n + 1 \<and> v' = delete_pages (\<lambda>q. id_page q = id_page p) v else k = n \<and> v' = v"
  using assms
  by (auto simp: delete_or_complain_def andThen_def on_db_eval reads_def writes_def ret_def lift_def site_of_def
      add_error_message_def split: if_splits option.splits sum.splits)

lemma expunge_loop:
  assumes "for_acc (delete_or_complain u) ps n (v, ms) = (Inr k, v', ms')" "expunged w D v" "db_ok w"
    "set ps \<subseteq> set (page_rows w) - D" "distinct ps"
  shows "\<exists>E. E \<subseteq> set ps \<and> expunged w (D \<union> E) v' \<and> k = n + card E"
  using assms
proof (induction ps arbitrary: n v ms D)
  case Nil
  then show ?case by (intro exI [of _ "{}"]) (simp add: ret_def)
next
  case (Cons p ps)
  from Cons.prems(1) obtain j u1 ms1 where one: "delete_or_complain u p n (v, ms) = (Inr j, u1, ms1)"
      and rest: "for_acc (delete_or_complain u) ps j (u1, ms1) = (Inr k, v', ms')"
    by (auto elim!: andThen_InrE)
  note step = delete_or_complain_cases [OF one]
  show ?case
  proof (cases "can_be_deleted p v")
    case True
    have "p \<in> set (page_rows v)" using Cons.prems(2,4) by (auto simp: expunged_def)
    with True step have "expunged w (insert p D) u1"
      using expunged_step [OF Cons.prems(2,3)] by simp
    from Cons.IH [OF rest this Cons.prems(3)] Cons.prems(4,5) obtain E where
      E: "E \<subseteq> set ps" "expunged w (insert p D \<union> E) v'" "k = j + card E" by auto
    have "card (insert p E) = Suc (card E)"
      using E(1) Cons.prems(5) finite_subset [OF E(1)] by (intro card_insert_disjoint) auto
    with E True step show ?thesis by (intro exI [of _ "insert p E"]) auto
  next
    case False
    with step have "expunged w D u1" using Cons.prems(2) by simp
    from Cons.IH [OF rest this Cons.prems(3)] Cons.prems(4,5) obtain E where
      E: "E \<subseteq> set ps" "expunged w (D \<union> E) v'" "k = j + card E" by auto
    with False step show ?thesis by (intro exI [of _ E]) auto
  qed
qed

lemma site_expunge_outcome:
  assumes "db_ok w" "site_expunge r s (w, ms) = (Inr reply, w', ms')"
  shows "\<exists>ids D. is_post r \<and> ints_of (id_pages r) = Inr ids \<and> expunged w D w' \<and>
    D \<subseteq> {p \<in> set (site_pages s w). int (id_page p) \<in> set ids} \<and>
    reply = Redirect (a_site_orphans (ToSite s)) \<and>
    last ms' = SuccessMessage (id_usuario r) (''Borradas '' @ show_nat (card D) @ '' p'' @ [CHR 0xE1] @ ''ginas de '' @ site_name s)"
proof -
  from assms(2) obtain ids where ids: "ints_of (id_pages r) = Inr ids" and post: "is_post r"
    by (auto simp: site_expunge_def assert_def andThen_def lift_def raise_def split: sum.splits if_splits)
  define ps where "ps = sort_key page_created_at (filter (\<lambda>p. int (id_page p) \<in> set ids) (site_pages s w))"
  from assms(2) ids post obtain k v ms1 where
      loop: "for_acc (delete_or_complain (id_usuario r)) ps 0 (w, ms) = (Inr k, v, ms1)" and
      out: "w' = v" "reply = Redirect (a_site_orphans (ToSite s))"
        "ms' = ms1 @ [SuccessMessage (id_usuario r) (''Borradas '' @ show_nat k @ '' p'' @ [CHR 0xE1] @ ''ginas de '' @ site_name s)]"
    by (auto simp: site_expunge_def assert_def andThen_def lift_def on_db_eval reads_def ps_def ret_def site_str_def
        add_success_message_def writes_def split: prod.splits sum.splits)
  have "distinct (page_rows w)" using db_ok_keys(2) [OF assms(1)] by (simp add: page_keys_def distinct_map)
  then have "distinct ps" by (simp add: ps_def site_pages_def)
  moreover have "set ps \<subseteq> set (page_rows w)" by (auto simp: ps_def site_pages_def)
  ultimately obtain D where "D \<subseteq> set ps" "expunged w D w'" "k = card D"
    using expunge_loop [OF loop expunged_refl [OF assms(1)] assms(1)] out(1) by auto
  with ids post out show ?thesis by (intro exI [of _ ids] exI [of _ D]) (auto simp: ps_def)
qed

section \<open>Lists and details change nothing\<close>

text \<open>The views that only show something leave the database and the messages as they are.\<close>

lemma keeps_on_db_reads: "keeps I (on_db (reads g))"
  by (simp add: keeps_def on_db_def focused_def reads_def)

lemma keeps_on_db_site_of: "keeps I (on_db (site_of p))"
  by (auto simp: keeps_def on_db_def focused_def site_of_def split: option.split)

lemma lists_keep:
  "keeps I (homepage r)" "keeps I (site_detail hours r s)" "keeps I (site_errors paginate r s)"
  "keeps I (site_queue paginate r s)" "keeps I (site_last paginate r s)" "keeps I (site_no_links r s)"
  "keeps I (site_scheduled r s)" "keeps I (site_search r s)" "keeps I (site_orphans paginate orphans r s)"
  "keeps I (detail_page r p)"
  unfolding homepage_def site_detail_def site_errors_def site_queue_def site_last_def site_no_links_def
    site_scheduled_def site_search_def site_orphans_def detail_page_def Let_def split_def
  by (intro keeps_intros keeps_on_db_reads keeps_on_db_site_of)+

section \<open>Expunging, however it ends\<close>

text \<open>The same for whatever page the loop is at, also one that is gone or was read long ago.\<close>

lemma expunged_any:
  assumes "expunged w D v" "db_ok w" "can_be_deleted p v"
  shows "\<exists>E. expunged w E (delete_pages (\<lambda>q. id_page q = id_page p) v)"
proof (cases "\<exists>q \<in> set (page_rows v). id_page q = id_page p")
  case True
  then obtain q where q: "q \<in> set (page_rows v)" "id_page q = id_page p" by blast
  moreover have "can_be_deleted q v" using assms(3) q(2) by (simp add: can_be_deleted_def incoming_links_def)
  ultimately have "expunged w (insert q D) (delete_pages (\<lambda>r. id_page r = id_page q) v)"
    using expunged_step [OF assms(1,2)] by blast
  with q(2) show ?thesis by auto
next
  case False
  then have "delete_pages (\<lambda>q. id_page q = id_page p) v = v"
    by (simp add: delete_pages_def Let_def row_del_def filter_id_conv)
  with assms(1) show ?thesis by auto
qed

lemma expunged_delete:
  assumes "db_ok w"
  shows "keeps (\<lambda>v. \<exists>D. expunged w D (fst v)) (delete_or_complain u p n)"
proof (rule keepsI)
  fix v :: "world \<times> message list" assume "\<exists>D. expunged w D (fst v)"
  then show "\<exists>D. expunged w D (fst (snd (delete_or_complain u p n v)))"
    using expunged_any [OF _ assms, of _ "fst v" p]
    by (cases v) (auto simp: delete_or_complain_def andThen_def on_db_eval reads_def writes_def ret_def lift_def site_of_def
        add_error_message_def split: option.split sum.split)
qed

lemma expunging_views:
  assumes "db_ok w"
  shows "\<exists>D. expunged w D (fst (snd (site_expunge r s (w, ms))))"
    "\<exists>D. expunged w D (fst (snd (site_expunge_all orphans r s (w, ms))))"
proof -
  have "keeps (\<lambda>v. \<exists>D. expunged w D (fst v)) (add_success_message u t)" for u t
    by (rule message_keeps)
  then have "keeps (\<lambda>v. \<exists>D. expunged w D (fst v)) (site_expunge r s)"
    "keeps (\<lambda>v. \<exists>D. expunged w D (fst v)) (site_expunge_all orphans r s)"
    unfolding site_expunge_def site_expunge_all_def assert_def
    by (intro keeps_intros keeps_on_db_reads expunged_delete [OF assms])+
  then show "\<exists>D. expunged w D (fst (snd (site_expunge r s (w, ms))))"
    "\<exists>D. expunged w D (fst (snd (site_expunge_all orphans r s (w, ms))))"
    using expunged_refl [OF assms] by (auto dest!: keepsD [where s = "(w, ms)"])
qed

end
