(* ===== verification/Races.thy ===== *)
theory Races
  imports Views Crawl
begin

text \<open>
  Two processes on one page: a crawl has read its row, a user changes or deletes it, and then the
  check of the crawl saves. A save writes every column of the row as it was read, and inserts a
  row where none is left.
\<close>

lemma failed_fits: "db_ok w \<Longrightarrow> p \<in> set (page_rows w) \<Longrightarrow> length err \<le> 512 \<Longrightarrow> page_fits (failed_row env p t err)"
  by (auto simp: page_fits_def failed_row_def int_fits_def db_ok_defs)

lemma failed_key: "id_page (failed_row env p t err) = id_page p" "page_nat_key (failed_row env p t err) = page_nat_key p"
  "page_site (failed_row env p t err) = page_site p" "is_linkable (failed_row env p t err) = is_linkable p"
  by (simp_all add: failed_row_def page_nat_key_def)

text \<open>The row that is there now may differ from the page in everything but key and address.\<close>

lemma stale_check_row:
  assumes "db_ok v" "q \<in> set (page_rows v)" "id_page q = id_page p" "page_nat_key q = page_nat_key p"
    and "site_get (page_site p) v = Some s" "get_full_url s p = Inr url" "has_url_type url"
    and "e_head env (tick v + 2) url = HeadRaises err" "page_fits (failed_row env p (tick v) err)"
  shows "check_page env p v = (Inr (Failure (failed_text url err) None),
    (page_put (failed_row env p (tick v) err) v)\<lparr>tick := tick v + 4\<rparr>)"
proof -
  have "page_save (failed_row env p (tick v) err) (v\<lparr>tick := tick v + 4\<rparr>) =
      (Inr (), page_put (failed_row env p (tick v) err) (v\<lparr>tick := tick v + 4\<rparr>))"
    using page_save_row [of "v\<lparr>tick := tick v + 4\<rparr>" q "failed_row env p (tick v) err"] assms(1-4,9)
    by (simp add: failed_key)
  then show ?thesis by (simp add: stale_check [OF assms(5-8)] page_put_def)
qed

text \<open>And when there is none any more, one is inserted.\<close>

lemma stale_check_gone:
  assumes "page_nat_key p \<notin> page_nat_key ` set (page_rows v)"
    and "site_get (page_site p) v = Some s" "get_full_url s p = Inr url" "has_url_type url"
    and "e_head env (tick v + 2) url = HeadRaises err" "page_fits (failed_row env p (tick v) err)"
  shows "check_page env p v = (Inr (Failure (failed_text url err) None),
    (page_put (failed_row env p (tick v) err) v)\<lparr>tick := tick v + 4\<rparr>)"
proof -
  have "\<not> clashes id_page page_nat_key (failed_row env p (tick v) err) (page_rows v)"
    using assms(1) by (auto simp: clashes_def failed_key image_iff)
  moreover have "site_get (page_site p) (v\<lparr>tick := tick v + 4\<rparr>) \<noteq> None"
    using assms(2) by (simp add: site_get_def)
  ultimately have "page_save (failed_row env p (tick v) err) (v\<lparr>tick := tick v + 4\<rparr>) =
      (Inr (), page_put (failed_row env p (tick v) err) (v\<lparr>tick := tick v + 4\<rparr>))"
    using assms(6) by (simp add: page_save_def failed_key)
  then show ?thesis by (simp add: stale_check [OF assms(2-5)] page_put_def)
qed

lemma check_undoes_toogle:
  assumes "db_ok w" "p \<in> set (page_rows w)" "site_get (page_site p) w = Some s" "get_full_url s p = Inr url"
    "has_url_type url" "e_head env (tick w + 2) url = HeadRaises err" "length err \<le> 512"
    and "toogle_is_linkable r p (w, ms) = (out, v, ms')" "check_page env p v = (res, u)"
  shows "(\<exists>q. page_get (id_page p) v = Some q \<and> is_linkable q \<noteq> is_linkable p) \<and>
    (\<exists>q. page_get (id_page p) u = Some q \<and> is_linkable q = is_linkable p \<and> is_checked q) \<and>
    (is_linkable p \<longrightarrow> incoming_links p u = [])"
proof -
  let ?q = "p\<lparr>is_linkable := \<not> is_linkable p\<rparr>"
  let ?d = "if is_linkable p then delete_links (\<lambda>l. to_page l = id_page p) w else w"
  have v: "v = page_put ?q ?d"
    using assms(8) by (auto simp: toogle_outcome [OF assms(1,2)] Let_def split: if_splits)
  have d: "db_ok ?d" "p \<in> set (page_rows ?d)" "tick ?d = tick w"
    using assms(1,2) by (simp_all add: delete_links_ok) (simp_all add: delete_links_def)
  have "?q \<in> set (page_rows v)" using d(2) by (auto simp: v page_put_def row_put_def)
  have "page_fits ?q" using assms(1,2) by (auto simp: page_fits_def db_ok_defs)
  then have "page_save ?q ?d = (Inr (), v)"
    using page_save_row [OF d(1,2), of ?q] v by (simp add: page_nat_key_def)
  moreover have "live (id_page p) (snd (page_save ?q ?d))"
    by (rule keepsD [OF live_page_save row_live [OF d(1,2)]]) simp
  ultimately have ok: "db_ok v" by (simp add: live_def)
  have t: "tick v = tick w" "site_get (page_site p) v = Some s"
    using d(3) assms(3) by (simp_all add: v page_put_def site_get_def delete_links_def)
  have u: "u = (page_put (failed_row env p (tick v) err) v)\<lparr>tick := tick v + 4\<rparr>"
    using stale_check_row [OF ok \<open>?q \<in> set (page_rows v)\<close> _ _ t(2) assms(4,5), of env err]
      failed_fits [OF assms(1,2,7)] assms(6,9) t(1) by (simp add: page_nat_key_def)
  have "page_get (id_page p) v = Some ?q"
    using page_table.get_put_same [of ?q ?d] by (simp add: v)
  moreover have "page_get (id_page p) u = Some (failed_row env p (tick v) err)"
    using page_table.get_put_same [of "failed_row env p (tick v) err" v] by (simp add: u failed_key page_get_def)
  moreover have "incoming_links p u = []" if "is_linkable p"
    using that by (simp add: u v incoming_links_def page_put_def delete_links_def row_del_def filter_empty_conv)
  ultimately show ?thesis by (auto simp: failed_row_def)
qed

lemma check_revives_page:
  assumes "db_ok w" "p \<in> set (page_rows w)" "site_get (page_site p) w = Some s" "get_full_url s p = Inr url"
    "has_url_type url" "e_head env (tick w + 2) url = HeadRaises err" "length err \<le> 512"
    and "is_post r" "can_be_deleted p w" "page_delete r p (w, ms) = (out, v, ms')" "check_page env p v = (res, u)"
  shows "page_get (id_page p) v = None \<and> (\<exists>q. page_get (id_page p) u = Some q \<and> is_checked q) \<and>
    page_values p u = [] \<and> outgoing_links p u = []"
proof -
  have v: "v = delete_pages (\<lambda>q. id_page q = id_page p) w"
    using assms(8,9,10) by (simp add: page_delete_outcome [OF assms(1,2,3,8)])
  have rows: "set (page_rows v) = set (page_rows w) - {p}"
    using delete_free_links(2) [OF db_ok_keys(2) [OF assms(1)] assms(2,9)] by (simp add: v)
  have "page_nat_key p \<notin> page_nat_key ` set (page_rows v)"
    using distinct_map_eqD [of page_nat_key "page_rows w" _ p] db_ok_unique(2) [OF assms(1)] assms(2)
    by (auto simp: rows unique_by_def)
  moreover have t: "tick v = tick w" "site_get (page_site p) v = Some s"
    using assms(3) by (simp_all add: v delete_pages_def Let_def site_get_def)
  ultimately have u: "u = (page_put (failed_row env p (tick v) err) v)\<lparr>tick := tick v + 4\<rparr>"
    using stale_check_gone [of p v s url env err] assms(4,5,6,11) failed_fits [OF assms(1,2,7)] by simp
  have "page_get (id_page p) v = None"
    by (simp add: v delete_pages_def Let_def page_get_def row_get_def row_del_def filter_empty_conv)
  moreover have "page_get (id_page p) u = Some (failed_row env p (tick v) err)"
    using page_table.get_put_same [of "failed_row env p (tick v) err" v] by (simp add: u failed_key page_get_def)
  moreover have "page_values p u = []" "outgoing_links p u = []"
    using assms(2)
    by (auto simp: u v page_values_def outgoing_links_def page_put_def delete_pages_def Let_def row_del_def filter_empty_conv)
  ultimately show ?thesis by (auto simp: failed_row_def)
qed

end
