(* ===== verification/Listings.thy ===== *)
theory Listings
  imports Values Frontier Views "HOL-Library.Multiset"
begin

text \<open>
  What the queries of a site list: checked and pending pages, the queue, the pages in error, the
  progress, the search by text and the counts of values, each in terms of the rows of the site;
  and what the page of a site shows of them.
\<close>

section \<open>Listings\<close>

lemma listing_sets:
  "set (all_checked_pages s w) = {p \<in> set (site_pages s w). is_checked p}"
  "set (all_pending_pages s w) = {p \<in> set (site_pages s w). \<not> is_checked p}"
  by (simp_all add: all_checked_pages_def all_pending_pages_def)

lemma checked_and_pending: "mset (all_checked_pages s w) + mset (all_pending_pages s w) = mset (site_pages s w)"
proof -
  have "mset (filter is_checked ps) + mset (filter (\<lambda>p. \<not> is_checked p) ps) = mset ps" for ps :: "page list"
    by (induction ps) auto
  then show ?thesis by (simp add: all_checked_pages_def all_pending_pages_def)
qed

lemma errors_listed:
  "set (pages_with_errors s w) = {p \<in> set (all_checked_pages s w). \<not> is_ok p \<and> status p \<noteq> 300}"
  by (auto simp: pages_with_errors_def listing_sets is_error_row_def is_ok_def)

lemma queue_listed:
  "mset (all_queued_pages s w) = mset (if all_pending_pages s w \<noteq> [] then all_pending_pages s w else all_checked_pages s w)"
  "sorted (map (if all_pending_pages s w \<noteq> [] then page_created_at else checked_at) (all_queued_pages s w))"
  by (auto simp: all_queued_pages_def all_pending_pages_def all_checked_pages_def Let_def)

lemma progress_listed:
  assumes "site_pages s w \<noteq> []"
  shows "progress s w = round2 (float64 (of_nat (length (all_checked_pages s w)) * 100 / of_nat (length (site_pages s w))))"
  using assms by (simp add: progress_def all_checked_pages_def Let_def)

text \<open>
  The progress is the percentage of the checked pages up to the rounding to two digits; for fewer
  than 20000 pages a page that is pending always shows.
\<close>

lemma listing_numbers: "length (all_checked_pages s w) + length (all_pending_pages s w) = length (site_pages s w)"
  using arg_cong [where f = size, OF checked_and_pending [of s w]] by simp

lemma progress_range:
  "0 \<le> progress s w" "progress s w \<le> 100"
  "\<bar>progress s w * of_nat (length (site_pages s w)) - 100 * of_nat (length (all_checked_pages s w))\<bar>
     \<le> (1 / 200 + 1 / 10 ^ 13) * of_nat (length (site_pages s w))"
proof -
  define c n where "c = (of_nat (length (all_checked_pages s w)) :: rat)" and "n = (of_nat (length (site_pages s w)) :: rat)"
  have "0 \<le> progress s w \<and> progress s w \<le> 100 \<and> \<bar>progress s w * n - 100 * c\<bar> \<le> (1 / 200 + 1 / 10 ^ 13) * n"
  proof (cases "site_pages s w = []")
    case True
    then show ?thesis using listing_numbers [of s w] by (simp add: progress_def c_def n_def)
  next
    case False
    then have n: "0 < n" by (simp add: n_def)
    have c: "0 \<le> c" "c \<le> n" using listing_numbers [of s w] by (simp_all add: c_def n_def)
    define x where "x = c * 100 / n"
    have x: "0 \<le> x" "x \<le> 100" using c n by (simp_all add: x_def divide_le_eq)
    have p: "progress s w = round2 (float64 x)" using progress_listed [OF False] by (simp add: x_def c_def n_def)
    have "progress s w * n - 100 * c = (progress s w - x) * n" using n by (simp add: x_def algebra_simps)
    then have "\<bar>progress s w * n - 100 * c\<bar> = \<bar>progress s w - x\<bar> * n" using n by (simp add: abs_mult)
    also have "\<dots> \<le> (1 / 200 + 1 / 10 ^ 13) * n"
      unfolding p using n percentage_range(3) [OF x] by (intro mult_right_mono) simp_all
    finally show ?thesis using percentage_range(1,2) [OF x] p by simp
  qed
  then show "0 \<le> progress s w" "progress s w \<le> 100"
    "\<bar>progress s w * of_nat (length (site_pages s w)) - 100 * of_nat (length (all_checked_pages s w))\<bar>
       \<le> (1 / 200 + 1 / 10 ^ 13) * of_nat (length (site_pages s w))"
    by (simp_all add: c_def n_def)
qed

lemma round2_full: "round2 (float64 100) = 100"
  by code_simp

lemma progress_full:
  assumes "site_pages s w \<noteq> []"
  shows "all_pending_pages s w = [] \<Longrightarrow> progress s w = 100"
    and "length (site_pages s w) < 20000 \<Longrightarrow> progress s w = 100 \<Longrightarrow> all_pending_pages s w = []"
proof -
  let ?c = "length (all_checked_pages s w)" and ?n = "length (site_pages s w)"
  have pos: "(0::rat) < of_nat ?n" using assms by simp
  show "progress s w = 100" if "all_pending_pages s w = []"
    using listing_numbers [of s w] that pos round2_full by (simp add: progress_listed [OF assms])
  show "all_pending_pages s w = []" if few: "?n < 20000" and full: "progress s w = 100"
  proof (rule ccontr)
    assume "all_pending_pages s w \<noteq> []"
    then have "Suc ?c \<le> ?n" using listing_numbers [of s w] by (cases "all_pending_pages s w") auto
    then have "(of_nat ?c :: rat) + 1 \<le> of_nat ?n" by (metis of_nat_Suc of_nat_le_iff add.commute)
    moreover have "(of_nat ?n :: rat) \<le> 19999" using few of_nat_mono [of ?n 19999, where 'a = rat] by simp
    ultimately have "of_nat ?c * 100 / (of_nat ?n :: rat) \<le> 100 - 100 / 19999"
      using pos by (simp add: divide_le_eq)
    also have "\<dots> < 100 - 1 / 200 - 1 / 10 ^ 13" by simp
    finally have "round2 (float64 (of_nat ?c * 100 / of_nat ?n)) \<noteq> 100"
      using pos by (intro percentage_not_full) simp_all
    with full show False by (simp add: progress_listed [OF assms])
  qed
qed

section \<open>Search\<close>

lemma search_text:
  "search compile s q False w = (found, e) \<Longrightarrow>
     e = None \<and> set found = {p \<in> set (site_pages s w). contains (lower q) (lower (subpath p))} \<and>
     sorted (map search_order found)"
  by (auto simp: search_def)

section \<open>Counts of values\<close>

lemma count_values_rows:
  "map_of (count_values s name w) t =
     (let n = length (filter (\<lambda>v. value_name v = name \<and> value_text v = t \<and>
                (\<exists>p \<in> set (site_pages s w). id_page p = value_page v)) (value_rows w))
      in if n = 0 then None else Some n)"
proof -
  define qs where "qs = filter (\<lambda>v. value_name v = name \<and>
    (\<exists>p \<in> set (site_pages s w). id_page p = value_page v)) (value_rows w)"
  have c: "count_values s name w = map (\<lambda>t. (t, length (filter (\<lambda>v. value_text v = t) qs))) (remdups (map value_text qs))"
    by (simp add: count_values_def qs_def)
  have "map_of (map (\<lambda>t. (t, f t)) ts) t = (if t \<in> set ts then Some (f t) else None)" for f :: "string \<Rightarrow> nat" and ts
    by (induction ts) auto
  moreover have "t \<in> set (remdups (map value_text qs)) \<longleftrightarrow> length (filter (\<lambda>v. value_text v = t) qs) \<noteq> 0"
    by (auto simp: filter_empty_conv)
  moreover have "filter (\<lambda>v. value_text v = t) qs = filter (\<lambda>v. value_name v = name \<and> value_text v = t \<and>
                (\<exists>p \<in> set (site_pages s w). id_page p = value_page v)) (value_rows w)"
    by (auto simp: qs_def intro!: filter_cong)
  ultimately show ?thesis unfolding c by (simp add: Let_def)
qed

text \<open>The pages of the site that hold a value of that name and text.\<close>

definition holders :: "site \<Rightarrow> string \<Rightarrow> string \<Rightarrow> world \<Rightarrow> page set" where
  "holders s name t w = {p \<in> set (site_pages s w). value_map w (id_page p, name) = Some t}"

lemma count_values_pages:
  assumes "db_ok w"
  shows "map_of (count_values s name w) t = (if holders s name t w = {} then None else Some (card (holders s name t w)))"
proof -
  let ?q = "\<lambda>v. value_name v = name \<and> value_text v = t \<and> (\<exists>p \<in> set (site_pages s w). id_page p = value_page v)"
  let ?rows = "filter ?q (value_rows w)"
  have u: "distinct (map value_nat_key (value_rows w))" using assms by (simp add: db_ok_defs unique_by_def)
  have k: "distinct (map id_page (site_pages s w))"
    using db_ok_keys(2) [OF assms] by (simp add: page_keys_def site_pages_def distinct_map_filterI)
  have ids: "id_page ` holders s name t w = value_page ` set ?rows"
  proof (intro set_eqI iffI)
    fix k assume "k \<in> id_page ` holders s name t w"
    then obtain p where p: "p \<in> set (site_pages s w)" "k = id_page p" "value_map w (k, name) = Some t"
      by (auto simp: holders_def)
    then obtain v where "v \<in> set (value_rows w)" "value_nat_key v = (k, name)" "value_text v = t"
      by (auto simp: value_map_Some [OF assms])
    with p show "k \<in> value_page ` set ?rows" by (auto simp: value_nat_key_def intro!: image_eqI [of _ _ v])
  next
    fix k assume "k \<in> value_page ` set ?rows"
    then obtain v p where v: "v \<in> set (value_rows w)" "k = value_page v" "value_name v = name" "value_text v = t"
      and p: "p \<in> set (site_pages s w)" "id_page p = k" by auto
    then have "value_map w (k, name) = Some t"
      by (auto simp: value_map_Some [OF assms] value_nat_key_def)
    with p show "k \<in> id_page ` holders s name t w" by (auto simp: holders_def)
  qed
  have same: "card (id_page ` holders s name t w) = card (holders s name t w)"
    using distinct_map_eqD [OF k] by (intro card_image inj_onI) (simp add: holders_def)
  have "x = y" if "x \<in> set ?rows" "y \<in> set ?rows" "value_page x = value_page y" for x y
    using distinct_map_eqD [OF u, of x y] that by (simp add: value_nat_key_def)
  then have "inj_on value_page (set ?rows)" by (rule inj_onI)
  moreover have "distinct (value_rows w)" using u by (simp add: distinct_map)
  then have "distinct ?rows" by (rule distinct_filter)
  ultimately have "distinct (map value_page ?rows)" unfolding distinct_map by (intro conjI)
  then have "card (set (map value_page ?rows)) = length ?rows" by (simp only: distinct_card length_map)
  then have "length ?rows = card (value_page ` set ?rows)" by (simp only: set_map)
  then have "length ?rows = card (holders s name t w)" using ids same by (simp only:)
  moreover have "finite (holders s name t w)" by (simp add: holders_def)
  ultimately show ?thesis unfolding count_values_rows Let_def by (simp only: card_0_eq)
qed

section \<open>The page of a site\<close>

lemma length_filter_card: "distinct xs \<Longrightarrow> length (filter P xs) = card {x \<in> set xs. P x}"
  using distinct_card [of "filter P xs"] by simp

lemma site_pages_distinct: "db_ok w \<Longrightarrow> distinct (site_pages s w)"
  using db_ok_keys(2) [of w] by (simp add: site_pages_def page_keys_def distinct_map)

lemma listing_lengths:
  assumes "db_ok w"
  shows "length (site_pages s w) = card (set (site_pages s w))"
    "length (pages_with_errors s w) = card {p \<in> set (site_pages s w). is_checked p \<and> \<not> is_ok p \<and> status p \<noteq> 300}"
    "length (all_queued_pages s w) = (if unchecked_pages s w = {} then card (set (site_pages s w)) else card (unchecked_pages s w))"
    "length (filter (\<lambda>p. is_linkable p = False) (site_pages s w)) = card {p \<in> set (site_pages s w). \<not> is_linkable p}"
    "length (filter (\<lambda>p. is_checked p = True) (site_pages s w)) = card {p \<in> set (site_pages s w). is_checked p}"
proof -
  note d = site_pages_distinct [OF assms, of s]
  show "length (site_pages s w) = card (set (site_pages s w))" using distinct_card [OF d] by simp
  have "is_error_row p \<longleftrightarrow> is_checked p \<and> \<not> is_ok p \<and> status p \<noteq> 300" for p
    by (auto simp: is_error_row_def is_ok_def)
  then show "length (pages_with_errors s w) = card {p \<in> set (site_pages s w). is_checked p \<and> \<not> is_ok p \<and> status p \<noteq> 300}"
    by (simp add: pages_with_errors_def length_filter_card [OF d])
  show "length (all_queued_pages s w) = (if unchecked_pages s w = {} then card (set (site_pages s w)) else card (unchecked_pages s w))"
    using length_filter_card [OF d, of "\<lambda>p. \<not> is_checked p"] distinct_card [OF d]
    by (simp add: queue_head_unchecked queue_head_checked unchecked_pages_def)
qed (simp_all add: length_filter_card [OF site_pages_distinct [OF assms]])

lemma site_detail_eval:
  "site_detail hours r s (w, ms) =
    (Inr (Render ''spidercheck/site_detail.html''
       [(''titulo'', CText (''Site '' @ site_name s)),
        (''site'', CSite s),
        (''num_pages'', CNat (length (site_pages s w))),
        (''num_errores'', CNat (length (pages_with_errors s w))),
        (''num_queued'', CNat (length (all_queued_pages s w))),
        (''num_no_links'', CNat (length (filter (\<lambda>p. is_linkable p = False) (site_pages s w)))),
        (''num_processed'', CNat (length (filter (\<lambda>p. is_checked p = True) (site_pages s w)))),
        (''scheduled'', CScheduled (all_scheduled_pages s w)),
        (''num_scheduled'', CNat (length (all_scheduled_pages s w))),
        (''progress_hour'', CHours (hours s w)),
        (''sparkline'', CSparkLine (map snd (hours s w))),
        (''versiones'', CBarChart (count_values s ''version'' w) ''Versiones''),
        (''links'', CLinks (get_links_per_site s))]), (w, ms))"
  by (simp add: site_detail_def andThen_def on_db_eval reads_def ret_def)

end
