(* ===== verification/Dispatch.thy ===== *)
theory Dispatch
  imports Views
begin

text \<open>
  From a request to its view: the table of \<open>urls.py\<close> is searched in its order for a route that
  the asked matches and whose converters accept what the asked holds, and the view of that route
  runs. How Django matches a asked against a route, and the decorator \<open>login_required\<close> of the
  project around this application, are arguments; what is relied on is stated as
  \<open>honours_paths\<close> and \<open>login_guard\<close>. All else that the views take from outside the repository
  is gathered with the two in the record \<open>services\<close>.
\<close>

section \<open>Visits and services\<close>

record visit = request +
  path_info :: string
  logged_in :: bool

text \<open>
  \<open>matches route asked\<close>: the texts that the asked has for the parameters of the route, by name,
  or \<open>None\<close> when the asked is not of that form. \<open>login_required\<close> wraps a view that is given its
  object.
\<close>

record services =
  matches :: "string \<Rightarrow> string \<Rightarrow> (string \<times> string) list option"
  login_required :: "(visit \<Rightarrow> reply view) \<Rightarrow> visit \<Rightarrow> reply view"
  paginate :: paginator
  get_hour_progress :: "site \<Rightarrow> world \<Rightarrow> (int \<times> nat) list"
  load_paginas_huerfanas :: "nat \<Rightarrow> world \<Rightarrow> page list"
  repr_msg :: "check_msg \<Rightarrow> string"

datatype captured = SiteArg site | PageArg page

section \<open>The routes\<close>

text \<open>A placeholder \<open><converter:name>\<close>: the name and the converter.\<close>

definition placeholder :: "string \<Rightarrow> (string \<times> string) option" where
  "placeholder seg =
     (if take 1 seg = ''<''
      then (case split_first (CHR '':'') (tl seg) of
              (conv, rest) \<Rightarrow> Some (fst (split_first (CHR ''>'') rest), conv))
      else None)"

definition route_converters :: "string \<Rightarrow> (string \<times> string) list" where
  "route_converters route = List.map_filter placeholder (split_on (CHR ''/'') route)"

text \<open>\<open>register_converter\<close>: the converters by name, with their \<open>regex\<close> and their \<open>to_python\<close>.\<close>

definition converter_regex :: "string \<Rightarrow> rx option" where
  "converter_regex conv =
     (if conv = ''site'' then Some site_regex else if conv = ''page'' then Some page_regex else None)"

definition to_python :: "string \<Rightarrow> string \<Rightarrow> captured op" where
  "to_python conv t =
     (if conv = ''site'' then andThen (site_to_python (Inr t)) (\<lambda>s. ret (SiteArg s))
      else if conv = ''page'' then andThen (page_to_python (Inr t)) (\<lambda>p. ret (PageArg p))
      else raise (KeyError conv))"

text \<open>The values of the captured texts, in order; the first that raises ends it.\<close>

definition convert_one :: "string \<Rightarrow> string \<times> string \<Rightarrow> (string \<times> captured) list \<Rightarrow> (string \<times> captured) list op" where
  "convert_one route nt acc =
     (case map_of (route_converters route) (fst nt) of
        None \<Rightarrow> raise (KeyError (fst nt))
      | Some conv \<Rightarrow> andThen (to_python conv (snd nt)) (\<lambda>v. ret (acc @ [(fst nt, v)])))"

definition convert :: "string \<Rightarrow> (string \<times> string) list \<Rightarrow> (string \<times> captured) list op" where
  "convert route caps = for_acc (convert_one route) caps []"

text \<open>
  The search through the routes: a converter that raises \<open>ValueError\<close> makes its route one that
  does not match. The result is the name of the view and its arguments.
\<close>

fun resolve_in :: "services \<Rightarrow> (string \<times> string) list \<Rightarrow> string \<Rightarrow> (string \<times> (string \<times> captured) list) option op" where
  "resolve_in S [] asked = ret None"
| "resolve_in S ((route, name) # rs) asked =
     (case matches S route asked of
        None \<Rightarrow> resolve_in S rs asked
      | Some caps \<Rightarrow>
          except_ValueError (andThen (convert route caps) (\<lambda>args. ret (Some (name, args))))
            (\<lambda>_. resolve_in S rs asked))"

definition resolve :: "services \<Rightarrow> string \<Rightarrow> (string \<times> (string \<times> captured) list) option op" where
  "resolve S asked = resolve_in S urlpatterns asked"

section \<open>The views behind the routes\<close>

text \<open>The views as \<open>views.py\<close> leaves them in its module: all are decorated but the two of \<open>expunge\<close>.\<close>

definition site_views :: "env \<Rightarrow> services \<Rightarrow> (string \<times> (site \<Rightarrow> visit \<Rightarrow> reply view)) list" where
  "site_views env S =
     [(''site_detail'', \<lambda>s. login_required S (\<lambda>r. site_detail (get_hour_progress S) (request.truncate r) s)),
      (''site_errors'', \<lambda>s. login_required S (\<lambda>r. site_errors (paginate S) (request.truncate r) s)),
      (''site_queue'', \<lambda>s. login_required S (\<lambda>r. site_queue (paginate S) (request.truncate r) s)),
      (''site_scheduled'', \<lambda>s. login_required S (\<lambda>r. site_scheduled (request.truncate r) s)),
      (''site_last'', \<lambda>s. login_required S (\<lambda>r. site_last (paginate S) (request.truncate r) s)),
      (''site_no_links'', \<lambda>s. login_required S (\<lambda>r. site_no_links (request.truncate r) s)),
      (''site_search'', \<lambda>s. login_required S (\<lambda>r. site_search (request.truncate r) s)),
      (''site_orphans'', \<lambda>s. login_required S (\<lambda>r. site_orphans (paginate S) (load_paginas_huerfanas S) (request.truncate r) s)),
      (''site_expunge'', \<lambda>s r. site_expunge (request.truncate r) s),
      (''site_expunge_all'', \<lambda>s r. site_expunge_all (load_paginas_huerfanas S) (request.truncate r) s)]"

definition page_views :: "env \<Rightarrow> services \<Rightarrow> (string \<times> (page \<Rightarrow> visit \<Rightarrow> reply view)) list" where
  "page_views env S =
     [(''detail_page'', \<lambda>p. login_required S (\<lambda>r. detail_page (request.truncate r) p)),
      (''page_check'', \<lambda>p. login_required S (\<lambda>r. page_check env (repr_msg S) (request.truncate r) p)),
      (''page_delete'', \<lambda>p. login_required S (\<lambda>r. page_delete (request.truncate r) p)),
      (''toogle_is_linkable'', \<lambda>p. login_required S (\<lambda>r. toogle_is_linkable (request.truncate r) p))]"

text \<open>The call \<open>view(request, **kwargs)\<close>; a view without that parameter raises.\<close>

definition call_view :: "env \<Rightarrow> services \<Rightarrow> string \<Rightarrow> (string \<times> captured) list \<Rightarrow> visit \<Rightarrow> reply view" where
  "call_view env S name args r =
     (case args of
        [] \<Rightarrow> if name = ''homepage'' then login_required S (\<lambda>r. homepage (request.truncate r)) r
              else raise (TypeError ''missing argument'')
      | [(k, SiteArg s)] \<Rightarrow>
          (case map_of (site_views env S) name of
             Some v \<Rightarrow> if k = ''site'' then v s r else raise (TypeError ''unexpected argument'')
           | None \<Rightarrow> raise (TypeError ''unexpected argument''))
      | [(k, PageArg p)] \<Rightarrow>
          (case map_of (page_views env S) name of
             Some v \<Rightarrow> if k = ''page'' then v p r else raise (TypeError ''unexpected argument'')
           | None \<Rightarrow> raise (TypeError ''unexpected argument''))
      | _ \<Rightarrow> raise (TypeError ''unexpected argument''))"

datatype answer = NotFound | Answer reply

definition serve :: "env \<Rightarrow> services \<Rightarrow> visit \<Rightarrow> answer view" where
  "serve env S r =
     andThen (on_db (resolve S (path_info r))) (\<lambda>found.
       case found of
         None \<Rightarrow> ret NotFound
       | Some (name, args) \<Rightarrow> andThen (call_view env S name args r) (\<lambda>reply. ret (Answer reply)))"

section \<open>What is relied on\<close>

text \<open>
  The decorator runs the view for a user who is logged in and leaves the database as it is
  otherwise (it redirects to the login page).
\<close>

definition login_guard :: "services \<Rightarrow> bool" where
  "login_guard S \<longleftrightarrow>
     (\<forall>v r. logged_in r \<longrightarrow> login_required S v r = v r) \<and>
     (\<forall>v r w ms. \<not> logged_in r \<longrightarrow> fst (snd (login_required S v r (w, ms))) = w)"

text \<open>
  Paths as Django documents them: a path matches a route when they have as many segments, each
  of the route's is that of the path or a placeholder whose converter's pattern is matched by
  all of it (no pattern here reaches over a slash).
\<close>

definition full_match :: "rx \<Rightarrow> string \<Rightarrow> bool" where
  "full_match rx t \<longleftrightarrow> list_ex (\<lambda>r. snd r = []) (runs rx ([], t))"

fun match_segments :: "string list \<Rightarrow> string list \<Rightarrow> (string \<times> string) list option" where
  "match_segments [] [] = Some []"
| "match_segments (seg # segs) (t # ts) =
     (case placeholder seg of
        None \<Rightarrow> if seg = t then match_segments segs ts else None
      | Some (name, conv) \<Rightarrow>
          (case converter_regex conv of
             None \<Rightarrow> None
           | Some rx \<Rightarrow> if full_match rx t then map_option (Cons (name, t)) (match_segments segs ts) else None))"
| "match_segments _ _ = None"

definition path_matches :: "string \<Rightarrow> string \<Rightarrow> (string \<times> string) list option" where
  "path_matches route asked = match_segments (split_on (CHR ''/'') route) (split_on (CHR ''/'') asked)"

definition honours_paths :: "services \<Rightarrow> bool" where
  "honours_paths S \<longleftrightarrow> (\<forall>r \<in> set urlpatterns. \<forall>asked. matches S (fst r) asked = path_matches (fst r) asked)"

text \<open>
  \<open>reverse_lazy\<close>, as documented: the route of that name with what \<open>to_url\<close> gives in the place
  of its parameters; no route, a missing parameter and a text that its pattern does not match
  raise \<open>NoReverseMatch\<close>.
\<close>

definition target_text :: "string \<Rightarrow> target \<Rightarrow> string option" where
  "target_text conv v =
     (case v of
        ToSite s \<Rightarrow>
          (case site_to_url (Instance s) of
             Inr t \<Rightarrow> if conv = ''site'' \<and> full_match site_regex t then Some t else None
           | Inl _ \<Rightarrow> None)
      | ToPage p \<Rightarrow>
          (case page_to_url (Instance p) of
             Inr i \<Rightarrow> if conv = ''page'' \<and> full_match page_regex (show_int i) then Some (show_int i) else None
           | Inl _ \<Rightarrow> None))"

fun fill_segments :: "(string \<times> target) list \<Rightarrow> string list \<Rightarrow> string list option" where
  "fill_segments args [] = Some []"
| "fill_segments args (seg # segs) =
     (case (case placeholder seg of
              None \<Rightarrow> Some seg
            | Some (name, conv) \<Rightarrow> Option.bind (map_of args name) (target_text conv)) of
        None \<Rightarrow> None
      | Some t \<Rightarrow> map_option (Cons t) (fill_segments args segs))"

definition reverse_path :: "target lazy_link \<Rightarrow> string option" where
  "reverse_path l =
     (case split_on (CHR '':'') (fst l) of
        [project, app, name] \<Rightarrow>
          if project = ''intranet'' \<and> app = app_name then
            (case find (\<lambda>r. snd r = name \<and> set (map fst (route_converters (fst r))) = set (map fst (snd l))) urlpatterns of
               None \<Rightarrow> None
             | Some r \<Rightarrow> map_option (join ''/'') (fill_segments (snd l) (split_on (CHR ''/'') (fst r))))
          else None
      | _ \<Rightarrow> None)"

section \<open>Facts: paths and routes\<close>

lemma routes:
  "urlpatterns =
     [([], ''homepage''), (''site/<site:site>/'', ''site_detail''), (''site/<site:site>/errores/'', ''site_errors''),
      (''site/<site:site>/queue/'', ''site_queue''), (''site/<site:site>/scheduled/'', ''site_scheduled''),
      (''site/<site:site>/last/'', ''site_last''), (''site/<site:site>/no_links/'', ''site_no_links''),
      (''site/<site:site>/search/'', ''site_search''), (''site/<site:site>/orphans/'', ''site_orphans''),
      (''site/<site:site>/expunge/'', ''site_expunge''), (''site/<site:site>/expunge/all/'', ''site_expunge_all''),
      (''page/<page:page>/'', ''detail_page''), (''page/<page:page>/check/'', ''page_check''),
      (''page/<page:page>/delete/'', ''page_delete''), (''page/<page:page>/toogle/is_linkable/'', ''toogle_is_linkable'')]"
  by code_simp

lemma route_splits:
  "split_on (CHR ''/'') ''site/<site:site>/'' = [''site'', ''<site:site>'', []]"
  "split_on (CHR ''/'') ''site/<site:site>/errores/'' = [''site'', ''<site:site>'', ''errores'', []]"
  "split_on (CHR ''/'') ''site/<site:site>/queue/'' = [''site'', ''<site:site>'', ''queue'', []]"
  "split_on (CHR ''/'') ''site/<site:site>/scheduled/'' = [''site'', ''<site:site>'', ''scheduled'', []]"
  "split_on (CHR ''/'') ''site/<site:site>/last/'' = [''site'', ''<site:site>'', ''last'', []]"
  "split_on (CHR ''/'') ''site/<site:site>/no_links/'' = [''site'', ''<site:site>'', ''no_links'', []]"
  "split_on (CHR ''/'') ''site/<site:site>/search/'' = [''site'', ''<site:site>'', ''search'', []]"
  "split_on (CHR ''/'') ''site/<site:site>/orphans/'' = [''site'', ''<site:site>'', ''orphans'', []]"
  "split_on (CHR ''/'') ''site/<site:site>/expunge/'' = [''site'', ''<site:site>'', ''expunge'', []]"
  "split_on (CHR ''/'') ''site/<site:site>/expunge/all/'' = [''site'', ''<site:site>'', ''expunge'', ''all'', []]"
  "split_on (CHR ''/'') ''page/<page:page>/'' = [''page'', ''<page:page>'', []]"
  "split_on (CHR ''/'') ''page/<page:page>/check/'' = [''page'', ''<page:page>'', ''check'', []]"
  "split_on (CHR ''/'') ''page/<page:page>/delete/'' = [''page'', ''<page:page>'', ''delete'', []]"
  "split_on (CHR ''/'') ''page/<page:page>/toogle/is_linkable/'' = [''page'', ''<page:page>'', ''toogle'', ''is_linkable'', []]"
  by code_simp+

lemma placeholders:
  "placeholder [] = None" "placeholder ''site'' = None" "placeholder ''page'' = None"
  "placeholder ''<site:site>'' = Some (''site'', ''site'')" "placeholder ''<page:page>'' = Some (''page'', ''page'')"
  "placeholder ''errores'' = None" "placeholder ''queue'' = None" "placeholder ''scheduled'' = None"
  "placeholder ''last'' = None" "placeholder ''no_links'' = None" "placeholder ''search'' = None"
  "placeholder ''orphans'' = None" "placeholder ''expunge'' = None" "placeholder ''all'' = None"
  "placeholder ''check'' = None" "placeholder ''delete'' = None" "placeholder ''toogle'' = None"
  "placeholder ''is_linkable'' = None"
  by code_simp+

lemma segments_of_path:
  assumes "honours_paths S" "r \<in> set urlpatterns" "segs \<noteq> []" "\<forall>t \<in> set segs. CHR ''/'' \<notin> set t"
  shows "matches S (fst r) (join ''/'' segs) = match_segments (split_on (CHR ''/'') (fst r)) segs"
  using assms split_on_join by (simp add: honours_paths_def path_matches_def)

text \<open>The search over the routes in terms of segments.\<close>

fun resolve_segments :: "(string \<times> string) list \<Rightarrow> string list \<Rightarrow> (string \<times> string \<times> (string \<times> string) list) option" where
  "resolve_segments [] segs = None"
| "resolve_segments ((route, name) # rs) segs =
     (case match_segments (split_on (CHR ''/'') route) segs of
        None \<Rightarrow> resolve_segments rs segs
      | Some caps \<Rightarrow> Some (route, name, caps))"

lemma resolve_by_segments:
  assumes "honours_paths S" "set rs \<subseteq> set urlpatterns" "segs \<noteq> []" "\<forall>t \<in> set segs. CHR ''/'' \<notin> set t"
    and "resolve_segments rs segs = Some (route, name, caps)" "convert route caps w = (Inr args, w)"
  shows "resolve_in S rs (join ''/'' segs) w = (Inr (Some (name, args)), w)"
  using assms(2,5)
proof (induction rs)
  case (Cons r rs)
  have "matches S (fst r) (join ''/'' segs) = match_segments (split_on (CHR ''/'') (fst r)) segs"
    using segments_of_path [OF assms(1) _ assms(3,4)] Cons.prems(1) by simp
  with Cons assms(6) show ?case
    by (cases r) (auto simp: except_ValueError_def andThen_def ret_def split: option.splits)
qed simp

lemma site_segments:
  assumes "full_match site_regex n"
  shows
    "resolve_segments urlpatterns (''site'' # n # [[]]) =
      Some (''site/<site:site>/'', ''site_detail'', [(''site'', n)])"
    "resolve_segments urlpatterns (''site'' # n # [''errores'', []]) =
      Some (''site/<site:site>/errores/'', ''site_errors'', [(''site'', n)])"
    "resolve_segments urlpatterns (''site'' # n # [''queue'', []]) =
      Some (''site/<site:site>/queue/'', ''site_queue'', [(''site'', n)])"
    "resolve_segments urlpatterns (''site'' # n # [''scheduled'', []]) =
      Some (''site/<site:site>/scheduled/'', ''site_scheduled'', [(''site'', n)])"
    "resolve_segments urlpatterns (''site'' # n # [''last'', []]) =
      Some (''site/<site:site>/last/'', ''site_last'', [(''site'', n)])"
    "resolve_segments urlpatterns (''site'' # n # [''no_links'', []]) =
      Some (''site/<site:site>/no_links/'', ''site_no_links'', [(''site'', n)])"
    "resolve_segments urlpatterns (''site'' # n # [''search'', []]) =
      Some (''site/<site:site>/search/'', ''site_search'', [(''site'', n)])"
    "resolve_segments urlpatterns (''site'' # n # [''orphans'', []]) =
      Some (''site/<site:site>/orphans/'', ''site_orphans'', [(''site'', n)])"
    "resolve_segments urlpatterns (''site'' # n # [''expunge'', []]) =
      Some (''site/<site:site>/expunge/'', ''site_expunge'', [(''site'', n)])"
    "resolve_segments urlpatterns (''site'' # n # [''expunge'', ''all'', []]) =
      Some (''site/<site:site>/expunge/all/'', ''site_expunge_all'', [(''site'', n)])"
  using assms by (simp_all add: routes route_splits placeholders converter_regex_def)

lemma page_segments:
  assumes "full_match page_regex n"
  shows
    "resolve_segments urlpatterns (''page'' # n # [[]]) =
      Some (''page/<page:page>/'', ''detail_page'', [(''page'', n)])"
    "resolve_segments urlpatterns (''page'' # n # [''check'', []]) =
      Some (''page/<page:page>/check/'', ''page_check'', [(''page'', n)])"
    "resolve_segments urlpatterns (''page'' # n # [''delete'', []]) =
      Some (''page/<page:page>/delete/'', ''page_delete'', [(''page'', n)])"
    "resolve_segments urlpatterns (''page'' # n # [''toogle'', ''is_linkable'', []]) =
      Some (''page/<page:page>/toogle/is_linkable/'', ''toogle_is_linkable'', [(''page'', n)])"
  using assms by (simp_all add: routes route_splits placeholders converter_regex_def)

lemma full_site_match: "full_match site_regex n \<longleftrightarrow> n \<noteq> [] \<and> list_all (\<lambda>c. c = CHR ''-'' \<or> is_word c) n"
  by (cases n) (auto simp: full_match_def site_regex_def list_ex_iff set_star_runs)

lemma full_page_match: "full_match page_regex n \<longleftrightarrow> n \<noteq> [] \<and> list_all is_dec n"
  by (cases n) (auto simp: full_match_def page_regex_def list_ex_iff set_star_runs)

lemma no_slash:
  "full_match site_regex n \<Longrightarrow> CHR ''/'' \<notin> set n" "full_match page_regex n \<Longrightarrow> CHR ''/'' \<notin> set n"
proof -
  have "\<not> is_word (CHR ''/'')" "\<not> is_dec (CHR ''/'')" by code_simp+
  then show "full_match site_regex n \<Longrightarrow> CHR ''/'' \<notin> set n" "full_match page_regex n \<Longrightarrow> CHR ''/'' \<notin> set n"
    by (auto simp: full_site_match full_page_match list_all_iff)
qed

lemma converters_of:
  "route_converters ''site/<site:site>/'' = [(''site'', ''site'')]"
  "route_converters ''site/<site:site>/errores/'' = [(''site'', ''site'')]"
  "route_converters ''site/<site:site>/queue/'' = [(''site'', ''site'')]"
  "route_converters ''site/<site:site>/scheduled/'' = [(''site'', ''site'')]"
  "route_converters ''site/<site:site>/last/'' = [(''site'', ''site'')]"
  "route_converters ''site/<site:site>/no_links/'' = [(''site'', ''site'')]"
  "route_converters ''site/<site:site>/search/'' = [(''site'', ''site'')]"
  "route_converters ''site/<site:site>/orphans/'' = [(''site'', ''site'')]"
  "route_converters ''site/<site:site>/expunge/'' = [(''site'', ''site'')]"
  "route_converters ''site/<site:site>/expunge/all/'' = [(''site'', ''site'')]"
  "route_converters ''page/<page:page>/'' = [(''page'', ''page'')]"
  "route_converters ''page/<page:page>/check/'' = [(''page'', ''page'')]"
  "route_converters ''page/<page:page>/delete/'' = [(''page'', ''page'')]"
  "route_converters ''page/<page:page>/toogle/is_linkable/'' = [(''page'', ''page'')]"
  "route_converters [] = []"
  by code_simp+

lemma convert_site:
  assumes "db_ok w" "s \<in> set (site_rows w)" "route_converters route = [(''site'', ''site'')]"
  shows "convert route [(''site'', site_name s)] w = (Inr [(''site'', SiteArg s)], w)"
  using site_url_round_trip [OF assms(1,2)] assms(3)
  by (simp add: convert_def convert_one_def to_python_def andThen_def ret_def site_to_url_def)

lemma convert_page:
  assumes "db_ok w" "p \<in> set (page_rows w)" "route_converters route = [(''page'', ''page'')]"
  shows "convert route [(''page'', show_nat (id_page p))] w = (Inr [(''page'', PageArg p)], w)"
  using page_url_round_trip [OF assms(1,2)] assms(3)
  by (simp add: convert_def convert_one_def to_python_def andThen_def ret_def page_to_url_def show_int_def)

text \<open>The routes of a site and of a page, by what follows its name or number in the path.\<close>

definition site_routes :: "(string list \<times> string) list" where
  "site_routes =
     [([], ''site_detail''), ([''errores''], ''site_errors''), ([''queue''], ''site_queue''),
      ([''scheduled''], ''site_scheduled''), ([''last''], ''site_last''), ([''no_links''], ''site_no_links''),
      ([''search''], ''site_search''), ([''orphans''], ''site_orphans''), ([''expunge''], ''site_expunge''),
      ([''expunge'', ''all''], ''site_expunge_all'')]"

definition page_routes :: "(string list \<times> string) list" where
  "page_routes =
     [([], ''detail_page''), ([''check''], ''page_check''), ([''delete''], ''page_delete''),
      ([''toogle'', ''is_linkable''], ''toogle_is_linkable'')]"

lemma route_tails:
  "(tail, name) \<in> set site_routes \<or> (tail, name) \<in> set page_routes \<Longrightarrow> t \<in> set tail \<Longrightarrow> CHR ''/'' \<notin> set t"
  by (auto simp: site_routes_def page_routes_def)

lemma site_path_resolves:
  assumes "honours_paths S" "db_ok w" "s \<in> set (site_rows w)" "full_match site_regex (site_name s)"
    and "(tail, name) \<in> set site_routes"
  shows "resolve S (join ''/'' (''site'' # site_name s # tail @ [[]])) w = (Inr (Some (name, [(''site'', SiteArg s)])), w)"
proof -
  have "\<exists>route. resolve_segments urlpatterns (''site'' # site_name s # tail @ [[]]) = Some (route, name, [(''site'', site_name s)]) \<and>
      route_converters route = [(''site'', ''site'')]"
    using assms(5) site_segments [OF assms(4)] converters_of by (auto simp: site_routes_def)
  then obtain route where r: "resolve_segments urlpatterns (''site'' # site_name s # tail @ [[]]) =
      Some (route, name, [(''site'', site_name s)])" "route_converters route = [(''site'', ''site'')]" by blast
  show ?thesis
    unfolding resolve_def
    using no_slash(1) [OF assms(4)] route_tails [of tail name] assms(5)
    by (intro resolve_by_segments [OF assms(1) _ _ _ r(1)] convert_site assms r(2)) auto
qed

lemma page_path_resolves:
  assumes "honours_paths S" "db_ok w" "p \<in> set (page_rows w)" "(tail, name) \<in> set page_routes"
  shows "resolve S (join ''/'' (''page'' # show_nat (id_page p) # tail @ [[]])) w = (Inr (Some (name, [(''page'', PageArg p)])), w)"
proof -
  have m: "full_match page_regex (show_nat (id_page p))" using show_nat_digits by (simp add: full_page_match)
  have "\<exists>route. resolve_segments urlpatterns (''page'' # show_nat (id_page p) # tail @ [[]]) =
        Some (route, name, [(''page'', show_nat (id_page p))]) \<and>
      route_converters route = [(''page'', ''page'')]"
    using assms(4) page_segments [OF m] converters_of by (auto simp: page_routes_def)
  then obtain route where r: "resolve_segments urlpatterns (''page'' # show_nat (id_page p) # tail @ [[]]) =
      Some (route, name, [(''page'', show_nat (id_page p))])" "route_converters route = [(''page'', ''page'')]" by blast
  show ?thesis
    unfolding resolve_def
    using no_slash(2) [OF m] route_tails [of tail name] assms(4)
    by (intro resolve_by_segments [OF assms(1) _ _ _ r(1)] convert_page assms r(2)) auto
qed

text \<open>A link leads to a view when its path resolves to that view with those arguments.\<close>

definition leads_to :: "services \<Rightarrow> world \<Rightarrow> target lazy_link \<Rightarrow> string \<Rightarrow> (string \<times> captured) list \<Rightarrow> bool" where
  "leads_to S w l name args \<longleftrightarrow>
     (\<exists>asked. reverse_path l = Some asked \<and> resolve S asked w = (Inr (Some (name, args)), w))"

text \<open>The links to a site with the name of their view, and how their paths go on after its name.\<close>

definition site_links :: "((target \<Rightarrow> target lazy_link) \<times> string \<times> string list) list" where
  "site_links =
     [(a_detalle_site, ''site_detail'', []), (a_site_errors, ''site_errors'', [''errores'']),
      (a_site_no_links, ''site_no_links'', [''no_links'']), (a_site_orphans, ''site_orphans'', [''orphans'']),
      (a_site_last, ''site_last'', [''last'']), (a_site_scheduled, ''site_scheduled'', [''scheduled'']),
      (a_site_queue, ''site_queue'', [''queue''])]"

lemmas link_defs = a_homepage_def a_detalle_pagina_def a_detalle_site_def a_site_errors_def a_site_no_links_def
  a_site_orphans_def a_site_last_def a_site_scheduled_def a_site_queue_def a_add_no_link_def

lemma link_names:
  "split_on (CHR '':'') ''intranet:spidercheck:homepage'' = [''intranet'', ''spidercheck'', ''homepage'']"
  "split_on (CHR '':'') ''intranet:spidercheck:detail_page'' = [''intranet'', ''spidercheck'', ''detail_page'']"
  "split_on (CHR '':'') ''intranet:spidercheck:site_detail'' = [''intranet'', ''spidercheck'', ''site_detail'']"
  "split_on (CHR '':'') ''intranet:spidercheck:site_errors'' = [''intranet'', ''spidercheck'', ''site_errors'']"
  "split_on (CHR '':'') ''intranet:spidercheck:site_no_links'' = [''intranet'', ''spidercheck'', ''site_no_links'']"
  "split_on (CHR '':'') ''intranet:spidercheck:site_orphans'' = [''intranet'', ''spidercheck'', ''site_orphans'']"
  "split_on (CHR '':'') ''intranet:spidercheck:site_last'' = [''intranet'', ''spidercheck'', ''site_last'']"
  "split_on (CHR '':'') ''intranet:spidercheck:site_scheduled'' = [''intranet'', ''spidercheck'', ''site_scheduled'']"
  "split_on (CHR '':'') ''intranet:spidercheck:site_queue'' = [''intranet'', ''spidercheck'', ''site_queue'']"
  "split_on (CHR '':'') ''intranet:spidercheck:add_no_link'' = [''intranet'', ''spidercheck'', ''add_no_link'']"
  by code_simp+

lemma site_links_reverse:
  assumes "(link, name, tail) \<in> set site_links"
  shows "reverse_path (link (ToSite s)) =
    (if full_match site_regex (site_name s) then Some (join ''/'' (''site'' # site_name s # tail @ [[]])) else None)"
  using assms
  by (auto simp: site_links_def link_defs reverse_path_def link_names app_name_def routes converters_of route_splits
      placeholders target_text_def site_to_url_def)

lemma page_link_reverse:
  "reverse_path (a_detalle_pagina (ToPage p)) = Some (join ''/'' [''page'', show_nat (id_page p), []])"
  using show_nat_digits
  by (simp add: link_defs reverse_path_def link_names app_name_def routes converters_of route_splits
      placeholders target_text_def page_to_url_def show_int_def full_page_match)

lemma other_links_reverse:
  "reverse_path a_homepage = Some []" "reverse_path (a_add_no_link v) = None"
  by (simp_all add: link_defs reverse_path_def link_names app_name_def routes converters_of placeholders)

lemma site_links_lead:
  assumes "honours_paths S" "db_ok w" "s \<in> set (site_rows w)" "full_match site_regex (site_name s)"
    and "(link, name, tail) \<in> set site_links"
  shows "leads_to S w (link (ToSite s)) name [(''site'', SiteArg s)]"
proof -
  have "(tail, name) \<in> set site_routes" using assms(5) by (auto simp: site_links_def site_routes_def)
  from site_path_resolves [OF assms(1-4) this] assms(4) show ?thesis
    by (simp add: leads_to_def site_links_reverse [OF assms(5)])
qed

lemma page_link_leads:
  assumes "honours_paths S" "db_ok w" "p \<in> set (page_rows w)"
  shows "leads_to S w (a_detalle_pagina (ToPage p)) ''detail_page'' [(''page'', PageArg p)]"
proof -
  have "([], ''detail_page'') \<in> set page_routes" by (simp add: page_routes_def)
  from page_path_resolves [OF assms this] show ?thesis
    by (simp add: leads_to_def page_link_reverse)
qed

lemma home_link_leads:
  assumes "honours_paths S"
  shows "leads_to S w a_homepage ''homepage'' []"
proof -
  have "matches S [] [] = path_matches [] []"
    using assms by (simp add: honours_paths_def routes)
  also have "path_matches [] [] = Some []" by (simp add: path_matches_def placeholders)
  finally show ?thesis
    by (simp add: leads_to_def other_links_reverse resolve_def routes convert_def except_ValueError_def andThen_def ret_def)
qed

section \<open>Facts: who changes the database\<close>

text \<open>Finding the view changes nothing.\<close>

lemma to_python_keeps [keeps_intros]: "keeps I (to_python conv t)"
  by (auto simp: keeps_def to_python_def andThen_def ret_def raise_def site_to_python_def page_to_python_def
      load_site_by_name_def reads_def split: option.splits list.splits)

lemma resolve_keeps: "keeps I (resolve S asked)"
proof -
  have "keeps I (resolve_in S rs asked)" for rs
  proof (induction rs)
    case (Cons r rs)
    obtain route name where r: "r = (route, name)" by (cases r)
    show ?case
      unfolding r resolve_in.simps convert_def convert_one_def
      by (intro keeps_case_option keeps_except keeps_intros Cons.IH)
  qed (simp add: keeps_ret)
  then show ?thesis by (simp add: resolve_def)
qed

lemma resolve_same: "snd (resolve S asked w) = w"
  using keepsD [OF resolve_keeps [where I = "\<lambda>v. v = w"]] by simp

lemma on_db_resolve: "on_db (resolve S asked) (w, ms) = (fst (resolve S asked w), (w, ms))"
  using resolve_same [of S asked w] by (simp add: on_db_eval prod_eq_iff split: prod.split)

lemma guarded: "login_guard S \<Longrightarrow> \<not> logged_in r \<Longrightarrow> fst (snd (login_required S v r (w, ms))) = w"
  by (simp add: login_guard_def)

lemma serve_eval:
  "serve env S r (w, ms) =
     (case fst (resolve S (path_info r) w) of
        Inl e \<Rightarrow> (Inl e, (w, ms))
      | Inr None \<Rightarrow> (Inr NotFound, (w, ms))
      | Inr (Some (name, args)) \<Rightarrow>
          (case call_view env S name args r (w, ms) of
             (Inl e, v) \<Rightarrow> (Inl e, v)
           | (Inr reply, v) \<Rightarrow> (Inr (Answer reply), v)))"
  by (auto simp: serve_def andThen_def on_db_resolve ret_def split: prod.split sum.split option.split)

text \<open>Without the login only the two views of \<open>expunge\<close> run, and they end at once unless it is a POST.\<close>

lemma site_view_cases:
  assumes "map_of (site_views env S) name = Some v"
  obtains (guarded) u where "v = (\<lambda>s. login_required S (u s))"
  | (expunge) "name = ''site_expunge''" "v = (\<lambda>s r. site_expunge (request.truncate r) s)"
  | (expunge_all) "name = ''site_expunge_all''"
      "v = (\<lambda>s r. site_expunge_all (load_paginas_huerfanas S) (request.truncate r) s)"
  using assms unfolding site_views_def by (auto split: if_splits)

lemma page_view_cases:
  assumes "map_of (page_views env S) name = Some v"
  obtains u where "v = (\<lambda>p. login_required S (u p))"
  using assms unfolding page_views_def by (auto split: if_splits)

lemma expunge_needs_post:
  "\<not> is_post r \<Longrightarrow> site_expunge (request.truncate r) s (w, ms) = (Inl AssertionError, (w, ms))"
  "\<not> is_post r \<Longrightarrow> site_expunge_all orphans (request.truncate r) s (w, ms) = (Inl AssertionError, (w, ms))"
  by (simp_all add: site_expunge_def site_expunge_all_def assert_def raise_def request.truncate_def)

text \<open>The calls that the dispatcher can make: of no argument, of a site, of a page; others raise.\<close>

lemma call_view_cases:
  obtains (home) "call_view env S name args r = login_required S (\<lambda>r. homepage (request.truncate r)) r"
  | (site) s v where "args = [(''site'', SiteArg s)]" "map_of (site_views env S) name = Some v"
      "call_view env S name args r = v s r"
  | (page) p v where "args = [(''page'', PageArg p)]" "map_of (page_views env S) name = Some v"
      "call_view env S name args r = v p r"
  | (no) e where "call_view env S name args r = raise e"
proof (cases args)
  case Nil
  then show ?thesis using home no by (cases "name = ''homepage''") (simp_all add: call_view_def)
next
  case (Cons kv rest)
  obtain k x where kv: "kv = (k, x)" by (cases kv)
  show ?thesis
  proof (cases rest)
    case Nil
    show ?thesis
    proof (cases x)
      case (SiteArg s)
      with Cons Nil kv show ?thesis using site no
        by (cases "map_of (site_views env S) name"; cases "k = ''site''") (simp_all add: call_view_def)
    next
      case (PageArg p)
      with Cons Nil kv show ?thesis using page no
        by (cases "map_of (page_views env S) name"; cases "k = ''page''") (simp_all add: call_view_def)
    qed
  next
    case (Cons kv' rest')
    with \<open>args = kv # rest\<close> kv show ?thesis using no by (cases x) (simp_all add: call_view_def)
  qed
qed

lemma anonymous_call:
  assumes "login_guard S" "\<not> logged_in r"
  shows "fst (snd (call_view env S name args r (w, ms))) = w \<or>
    is_post r \<and> (\<exists>s. args = [(''site'', SiteArg s)] \<and>
      (name = ''site_expunge'' \<and> call_view env S name args r = site_expunge (request.truncate r) s \<or>
       name = ''site_expunge_all'' \<and>
         call_view env S name args r = site_expunge_all (load_paginas_huerfanas S) (request.truncate r) s))"
proof (cases rule: call_view_cases [of env S name args r])
  case home
  then show ?thesis using guarded [OF assms] by simp
next
  case (site s v)
  from site(2) show ?thesis
  proof (cases rule: site_view_cases)
    case (guarded u)
    then show ?thesis using Dispatch.guarded [OF assms] site by simp
  next
    case expunge
    then show ?thesis using site by (cases "is_post r") (auto simp: expunge_needs_post)
  next
    case expunge_all
    then show ?thesis using site by (cases "is_post r") (auto simp: expunge_needs_post)
  qed
next
  case (page p v)
  from page(2) obtain u where "v = (\<lambda>p. login_required S (u p))" by (rule page_view_cases)
  then show ?thesis using guarded [OF assms] page by simp
next
  case (no e)
  then show ?thesis by (simp add: raise_def)
qed

lemma anonymous_serve:
  assumes "db_ok w" "login_guard S" "\<not> logged_in r"
  shows "fst (snd (serve env S r (w, ms))) = w \<or>
    is_post r \<and> (\<exists>D. expunged w D (fst (snd (serve env S r (w, ms))))) \<and>
    (\<exists>s. fst (resolve S (path_info r) w) \<in>
       {Inr (Some (''site_expunge'', [(''site'', SiteArg s)])), Inr (Some (''site_expunge_all'', [(''site'', SiteArg s)]))})"
proof (cases "fst (resolve S (path_info r) w)")
  case (Inr found)
  show ?thesis
  proof (cases found)
    case (Some view)
    obtain name args where view: "view = (name, args)" by (cases view)
    have same: "fst (snd (serve env S r (w, ms))) = fst (snd (call_view env S name args r (w, ms)))"
      using Inr Some view by (simp add: serve_eval split: prod.split sum.split)
    from anonymous_call [OF assms(2,3), of env name args w ms] show ?thesis
    proof
      assume "is_post r \<and> (\<exists>s. args = [(''site'', SiteArg s)] \<and>
        (name = ''site_expunge'' \<and> call_view env S name args r = site_expunge (request.truncate r) s \<or>
         name = ''site_expunge_all'' \<and>
           call_view env S name args r = site_expunge_all (load_paginas_huerfanas S) (request.truncate r) s))"
      then obtain s where s: "is_post r" "args = [(''site'', SiteArg s)]" "name = ''site_expunge'' \<or> name = ''site_expunge_all''"
        "\<exists>D. expunged w D (fst (snd (call_view env S name args r (w, ms))))"
        using expunging_views [OF assms(1)] by auto
      with Inr Some view same show ?thesis by (intro disjI2 conjI exI [of _ s]) auto
    qed (simp add: same)
  qed (use Inr in \<open>simp add: serve_eval\<close>)
qed (simp add: serve_eval)

text \<open>A page that the search hands to a view is a row of the database.\<close>

lemma convert_rows:
  assumes "db_ok w" "convert route caps w = (Inr args, w')"
  shows "w' = w \<and> (\<forall>k p. (k, PageArg p) \<in> set args \<longrightarrow> p \<in> set (page_rows w))"
  using assms(2) unfolding convert_def
proof (rule for_acc_induct [where P = "\<lambda>_ acc v. v = w \<and> (\<forall>k p. (k, PageArg p) \<in> set acc \<longrightarrow> p \<in> set (page_rows w))"], goal_cases)
  case (2 ds nt acc v acc' v')
  then have v: "v = w" by simp
  from 2(3) obtain conv x where conv: "to_python conv (snd nt) w = (Inr x, v')" "acc' = acc @ [(fst nt, x)]"
    by (auto simp: convert_one_def andThen_def ret_def raise_def v split: option.splits prod.splits sum.splits)
  have "v' = w" using keepsD [OF to_python_keeps [where I = "\<lambda>v. v = w"], of w conv "snd nt"] conv(1) by simp
  moreover have "p \<in> set (page_rows w)" if "x = PageArg p" for p
    using conv(1) that page_table.get_in_rows [OF db_ok_keys(2) [OF assms(1)]]
    by (auto simp: to_python_def page_to_python_def andThen_def ret_def raise_def reads_def load_page_pk_def
        site_to_python_def load_site_by_name_def split: if_splits option.splits list.splits)
  ultimately show ?case using 2(1) conv(2) by auto
qed simp

lemma resolve_rows:
  assumes "db_ok w" "fst (resolve S asked w) = Inr (Some (name, args))"
  shows "(k, PageArg p) \<in> set args \<Longrightarrow> p \<in> set (page_rows w)"
proof -
  have "(k, PageArg p) \<in> set args \<longrightarrow> p \<in> set (page_rows w)"
    if "fst (resolve_in S rs asked w) = Inr (Some (name, args))" for rs
    using that
  proof (induction rs)
    case (Cons r rs)
    obtain route n where r: "r = (route, n)" by (cases r)
    show ?case
    proof (cases "matches S route asked")
      case (Some caps)
      obtain out w' where c: "convert route caps w = (out, w')" by (cases "convert route caps w")
      have "w' = w"
        using keepsD [of "\<lambda>v. v = w" "convert route caps" w] c
        unfolding convert_def convert_one_def by (auto intro!: keeps_intros keeps_case_option)
      then show ?thesis
        using Cons Some r c convert_rows [OF assms(1), of route caps args w']
        by (auto simp: except_ValueError_def andThen_def ret_def split: sum.splits pyexn.splits)
    qed (use Cons r in simp)
  qed (simp add: ret_def)
  with assms(2) show "(k, PageArg p) \<in> set args \<Longrightarrow> p \<in> set (page_rows w)" by (simp add: resolve_def)
qed

end
