(* ===== verification/Console.thy ===== *)
theory Console
  imports Plugins Sites Focus Fechas
begin

text \<open>
  What the management command \<open>management/commands/spidercheck.py\<close> writes and on what it runs:
  texts with the marks of the command, tables of the library \<open>rich\<close>, the state of a command
  (database, registry of plug-ins, the trace of what it asked of the outside), and the methods
  \<open>out\<close>, \<open>warning\<close>, \<open>success\<close> and \<open>failure\<close>.
\<close>

section \<open>Texts\<close>

text \<open>A character: one of Latin-1, or one of the three signs beyond it that the command uses.\<close>

datatype glyph = Ch char | Tick | Cross | Pointer

type_synonym rich = "glyph list"

definition plain :: "string \<Rightarrow> rich" where
  "plain t = map Ch t"

definition OK :: rich where
  "OK = plain ''[green]'' @ Tick # plain ''[/green]''"

text \<open>The mark for waiting pages holds the control character 27.\<close>

definition WAITING :: rich where
  "WAITING = plain (''[italic yellow]'' @ [CHR 0x1B] @ ''[/]'')"

definition ERROR :: rich where
  "ERROR = plain ''[red]'' @ Cross # plain ''[/red]''"

definition as_bool :: "bool \<Rightarrow> rich" where
  "as_bool value = (if value then OK else ERROR)"

definition as_status_code :: "int \<Rightarrow> rich" where
  "as_status_code st =
     (if 200 \<le> st \<and> st < 300 then plain (''[green]'' @ show_int st @ ''[/green]'')
      else plain (''[red]'' @ show_int st @ ''[/red]''))"

text \<open>The formats \<open>{_:<n}\<close>, \<open>{_:.2f}\<close> (of a non-negative number) and \<open>str\<close> of a \<open>timedelta\<close>.\<close>

definition ljust :: "nat \<Rightarrow> string \<Rightarrow> string" where
  "ljust n t = t @ replicate (n - length t) (CHR '' '')"

definition rjust0 :: "nat \<Rightarrow> nat \<Rightarrow> string" where
  "rjust0 n k = replicate (n - length (show_nat k)) (CHR ''0'') @ show_nat k"

definition fixed2 :: "rat \<Rightarrow> string" where
  "fixed2 x = (let n = nat (round_half_even (x * 100))
     in show_nat (n div 100) @ ''.'' @ rjust0 2 (n mod 100))"

definition str_timedelta :: "int \<Rightarrow> string" where
  "str_timedelta us =
     (let days = us div 86400000000; rest = nat (us mod 86400000000);
          secs = rest div 1000000; micros = rest mod 1000000
      in (if days \<noteq> 0
          then show_int days @ '' day'' @ (if \<bar>days\<bar> \<noteq> 1 then ''s'' else []) @ '', '' else []) @
         show_nat (secs div 3600) @ '':'' @ rjust0 2 (secs div 60 mod 60) @ '':'' @ rjust0 2 (secs mod 60) @
         (if micros \<noteq> 0 then ''.'' @ rjust0 6 micros else []))"

section \<open>Tables\<close>

text \<open>A table of \<open>rich\<close>: its title, its columns (the header, and whether it is justified to the
  right) and its rows. A cell may be \<open>None\<close>.\<close>

type_synonym cell = "rich option"

record sheet =
  sheet_title :: "rich option"
  columns :: "(string \<times> bool) list"
  sheet_rows :: "cell list list"

section \<open>The state of a command\<close>

text \<open>What a command asks of the outside, in order.\<close>

datatype event = Printed rich string | PrintedTable sheet | Slept int | Heartbeat

record shell =
  db :: world
  plugin_registry :: registry
  trace :: "event list"
  is_verbose :: bool

type_synonym 'a cmd = "(shell, 'a) py"

text \<open>
  The terminal and the libraries: whether printing a text or a table raises, the text of a
  \<open>Panel\<close>, of a point in time and of a check message, the call of \<open>heartbeat\<close>,
  regular expressions, the import of a plug-in and its docstring.
\<close>

record terminal =
  prints :: "rich \<Rightarrow> string \<Rightarrow> pyexn option"
  prints_table :: "sheet \<Rightarrow> pyexn option"
  str_panel :: "string \<Rightarrow> rich"
  str_moment :: "int \<Rightarrow> string"
  str_message :: "check_msg \<Rightarrow> rich"
  beats :: "pyexn option"
  compiles :: "string \<Rightarrow> pyexn + (string \<Rightarrow> bool)"
  loads :: "string \<Rightarrow> pyexn + plugin"
  doc_of :: "plugin option \<Rightarrow> string option"

definition on_world :: "'a op \<Rightarrow> 'a cmd" where
  "on_world = focused db (\<lambda>w c. c\<lparr>db := w\<rparr>)"

definition on_registry :: "(registry, 'a) py \<Rightarrow> 'a cmd" where
  "on_registry = focused plugin_registry (\<lambda>r c. c\<lparr>plugin_registry := r\<rparr>)"

interpretation world_part: focus db "\<lambda>w c. c\<lparr>db := w\<rparr>"
  by unfold_locales simp_all

interpretation registry_part: focus plugin_registry "\<lambda>r c. c\<lparr>plugin_registry := r\<rparr>"
  by unfold_locales simp_all

text \<open>An event that may raise before it happens.\<close>

definition emit :: "pyexn option \<Rightarrow> event \<Rightarrow> unit cmd" where
  "emit failed e =
     (case failed of
        Some x \<Rightarrow> raise x
      | None \<Rightarrow> writes (\<lambda>c. c\<lparr>trace := trace c @ [e]\<rparr>))"

definition print_table :: "terminal \<Rightarrow> sheet \<Rightarrow> unit cmd" where
  "print_table T t = emit (prints_table T t) (PrintedTable t)"

definition sleep :: "int \<Rightarrow> unit cmd" where
  "sleep gap = emit (if gap < 0 then Some (ValueError ''sleep length must be non-negative'') else None) (Slept gap)"

definition heartbeat :: "terminal \<Rightarrow> unit cmd" where
  "heartbeat T = emit (beats T) Heartbeat"

section \<open>Output\<close>

fun rich_join :: "rich \<Rightarrow> rich list \<Rightarrow> rich" where
  "rich_join sep [] = []"
| "rich_join sep [t] = t"
| "rich_join sep (t # u # ts) = t @ sep @ rich_join sep (u # ts)"

definition console_out :: "terminal \<Rightarrow> rich list \<Rightarrow> string \<Rightarrow> string \<Rightarrow> unit cmd" where
  "console_out T args sep ending =
     (let outcome = rich_join (plain sep) args in emit (prints T outcome ending) (Printed outcome ending))"

text \<open>\<open>out\<close> of one text with the default \<open>sep\<close> and \<open>end\<close>.\<close>

definition say :: "terminal \<Rightarrow> rich \<Rightarrow> unit cmd" where
  "say T t = console_out T [t] '' '' newline"

text \<open>The text of \<open>warning\<close> is no f-string: the message is not in it.\<close>

definition warning :: "terminal \<Rightarrow> string \<Rightarrow> unit cmd" where
  "warning T msg = say T (str_panel T (''[red]Aviso[/red]'' @ newline @ ''{msg}''))"

definition success :: "terminal \<Rightarrow> unit cmd" where
  "success T = say T OK"

definition failure :: "terminal \<Rightarrow> string \<Rightarrow> unit cmd" where
  "failure T msg = say T (ERROR @ plain ('' [red bold]'' @ msg @ ''[/]''))"

end
