(* ===== verification/Commands.thy ===== *)
theory Commands
  imports Console
begin

text \<open>
  The command line front end, \<open>management/commands/spidercheck.py\<close>: the table of its
  subcommands with their arguments, and one operation per subcommand on the state of
  \<open>Console\<close>. The parsed options are the dictionary that \<open>handle\<close> is given.
\<close>

section \<open>Options and subcommands\<close>

datatype action =
    CmdInit | CmdReset | CmdErrors | CmdQueue | CmdLast | CmdDelete | CmdCheck | CmdRecheck
  | CmdStatus | CmdFind | CmdShow | CmdPlugins

datatype optval = OText string | OInt int | OInts "int list" | OFlag bool | OFunc action

type_synonym options = "(string \<times> optval) list"

text \<open>
  An argument: an option with its type and default (a text, which argparse converts too), a
  flag, a positional argument, or a positional argument that takes one or more values.
\<close>

datatype arg_type = TText | TInt

datatype argument =
    Option string arg_type string
  | Flag string
  | Positional string arg_type
  | Positionals string arg_type

definition subcommands :: "(string \<times> argument list \<times> action) list" where
  "subcommands =
     [(''init'', [Option ''name'' TText ''default'', Positional ''url'' TText], CmdInit),
      (''reset'', [Option ''name'' TText ''default''], CmdReset),
      (''errors'', [Option ''name'' TText ''default''], CmdErrors),
      (''queue'', [Option ''name'' TText ''default'', Option ''num'' TInt ''10''], CmdQueue),
      (''last'', [Option ''name'' TText ''default'', Option ''num'' TInt ''10''], CmdLast),
      (''delete'', [Option ''name'' TText ''default'', Positionals ''ids'' TInt], CmdDelete),
      (''check'', [Option ''name'' TText ''default'', Option ''num'' TInt ''1'', Option ''gap'' TInt ''2''], CmdCheck),
      (''recheck'', [Option ''id'' TText ''0'', Option ''name'' TText ''default''], CmdRecheck),
      (''status'', [Option ''name'' TText ''default''], CmdStatus),
      (''find'', [Positional ''pattern'' TText, Option ''name'' TText ''default'', Flag ''regex''], CmdFind),
      (''show'', [Option ''name'' TText ''default'', Positional ''id_page'' TInt], CmdShow),
      (''plugins'', [], CmdPlugins)]"

text \<open>
  What argparse makes of the arguments of a subcommand, once the command line is split into
  the options given (in order, the last one of a name counts) and the positional arguments.
\<close>

fun convert :: "arg_type \<Rightarrow> string \<Rightarrow> pyexn + optval" where
  "convert TText t = Inr (OText t)"
| "convert TInt t = (case int_of_str t of
       Some i \<Rightarrow> Inr (OInt i)
     | None \<Rightarrow> Inl (CommandError ''invalid int value''))"

fun convert_all :: "string list \<Rightarrow> pyexn + int list" where
  "convert_all [] = Inr []"
| "convert_all (t # ts) = (case int_of_str t of
       None \<Rightarrow> Inl (CommandError ''invalid int value'')
     | Some i \<Rightarrow> (case convert_all ts of Inl e \<Rightarrow> Inl e | Inr is \<Rightarrow> Inr (i # is)))"

definition add_option :: "string \<Rightarrow> pyexn + optval \<Rightarrow> pyexn + options \<Rightarrow> pyexn + options" where
  "add_option k v rest =
     (case v of Inl e \<Rightarrow> Inl e
      | Inr x \<Rightarrow> (case rest of Inl e \<Rightarrow> Inl e | Inr o' \<Rightarrow> Inr ((k, x) # o')))"

fun parse_arguments :: "(string \<times> string) list \<Rightarrow> string list \<Rightarrow> argument list \<Rightarrow> pyexn + options" where
  "parse_arguments given [] [] = Inr []"
| "parse_arguments given (t # ts) [] = Inl (CommandError ''unrecognized arguments'')"
| "parse_arguments given ts (Option k ty dflt # args) =
     add_option k (convert ty (case map_of (rev given) k of Some t \<Rightarrow> t | None \<Rightarrow> dflt))
       (parse_arguments given ts args)"
| "parse_arguments given ts (Flag k # args) =
     add_option k (Inr (OFlag (map_of given k \<noteq> None))) (parse_arguments given ts args)"
| "parse_arguments given [] (Positional k ty # args) = Inl (CommandError ''the following arguments are required'')"
| "parse_arguments given (t # ts) (Positional k ty # args) =
     add_option k (convert ty t) (parse_arguments given ts args)"
| "parse_arguments given ts (Positionals k ty # args) =
     (if ts = [] then Inl (CommandError ''the following arguments are required'')
      else add_option k (case convert_all ts of Inl e \<Rightarrow> Inl e | Inr is \<Rightarrow> Inr (OInts is))
             (parse_arguments given [] args))"

definition parse_command :: "bool \<Rightarrow> (string \<times> (string \<times> string) list \<times> string list) option \<Rightarrow> pyexn + options" where
  "parse_command verb line =
     (case line of
        None \<Rightarrow> Inr [(''verbose'', OFlag verb)]
      | Some (name, given, positional) \<Rightarrow>
          (case map_of subcommands name of
             None \<Rightarrow> Inl (CommandError ''invalid choice'')
           | Some (args, act) \<Rightarrow>
               add_option ''verbose'' (Inr (OFlag verb))
                 (add_option ''func'' (Inr (OFunc act)) (parse_arguments given positional args))))"

text \<open>\<open>options[k]\<close> and \<open>options.get(k, dflt)\<close>, at the type that the parser gives the option.\<close>

definition item :: "options \<Rightarrow> string \<Rightarrow> (optval \<Rightarrow> 'a option) \<Rightarrow> 'a cmd" where
  "item opts k proj =
     lift (case map_of opts k of
             None \<Rightarrow> Inl (KeyError k)
           | Some v \<Rightarrow> (case proj v of Some x \<Rightarrow> Inr x | None \<Rightarrow> Inl (TypeError k)))"

fun a_text :: "optval \<Rightarrow> string option" where
  "a_text (OText t) = Some t"
| "a_text _ = None"

fun an_int :: "optval \<Rightarrow> int option" where
  "an_int (OInt i) = Some i"
| "an_int _ = None"

fun ints :: "optval \<Rightarrow> int list option" where
  "ints (OInts is) = Some is"
| "ints _ = None"

fun a_flag :: "optval \<Rightarrow> bool option" where
  "a_flag (OFlag b) = Some b"
| "a_flag _ = None"

definition item_or :: "options \<Rightarrow> string \<Rightarrow> (optval \<Rightarrow> 'a option) \<Rightarrow> 'a \<Rightarrow> 'a cmd" where
  "item_or opts k proj dflt = (if map_of opts k = None then ret dflt else item opts k proj)"

section \<open>Rows of the database as the commands read them\<close>

text \<open>The orderings of \<open>Meta\<close>: a relation is ordered as the model it refers to.\<close>

definition page_created :: "world \<Rightarrow> nat \<Rightarrow> int" where
  "page_created w k = (case page_get k w of Some p \<Rightarrow> page_created_at p | None \<Rightarrow> 0)"

definition link_ordering :: "world \<Rightarrow> link \<Rightarrow> int \<times> int" where
  "link_ordering w l = (page_created w (from_page l), page_created w (to_page l))"

definition value_ordering :: "world \<Rightarrow> val_row \<Rightarrow> int \<times> string" where
  "value_ordering w v = (page_created w (value_page v), value_name v)"

definition all_values :: "page \<Rightarrow> world \<Rightarrow> val_row list" where
  "all_values p w = sort_key (value_ordering w) (page_values p w)"

definition all_outgoing :: "page \<Rightarrow> world \<Rightarrow> link list" where
  "all_outgoing p w = sort_key (link_ordering w) (outgoing_links p w)"

definition all_incoming :: "page \<Rightarrow> world \<Rightarrow> link list" where
  "all_incoming p w = sort_key (link_ordering w) (incoming_links p w)"

text \<open>Following a foreign key to a page, and the methods that follow the one to its site.\<close>

definition page_at :: "nat \<Rightarrow> page op" where
  "page_at k = andThen (reads (page_get k)) (\<lambda>p. case p of Some p \<Rightarrow> ret p | None \<Rightarrow> raise DoesNotExist)"

definition page_full_url :: "page \<Rightarrow> string op" where
  "page_full_url p = andThen (site_of p) (\<lambda>s. lift (get_full_url s p))"

definition page_relative_url :: "page \<Rightarrow> string op" where
  "page_relative_url p = andThen (site_of p) (\<lambda>s. lift (get_relative_url s p))"

text \<open>Rows of a table, built one after the other; \<open>limited_rows\<close> leaves the loop at \<open>i >= num\<close>,
  after the row was added.\<close>

definition map_rows :: "('x \<Rightarrow> cell list cmd) \<Rightarrow> 'x list \<Rightarrow> cell list list cmd" where
  "map_rows row xs = for_acc (\<lambda>x acc. andThen (row x) (\<lambda>r. ret (acc @ [r]))) xs []"

fun limited_rows :: "('x \<Rightarrow> cell list cmd) \<Rightarrow> int \<Rightarrow> int \<Rightarrow> 'x list \<Rightarrow> cell list list \<Rightarrow> cell list list cmd" where
  "limited_rows row num i [] acc = ret acc"
| "limited_rows row num i (x # xs) acc =
     andThen (row x) (\<lambda>r.
     if i \<ge> num then ret (acc @ [r]) else limited_rows row num (i + 1) xs (acc @ [r]))"

section \<open>Creating and resetting\<close>

definition cmd_init :: "env \<Rightarrow> terminal \<Rightarrow> options \<Rightarrow> unit cmd" where
  "cmd_init env T opts =
     andThen (item opts ''name'' a_text) (\<lambda>name.
     andThen (item opts ''url'' a_text) (\<lambda>url.
     andThen (console_out T [plain (''Creando site '' @ name @ '' para la URL '' @ url)] '' '' '' '') (\<lambda>_.
     except_ValueError (andThen (on_world (init_site env url name)) (\<lambda>_. success T)) (failure T))))"

definition cmd_reset :: "env \<Rightarrow> terminal \<Rightarrow> options \<Rightarrow> unit cmd" where
  "cmd_reset env T opts =
     andThen (item opts ''name'' a_text) (\<lambda>name.
     andThen (console_out T [plain (''Reinicializando site '' @ name)] '' '' '' '') (\<lambda>_.
     except_ValueError (andThen (on_world (reset_site env name)) (\<lambda>_. success T)) (failure T)))"

section \<open>Reports\<close>

definition status_row :: "world \<Rightarrow> site \<Rightarrow> cell list" where
  "status_row w s =
     map (\<lambda>t. Some (plain t))
       [site_name s, site_url s [], show_nat (length (site_pages s w)), show_nat (length (all_queued_pages s w)),
        show_nat (length (pages_with_errors s w)), fixed2 (progress s w) @ ''%'']"

definition no_sites_text :: string where
  "no_sites_text =
     ''No hay ning'' @ [CHR 0xFA] @ ''n site registrado. Use el comando:'' @ newline @ newline @
     ''    init <base url> [--name <site name>] para crear'' @ newline @ newline @
     '' un nuevo site a analizar. Si no se especifica'' @ newline @
     '' nombre, el site se llamar'' @ [CHR 0xE1, CHR '' '', CHR 0xAB] @ ''default'' @ [CHR 0xBB] @ ''.''"

definition cmd_status :: "terminal \<Rightarrow> options \<Rightarrow> unit cmd" where
  "cmd_status T opts =
     andThen (on_world (reads get_all_sites)) (\<lambda>sites.
     andThen (if sites = [] then warning T no_sites_text else ret ()) (\<lambda>_.
     andThen (on_world (reads (\<lambda>w. map (status_row w) sites))) (\<lambda>rows.
     print_table T
       \<lparr>sheet_title = Some (plain ''Sites''),
        columns = [(''Name'', False), (''URL'', False), (''Encontradas'', True), (''En cola'', True),
                   (''Errores'', True), (''Progreso'', True)],
        sheet_rows = rows\<rparr>)))"

definition plugin_row :: "terminal \<Rightarrow> string \<times> plugin option \<Rightarrow> cell list" where
  "plugin_row T nf =
     [Some (plain (fst nf)), Some (as_bool (\<not> Option.is_none (snd nf))), map_option plain (doc_of T (snd nf))]"

definition cmd_plugins :: "terminal \<Rightarrow> options \<Rightarrow> unit cmd" where
  "cmd_plugins T opts =
     andThen (on_registry (get_all_plugins (loads T))) (\<lambda>functors.
     print_table T
       \<lparr>sheet_title = Some (plain ''Plugins''),
        columns = [(''Name'', False), (''Status'', False), (''function'', False)],
        sheet_rows = map (plugin_row T) functors\<rparr>)"

definition say_value :: "terminal \<Rightarrow> rich \<Rightarrow> nat \<Rightarrow> val_row \<Rightarrow> unit cmd" where
  "say_value T start width v = say T (start @ plain (ljust width (value_name v) @ '' : '' @ value_text v))"

text \<open>One line of the lists of links; \<open>other\<close> is the end of the link that is shown.\<close>

definition say_link :: "terminal \<Rightarrow> (link \<Rightarrow> nat) \<Rightarrow> link \<Rightarrow> unit cmd" where
  "say_link T other l =
     andThen (on_world (page_at (other l))) (\<lambda>q.
     andThen (on_world (page_relative_url q)) (\<lambda>url.
     say T (plain ('' - '' @ show_nat (id_page q) @ '': '' @ url))))"

definition say_links :: "terminal \<Rightarrow> string \<Rightarrow> (link \<Rightarrow> nat) \<Rightarrow> link list \<Rightarrow> unit cmd" where
  "say_links T heading other ls =
     (if ls \<noteq> [] then andThen (say T (plain heading)) (\<lambda>_. for_each (say_link T other) ls) else ret ())"

definition show_page :: "terminal \<Rightarrow> page \<Rightarrow> unit cmd" where
  "show_page T p =
     andThen (say T (plain (''Id. page        : '' @ show_nat (id_page p)))) (\<lambda>_.
     andThen (on_world (page_full_url p)) (\<lambda>url.
     andThen (say T (plain (''URL             : '' @ url))) (\<lambda>_.
     andThen (say T (plain (''Tama'' @ [CHR 0xF1] @ ''o (bytes)  : '' @ show_int (size_bytes p)))) (\<lambda>_.
     andThen (say T (plain ''Check           : '' @ (if is_checked p then OK else WAITING))) (\<lambda>_.
     andThen (on_world (reads (all_values p))) (\<lambda>vals.
     andThen (for_each (say_value T [] 15) vals) (\<lambda>_.
     andThen (on_world (reads (all_outgoing p))) (\<lambda>outgoing.
     andThen (say_links T (''Esta p'' @ [CHR 0xE1] @ ''gina enlaza a:'') to_page outgoing) (\<lambda>_.
     andThen (on_world (reads (all_incoming p))) (\<lambda>incoming.
     say_links T (''Esta p'' @ [CHR 0xE1] @ ''gina es enlazada desde:'') from_page incoming))))))))))"

definition cmd_show :: "terminal \<Rightarrow> options \<Rightarrow> unit cmd" where
  "cmd_show T opts =
     andThen (item opts ''name'' a_text) (\<lambda>name.
     andThen (item opts ''id_page'' an_int) (\<lambda>k.
     andThen (on_world (load_page name k)) (\<lambda>page.
       case page of
         Some p \<Rightarrow> show_page T p
       | None \<Rightarrow> raise (CommandError (''Imposible cargar la p'' @ [CHR 0xE1] @ ''gina '' @ show_int k @
                          '' del site '' @ name)))))"

definition error_row :: "terminal \<Rightarrow> page \<Rightarrow> cell list cmd" where
  "error_row T p =
     andThen (on_world (page_relative_url p)) (\<lambda>url.
     ret [Some (plain (show_nat (id_page p))), Some (plain url), Some (plain (error_message p)),
          Some (plain (str_moment T (checked_at p))), Some (as_status_code (status p))])"

definition cmd_errors :: "terminal \<Rightarrow> options \<Rightarrow> unit cmd" where
  "cmd_errors T opts =
     andThen (item opts ''name'' a_text) (\<lambda>name.
     andThen (on_world (load_site_by_name name)) (\<lambda>site.
       case site of
         None \<Rightarrow> raise (AttributeError ''url'')
       | Some s \<Rightarrow>
           andThen (say T (plain (''Errores encontrados en '' @ site_str s @ '' ('' @ site_url s [] @ '')''))) (\<lambda>_.
           andThen (on_world (reads (pages_with_errors s))) (\<lambda>all_errors.
           if length all_errors = 0
           then say T (plain ''Este site no contiene por ahora ninguna enlace roto '' @ OK)
           else
             andThen (map_rows (error_row T) all_errors) (\<lambda>rows.
             print_table T
               \<lparr>sheet_title = Some (plain (''Hay '' @ show_nat (length all_errors) @ '' errores detectados'')),
                columns = [(''Id'', False), (''URL'', False), (''Message'', False), (''Checked at'', True),
                           (''Status code'', True)],
                sheet_rows = rows\<rparr>)))))"

definition last_row :: "terminal \<Rightarrow> page \<Rightarrow> cell list cmd" where
  "last_row T p =
     andThen (on_world (page_relative_url p)) (\<lambda>url.
     andThen (on_world (reads (get_value_of p ''title'' []))) (\<lambda>title.
     ret [Some (plain (show_nat (id_page p))), Some (plain url), Some (plain title),
          Some (plain (str_moment T (checked_at p))), Some (as_bool (is_ok p))]))"

definition cmd_last :: "terminal \<Rightarrow> options \<Rightarrow> unit cmd" where
  "cmd_last T opts =
     andThen (item opts ''name'' a_text) (\<lambda>name.
     andThen (item_or opts ''num'' an_int 10) (\<lambda>num.
     andThen (on_world (load_site_by_name name)) (\<lambda>site.
       case site of
         None \<Rightarrow> raise (AttributeError ''all_checked_pages'')
       | Some s \<Rightarrow>
           andThen (on_world (reads (all_checked_pages s))) (\<lambda>checked.
           andThen (limited_rows (last_row T) num 0 checked []) (\<lambda>rows.
           print_table T
             \<lparr>sheet_title = Some (plain ''Last links''),
              columns = [(''Id'', False), (''URL'', False), (''Title'', False), (''Checked at'', True), (''Is ok'', True)],
              sheet_rows = rows\<rparr>)))))"

definition queue_row :: "env \<Rightarrow> page \<Rightarrow> cell list cmd" where
  "queue_row env p =
     andThen (on_world (page_relative_url p)) (\<lambda>url.
     andThen (on_world (waiting_time env p)) (\<lambda>waiting.
     ret [Some (plain (show_nat (id_page p))), Some (plain url), Some (plain (str_timedelta waiting))]))"

definition cmd_queue :: "env \<Rightarrow> terminal \<Rightarrow> options \<Rightarrow> unit cmd" where
  "cmd_queue env T opts =
     andThen (item opts ''name'' a_text) (\<lambda>name.
     andThen (item_or opts ''num'' an_int 10) (\<lambda>num.
     andThen (on_world (load_site_by_name name)) (\<lambda>site.
       case site of
         None \<Rightarrow> raise (AttributeError ''all_queued_pages'')
       | Some s \<Rightarrow>
           andThen (on_world (reads (all_queued_pages s))) (\<lambda>queued.
           andThen (limited_rows (queue_row env) num 0 queued []) (\<lambda>rows.
           print_table T
             \<lparr>sheet_title = Some (plain (''Queue for '' @ name @ '' ('' @ show_nat (length queued) @ '' pages)'')),
              columns = [(''Id'', False), (''URL'', False), (''Waiting time'', True)],
              sheet_rows = rows\<rparr>)))))"

definition find_row :: "page \<Rightarrow> cell list cmd" where
  "find_row p =
     andThen (on_world (page_relative_url p)) (\<lambda>url.
     ret [Some (plain (show_nat (id_page p))), Some (plain url),
          Some (if is_checked p then OK else WAITING), Some (as_status_code (status p))])"

text \<open>The generator is run to its end here: its only effect is what it yields.\<close>

definition cmd_find :: "terminal \<Rightarrow> options \<Rightarrow> unit cmd" where
  "cmd_find T opts =
     andThen (item opts ''name'' a_text) (\<lambda>name.
     andThen (on_world (load_site name)) (\<lambda>site.
       case site of
         None \<Rightarrow> failure T (''[red]Error:[/] No existe el site [red]'' @ name @ ''[/]'')
       | Some s \<Rightarrow>
           andThen (item opts ''pattern'' a_text) (\<lambda>pattern.
           andThen (item_or opts ''regex'' a_flag False) (\<lambda>use_regex.
           andThen (say T (plain (''Buscando por el patr'' @ [CHR 0xF3] @ ''n [green]'' @ pattern @ ''[/]''))) (\<lambda>_.
           andThen (on_world (reads (find_urls_by_pattern (compiles T) s pattern use_regex))) (\<lambda>(found, ended).
           andThen (map_rows find_row found) (\<lambda>rows.
           case ended of
             Some e \<Rightarrow> raise e
           | None \<Rightarrow>
               print_table T
                 \<lparr>sheet_title = None,
                  columns = [(''Id'', False), (''URL'', False), (''Checked'', True), (''Status'', True)],
                  sheet_rows = rows\<rparr>)))))))"

section \<open>Checking\<close>

text \<open>
  The loop over the generator \<open>check_site\<close>, in the order in which it runs: a page is checked
  and yielded, the body of the loop consumes the result, and then the next page is chosen.
\<close>

fun crawl_each :: "'p option op \<Rightarrow> ('p \<Rightarrow> 'r op) \<Rightarrow> ('r \<Rightarrow> unit cmd) \<Rightarrow> nat \<Rightarrow> 'p option \<Rightarrow> unit cmd" where
  "crawl_each select check body 0 pg = ret ()"
| "crawl_each select check body (Suc n) None = ret ()"
| "crawl_each select check body (Suc n) (Some p) =
     andThen (on_world (check p)) (\<lambda>r.
     andThen (body r) (\<lambda>_.
     andThen (on_world select) (crawl_each select check body n)))"

definition for_check_site :: "env \<Rightarrow> site \<Rightarrow> int \<Rightarrow> (check_result \<Rightarrow> unit cmd) \<Rightarrow> unit cmd" where
  "for_check_site env s num body =
     andThen (on_world (next_page_to_check env s))
       (crawl_each (next_page_to_check env s) (check_page env) body (nat num))"

definition str_result :: "terminal \<Rightarrow> check_result \<Rightarrow> rich" where
  "str_result T r =
     (case r of
        Success m \<Rightarrow> plain ''Success('' @ str_message T m @ plain '')''
      | Failure _ _ \<Rightarrow> plain (str_of (\<lambda>_. []) show_int r))"

definition after_check :: "terminal \<Rightarrow> int \<Rightarrow> int \<Rightarrow> check_result \<Rightarrow> unit cmd" where
  "after_check T num gap r =
     andThen (reads is_verbose) (\<lambda>v.
     andThen (if v then say T (str_result T r) else ret ()) (\<lambda>_.
     if num > 1 then sleep gap else ret ()))"

definition cmd_check :: "env \<Rightarrow> terminal \<Rightarrow> options \<Rightarrow> unit cmd" where
  "cmd_check env T opts =
     andThen (item opts ''name'' a_text) (\<lambda>name.
     andThen (on_world (load_site name)) (\<lambda>site.
       case site of
         None \<Rightarrow> failure T (''No existe el site [bold]'' @ name @ ''[/]'')
       | Some s \<Rightarrow>
           andThen (item opts ''num'' an_int) (\<lambda>num.
           andThen (item opts ''gap'' an_int) (\<lambda>gap.
           andThen (for_check_site env s num (after_check T num gap)) (\<lambda>_.
           heartbeat T)))))"

fun as_int :: "optval \<Rightarrow> pyexn + int" where
  "as_int (OText t) = (case int_of_str t of
       Some i \<Rightarrow> Inr i
     | None \<Rightarrow> Inl (ValueError ''invalid literal for int() with base 10''))"
| "as_int (OInt i) = Inr i"
| "as_int (OFlag b) = Inr (if b then 1 else 0)"
| "as_int _ = Inl (TypeError ''int() argument must be a string, a bytes-like object or a real number'')"

text \<open>\<open>check_page(None)\<close>: the clock is read, then the assignment to the attribute raises.\<close>

definition check_page_or_None :: "env \<Rightarrow> page option \<Rightarrow> check_result op" where
  "check_page_or_None env page =
     (case page of
        Some p \<Rightarrow> check_page env p
      | None \<Rightarrow> andThen (ask (e_local env)) (\<lambda>_. raise (AttributeError ''checked_at'')))"

text \<open>
  \<open>load_page\<close> is given the site itself instead of its name; Django takes the text of the
  instance, which is its name.
\<close>

definition page_to_recheck :: "env \<Rightarrow> site \<Rightarrow> int \<Rightarrow> page option op" where
  "page_to_recheck env s k = (if k = 0 then next_page_to_check env s else load_page (site_str s) k)"

definition report_recheck :: "terminal \<Rightarrow> page \<Rightarrow> check_result \<Rightarrow> unit cmd" where
  "report_recheck T p r =
     andThen (on_world (page_full_url p)) (\<lambda>url.
     andThen (say T (plain (''Comprobando de nuevo '' @ url @ '': '') @ str_result T r)) (\<lambda>_.
     andThen (on_world (reads (all_values p))) (\<lambda>vals.
     andThen (for_each (say_value T (plain '' '' @ [Pointer] @ plain '' '') 26) vals) (\<lambda>_.
     andThen (on_world (reads (all_outgoing p))) (\<lambda>outgoing.
     andThen (say T (plain '' '' @ [Pointer] @
       plain ('' Total Enlaces de salida    : '' @ show_nat (length outgoing)))) (\<lambda>_.
     andThen (on_world (reads (all_incoming p))) (\<lambda>incoming.
     say T (plain '' '' @ [Pointer] @
       plain ('' Total Enlaces de entrada   : '' @ show_nat (length incoming))))))))))"

definition cmd_recheck :: "env \<Rightarrow> terminal \<Rightarrow> options \<Rightarrow> unit cmd" where
  "cmd_recheck env T opts =
     andThen (item opts ''name'' a_text) (\<lambda>name.
     andThen (on_world (load_site name)) (\<lambda>site.
       case site of
         None \<Rightarrow> failure T (''No existe el site [bold]'' @ name @ ''[/]'')
       | Some s \<Rightarrow>
           andThen (item_or opts ''id'' Some (OInt 0)) (\<lambda>v.
           andThen (lift (as_int v)) (\<lambda>k.
           andThen (on_world (page_to_recheck env s k)) (\<lambda>page.
           if k \<noteq> 0 \<and> page = None
           then failure T (''La p'' @ [CHR 0xE1] @ ''gina indicada no existe'')
           else
             andThen (on_world (check_page_or_None env page)) (\<lambda>r.
             andThen (reads is_verbose) (\<lambda>verb.
             andThen (case page of
                        Some p \<Rightarrow> if verb then report_recheck T p r else ret ()
                      | None \<Rightarrow> ret ()) (\<lambda>_.
             heartbeat T))))))))"

section \<open>Deleting\<close>

text \<open>\<open>self.success(\<dots>)\<close>: the method takes no argument, so the call raises after its argument
  was computed.\<close>

definition delete_one :: "terminal \<Rightarrow> string \<Rightarrow> int \<Rightarrow> unit cmd" where
  "delete_one T name k =
     andThen (on_world (load_page name k)) (\<lambda>page.
       case page of
         Some p \<Rightarrow>
           andThen (on_world (page_full_url p)) (\<lambda>_.
           raise (TypeError ''Command.success() takes 1 positional argument but 2 were given''))
       | None \<Rightarrow> failure T (''La p'' @ [CHR 0xE1] @ ''gina [bold]'' @ show_int k @ ''[/] no existe''))"

definition cmd_delete :: "terminal \<Rightarrow> options \<Rightarrow> unit cmd" where
  "cmd_delete T opts =
     andThen (item opts ''name'' a_text) (\<lambda>name.
     andThen (item opts ''ids'' ints) (\<lambda>ids.
     for_each (delete_one T name) ids))"

section \<open>handle\<close>

definition help_text :: string where
  "help_text = join newline
     [''Spidercheck CLI'', ''Opciones:'', [],
      '' - init:    Crear un site con una url base asociada'',
      '' - reset:   Reinicializar un site al estado inicial'',
      '' - last:    Mostrar las '' @ [CHR 0xFA] @ ''ltimas p'' @ [CHR 0xE1] @ ''ginas analizadas'',
      '' - queue:   Mostrar la cola de URLs pendientes de analizar'',
      ''            de un site'',
      '' - status:  Mostrar el estado general de un site'',
      '' - check:   Analizar y procesar la siguiente URL'',
      '' - delete:  Borrar una p'' @ [CHR 0xE1] @ ''gina de la base de datos'',
      '' - find:    Buscar en las URLs procesadas por expresi'' @ [CHR 0xF3] @ ''n regular'',
      '' - show:    Mostrar informaci'' @ [CHR 0xF3] @ ''n sobre una p'' @ [CHR 0xE1] @ ''gina'',
      '' - recheck: Analizar y procesar el siguiente enlace roto'', [], []]"

definition run_action :: "env \<Rightarrow> terminal \<Rightarrow> action \<Rightarrow> options \<Rightarrow> unit cmd" where
  "run_action env T act opts =
     (case act of
        CmdInit \<Rightarrow> cmd_init env T opts
      | CmdReset \<Rightarrow> cmd_reset env T opts
      | CmdErrors \<Rightarrow> cmd_errors T opts
      | CmdQueue \<Rightarrow> cmd_queue env T opts
      | CmdLast \<Rightarrow> cmd_last T opts
      | CmdDelete \<Rightarrow> cmd_delete T opts
      | CmdCheck \<Rightarrow> cmd_check env T opts
      | CmdRecheck \<Rightarrow> cmd_recheck env T opts
      | CmdStatus \<Rightarrow> cmd_status T opts
      | CmdFind \<Rightarrow> cmd_find T opts
      | CmdShow \<Rightarrow> cmd_show T opts
      | CmdPlugins \<Rightarrow> cmd_plugins T opts)"

fun an_action :: "optval \<Rightarrow> action option" where
  "an_action (OFunc a) = Some a"
| "an_action _ = None"

definition handle :: "env \<Rightarrow> terminal \<Rightarrow> options \<Rightarrow> unit cmd" where
  "handle env T opts =
     andThen (item_or opts ''verbose'' a_flag False) (\<lambda>verb.
     andThen (writes (\<lambda>c. c\<lparr>is_verbose := verb\<rparr>)) (\<lambda>_.
     if map_of opts ''func'' \<noteq> None then
       andThen (item opts ''func'' an_action) (\<lambda>act. run_action env T act opts)
     else
       andThen (say T (plain help_text)) (\<lambda>_.
       say T (plain (''Use:'' @ newline @ [CHR 0x09] @ ''[python] ./manage.py spidercheck [orden]'')))))"

end
