(* ===== verification/World_Laws.thy ===== *)
theory World_Laws
  imports Crawl Sites
begin

text \<open>
  Invariants of the database as an interface: a property that every operation of \<open>core.py\<close> that
  the front ends call keeps. Commands and views then keep it too, which is proved once for all
  such properties; the first of them is that the database is well formed.
\<close>

locale world_invariant =
  fixes env :: env
    and I :: "world \<Rightarrow> bool"
  assumes sound: "I w \<Longrightarrow> db_ok w"
    and time: "I (w\<lparr>tick := n\<rparr>) = I w"
    and init_kept: "keeps I (init_site env url name)"
    and reset_kept: "keeps I (reset_site env name)"
    and check_kept: "I w \<Longrightarrow> p \<in> set (page_rows w) \<Longrightarrow> I (snd (check_page env p w))"
begin

lemma next_kept: "keeps I (next_page_to_check env s)"
proof (rule keepsI)
  fix w assume "I w"
  obtain pg n where "next_page_to_check env s w = (Inr pg, w\<lparr>tick := n\<rparr>)" using next_page_returns by blast
  with \<open>I w\<close> show "I (snd (next_page_to_check env s w))" by (simp add: time)
qed

end

sublocale world_invariant < crawled: crawler "next_page_to_check env s" "check_page env" I
    "\<lambda>p w. p \<in> set (page_rows w)" is_failure for s
proof (unfold_locales, goal_cases)
  case (1 w out w')
  then show ?case using keeps_resultD [OF next_kept] by blast
next
  case (2 w p w')
  then show ?case using site_crawl.select_ready [OF sound] by blast
next
  case (3 w p out w')
  then show ?case using check_kept [of w p] by simp
next
  case (4 w p r w')
  then show ?case using site_crawl.check_good [OF sound] by blast
qed

interpretation well_formed: world_invariant env db_ok for env
  by unfold_locales (auto intro: init_site_keeps reset_site_keeps check_page_ok)

end
