(* ===== verification/Command_Runs.thy ===== *)
theory Command_Runs
  imports Commands World_Laws
begin

text \<open>
  What the commands do to the database: every command keeps it well formed, the reporting
  commands (and \<open>delete\<close>) leave the tables alone, \<open>check\<close> is the crawl of \<open>core.check_site\<close> with
  its results printed, and the two listings with a limit show the first pages of their query.
\<close>

section \<open>Invariants of the database across a command\<close>

text \<open>A property of the tables, which the counter of readings does not matter to.\<close>

definition timeless :: "(world \<Rightarrow> bool) \<Rightarrow> bool" where
  "timeless I \<longleftrightarrow> (\<forall>w n. I (w\<lparr>tick := n\<rparr>) = I w)"

lemma timeless_ok: "timeless db_ok"
  by (simp add: timeless_def)

definition tables :: "world \<Rightarrow> world" where
  "tables w = w\<lparr>tick := 0\<rparr>"

lemma timeless_tables: "timeless (\<lambda>w. tables w = v)"
  by (simp add: timeless_def tables_def)

lemma timeless_ask: "timeless I \<Longrightarrow> keeps I (ask f)"
  by (simp add: timeless_def keeps_def ask_def)

lemma keeps_on_world [keeps_intros]: "keeps I m \<Longrightarrow> keeps (\<lambda>c. I (db c)) (on_world m)"
  unfolding on_world_def by (rule world_part.focused_keeps)

lemma keeps_on_registry [keeps_intros]: "keeps (\<lambda>c. I (db c)) (on_registry m)"
  using registry_part.focused_unaltered [of "db :: shell \<Rightarrow> world" m] unfolding on_registry_def
  by (simp add: keeps_def unaltered_def)

lemma keeps_emit [keeps_intros]: "keeps (\<lambda>c. I (db c)) (emit x e)"
  unfolding emit_def by (cases x) (simp_all add: keeps_def raise_def writes_def)

lemma keeps_output [keeps_intros]:
  "keeps (\<lambda>c. I (db c)) (console_out T args sep ending)" "keeps (\<lambda>c. I (db c)) (say T t)"
  "keeps (\<lambda>c. I (db c)) (warning T msg)" "keeps (\<lambda>c. I (db c)) (success T)"
  "keeps (\<lambda>c. I (db c)) (failure T msg)" "keeps (\<lambda>c. I (db c)) (print_table T u)"
  "keeps (\<lambda>c. I (db c)) (sleep gap)" "keeps (\<lambda>c. I (db c)) (heartbeat T)"
  unfolding warning_def success_def failure_def say_def console_out_def Let_def print_table_def sleep_def heartbeat_def
  by (rule keeps_emit)+

lemma keeps_item [keeps_intros]: "keeps I (item opts k proj)"
  unfolding item_def by (rule keeps_lift)

lemma keeps_item_or [keeps_intros]: "keeps I (item_or opts k proj dflt)"
  unfolding item_or_def by (intro keeps_intros)

declare keeps_except [keeps_intros] keeps_for_each [keeps_intros] keeps_case_option [keeps_intros]
  keeps_split [keeps_intros]

text \<open>Reading operations.\<close>

lemma keeps_load_site [keeps_intros]: "keeps I (load_site_by_name name)" "keeps I (load_site name)"
  by (auto simp: keeps_def load_site_def load_site_by_name_def split: list.split)

lemma keeps_site_of [keeps_intros]: "keeps I (site_of p)"
  by (auto simp: keeps_def site_of_def split: option.split)

lemma keeps_reading [keeps_intros]:
  "keeps I (load_page name k)" "keeps I (page_at j)" "keeps I (page_full_url p)" "keeps I (page_relative_url p)"
  unfolding load_page_def page_at_def page_full_url_def page_relative_url_def by (intro keeps_intros)+

lemma keeps_map_rows [keeps_intros]: "(\<And>x. keeps I (row x)) \<Longrightarrow> keeps I (map_rows row xs)"
  unfolding map_rows_def by (intro keeps_intros)

lemma keeps_limited_rows [keeps_intros]: "(\<And>x. keeps I (row x)) \<Longrightarrow> keeps I (limited_rows row num i xs acc)"
  by (induction xs arbitrary: i acc) (auto intro!: keeps_intros)

section \<open>Reports change no table\<close>

lemma keeps_waiting [keeps_intros]: "timeless I \<Longrightarrow> keeps I (waiting_time env p)"
  unfolding waiting_time_def by (intro keeps_intros timeless_ask)

lemma report_rows_keep [keeps_intros]:
  "keeps (\<lambda>c. I (db c)) (error_row T p)" "keeps (\<lambda>c. I (db c)) (last_row T p)"
  "timeless I \<Longrightarrow> keeps (\<lambda>c. I (db c)) (queue_row env p)" "keeps (\<lambda>c. I (db c)) (find_row p)"
  unfolding error_row_def last_row_def queue_row_def find_row_def by (intro keeps_intros; assumption)+

lemma say_values_keep [keeps_intros]:
  "keeps (\<lambda>c. I (db c)) (say_value T t n v)" "keeps (\<lambda>c. I (db c)) (say_link T other l)"
  "keeps (\<lambda>c. I (db c)) (say_links T heading other ls)" "keeps (\<lambda>c. I (db c)) (show_page T p)"
  "keeps (\<lambda>c. I (db c)) (report_recheck T p r)"
  unfolding say_value_def say_link_def say_links_def show_page_def report_recheck_def by (intro keeps_intros)+

lemma reports_keep:
  assumes "timeless I"
  shows "keeps (\<lambda>c. I (db c)) (cmd_status T opts)" "keeps (\<lambda>c. I (db c)) (cmd_plugins T opts)"
    "keeps (\<lambda>c. I (db c)) (cmd_show T opts)" "keeps (\<lambda>c. I (db c)) (cmd_errors T opts)"
    "keeps (\<lambda>c. I (db c)) (cmd_last T opts)" "keeps (\<lambda>c. I (db c)) (cmd_queue env T opts)"
    "keeps (\<lambda>c. I (db c)) (cmd_find T opts)" "keeps (\<lambda>c. I (db c)) (cmd_delete T opts)"
  unfolding cmd_status_def cmd_plugins_def cmd_show_def cmd_errors_def cmd_last_def cmd_queue_def cmd_find_def
    cmd_delete_def delete_one_def
  by (intro keeps_intros assms)+

section \<open>Commands that write\<close>

text \<open>The loop over the generator keeps what the crawler's services keep, whatever its body prints.\<close>

context crawler begin

lemma crawl_each_inv:
  assumes "\<And>r. keeps (\<lambda>c. inv (db c)) (body r)" "inv (db c)" "\<And>p. pg = Some p \<Longrightarrow> ready p (db c)"
  shows "inv (db (snd (crawl_each select check body n pg c)))"
  using assms(2,3)
proof (induction n arbitrary: pg c)
  case (Suc n)
  show ?case
  proof (cases pg)
    case (Some p)
    have start: "inv (db c)" "ready p (db c)" using Suc.prems Some by simp_all
    have chk: "inv (db (snd (on_world (check p) c)))"
      using check_inv [OF start] by (cases "check p (db c)") (simp add: on_world_def focused_def)
    have sel: "keeps (\<lambda>c. inv (db c)) (andThen (on_world select) (crawl_each select check body n))"
    proof (rule keeps_bind)
      show "keeps (\<lambda>c. inv (db c)) (on_world select)"
        by (rule keeps_on_world, rule keepsI) (metis select_inv prod.collapse)
    next
      fix c q d assume "inv (db c)" "on_world select c = (Inr q, d)" "inv (db d)"
      then show "inv (db (snd (crawl_each select check body n q d)))"
        using select_ready [of "db c"]
        by (intro Suc.IH) (auto simp: on_world_def focused_def split: prod.splits)
    qed
    have "keeps (\<lambda>c. inv (db c)) (andThen (body r) (\<lambda>_. andThen (on_world select) (crawl_each select check body n)))" for r
      by (rule keeps_andThen [OF assms(1) sel])
    with chk show ?thesis
      unfolding Some crawl_each.simps by (rule keeps_start)
  qed (use Suc.prems in \<open>simp add: ret_def\<close>)
qed (simp add: ret_def)

end

lemma load_page_row: "db_ok w \<Longrightarrow> load_page name k w = (Inr (Some p), w') \<Longrightarrow> w' = w \<and> p \<in> set (page_rows w)"
  by (auto simp: load_page_def load_site_by_name_def andThen_def raise_def reads_def site_load_page_def site_pages_def
      split: list.splits dest!: head_Some_in)

context world_invariant begin

abbreviation kept :: "(shell, 'a) py \<Rightarrow> bool" where
  "kept \<equiv> keeps (\<lambda>c. I (db c))"

lemma timeless_inv: "timeless I"
  by (simp add: timeless_def time)

lemma cmd_init_kept: "kept (cmd_init env T opts)"
  unfolding cmd_init_def by (intro keeps_intros init_kept)

lemma cmd_reset_kept: "kept (cmd_reset env T opts)"
  unfolding cmd_reset_def by (intro keeps_intros reset_kept)

lemma for_check_site_kept:
  assumes "\<And>r. kept (body r)"
  shows "kept (for_check_site env s num body)"
  unfolding for_check_site_def
proof (rule keeps_bind)
  show "kept (on_world (next_page_to_check env s))"
    by (rule keeps_on_world [OF next_kept])
next
  fix c pg d assume "I (db c)" "on_world (next_page_to_check env s) c = (Inr pg, d)" "I (db d)"
  then show "I (db (snd (crawl_each (next_page_to_check env s) (check_page env) body (nat num) pg d)))"
    using crawled.select_ready [of "db c" s]
    by (intro crawled.crawl_each_inv assms) (auto simp: on_world_def focused_def split: prod.splits)
qed

lemma cmd_check_kept: "kept (cmd_check env T opts)"
  unfolding cmd_check_def after_check_def by (intro keeps_intros for_check_site_kept)

lemma page_to_recheck_row:
  assumes "I w" "page_to_recheck env s k w = (Inr (Some p), w')"
  shows "p \<in> set (page_rows w')"
  using assms load_page_row [OF sound [OF assms(1)]] crawled.select_ready [OF assms(1)]
  by (auto simp: page_to_recheck_def split: if_splits)

lemma page_to_recheck_kept: "keeps I (page_to_recheck env s k)"
  unfolding page_to_recheck_def by (intro keeps_intros next_kept)

lemma recheck_page_kept:
  "kept (andThen (on_world (page_to_recheck env s k)) (\<lambda>page.
     if b page then failure T msg else andThen (on_world (check_page_or_None env page)) (rest page)))"
  if rest: "\<And>page r. kept (rest page r)"
proof (rule keeps_bind [OF keeps_on_world [OF page_to_recheck_kept]])
  fix c page d
  assume start: "I (db c)" "on_world (page_to_recheck env s k) c = (Inr page, d)" "I (db d)"
  have row: "p \<in> set (page_rows (db d))" if "page = Some p" for p
    using start that page_to_recheck_row [of "db c" s k p] by (auto simp: on_world_def focused_def split: prod.splits)
  have "I (snd (check_page_or_None env page (db d)))"
    using row check_kept [OF start(3)] start(3)
    by (cases page) (simp_all add: check_page_or_None_def andThen_def ask_def raise_def time)
  then have "I (db (snd (on_world (check_page_or_None env page) d)))"
    by (auto simp: on_world_def focused_def split: prod.split)
  then have "I (db (snd (andThen (on_world (check_page_or_None env page)) (rest page) d)))"
    by (intro keeps_start [where I = "\<lambda>c. I (db c)" and m = "on_world (check_page_or_None env page)"] rest)
  then show "I (db (snd ((if b page then failure T msg
      else andThen (on_world (check_page_or_None env page)) (rest page)) d)))"
    using keepsD [where I = "\<lambda>c. I (db c)", OF keeps_output(5) start(3), of T msg] by simp
qed

lemma cmd_recheck_kept: "kept (cmd_recheck env T opts)"
  unfolding cmd_recheck_def by (intro keeps_intros recheck_page_kept)

lemma run_action_kept: "kept (run_action env T act opts)"
  unfolding run_action_def
  using reports_keep [OF timeless_inv] cmd_init_kept cmd_reset_kept cmd_check_kept cmd_recheck_kept
  by (cases act) simp_all

end

section \<open>All commands\<close>

definition reports :: "action \<Rightarrow> bool" where
  "reports act \<longleftrightarrow> act \<notin> {CmdInit, CmdReset, CmdCheck, CmdRecheck}"

lemma run_report_keeps:
  "reports act \<Longrightarrow> timeless I \<Longrightarrow> keeps (\<lambda>c. I (db c)) (run_action env T act opts)"
  unfolding run_action_def reports_def using reports_keep [of I] by (cases act) simp_all

lemma keeps_verbose: "keeps (\<lambda>c. I (db c)) (writes (\<lambda>c. c\<lparr>is_verbose := v\<rparr>))"
  by (rule keeps_writes) simp

lemma an_action_Some: "an_action v = Some act \<longleftrightarrow> v = OFunc act"
  by (cases v) simp_all

lemma handle_keeps:
  assumes "\<And>act. map_of opts ''func'' = Some (OFunc act) \<Longrightarrow> keeps (\<lambda>c. I (db c)) (run_action env T act opts)"
  shows "keeps (\<lambda>c. I (db c)) (handle env T opts)"
proof -
  have "keeps (\<lambda>c. I (db c)) (andThen (item opts ''func'' an_action) (\<lambda>act. run_action env T act opts))"
  proof (rule keeps_bind [OF keeps_item])
    fix c act d assume "I (db c)" "item opts ''func'' an_action c = (Inr act, d)" "I (db d)"
    moreover from this(2) have "map_of opts ''func'' = Some (OFunc act)"
      unfolding item_def lift_def by (simp add: an_action_Some split: option.splits)
    ultimately show "I (db (snd (run_action env T act opts d)))"
      using keepsD [where I = "\<lambda>c. I (db c)" and s = d, OF assms [of act]] by simp
  qed
  note act = this
  show ?thesis
    unfolding handle_def by (intro act keeps_item_or keeps_verbose keeps_if keeps_output keeps_andThen)
qed

context world_invariant begin

lemma handle_kept: "I (db c) \<Longrightarrow> I (db (snd (handle env T opts c)))"
  using handle_keeps [of opts I env T] run_action_kept by (simp add: keeps_def)

end

lemmas handle_ok = well_formed.handle_kept

lemma handle_reports:
  assumes "\<forall>act. map_of opts ''func'' = Some (OFunc act) \<longrightarrow> reports act"
  shows "tables (db (snd (handle env T opts c))) = tables (db c)"
  using handle_keeps [of opts "\<lambda>w. tables w = tables (db c)" env T] run_report_keeps [OF _ timeless_tables] assms
  by (simp add: keeps_def)

section \<open>Output on a terminal that accepts it\<close>

definition accepts :: "terminal \<Rightarrow> bool" where
  "accepts T \<longleftrightarrow> (\<forall>t e. prints T t e = None) \<and> (\<forall>t. prints_table T t = None) \<and> beats T = None"

named_theorems output_simps "what an output operation appends to the trace"

lemma say_accepted [output_simps]:
  "accepts T \<Longrightarrow> say T t c = (Inr (), c\<lparr>trace := trace c @ [Printed t newline]\<rparr>)"
  by (simp add: accepts_def say_def console_out_def emit_def writes_def)

lemma failure_accepted [output_simps]:
  "accepts T \<Longrightarrow> failure T msg c =
     (Inr (), c\<lparr>trace := trace c @ [Printed (ERROR @ plain ('' [red bold]'' @ msg @ ''[/]'')) newline]\<rparr>)"
  by (simp add: failure_def say_accepted)

lemma print_table_accepted [output_simps]:
  "accepts T \<Longrightarrow> print_table T t c = (Inr (), c\<lparr>trace := trace c @ [PrintedTable t]\<rparr>)"
  by (simp add: accepts_def print_table_def emit_def writes_def)

lemma heartbeat_accepted [output_simps]:
  "accepts T \<Longrightarrow> heartbeat T c = (Inr (), c\<lparr>trace := trace c @ [Heartbeat]\<rparr>)"
  by (simp add: accepts_def heartbeat_def emit_def writes_def)

lemma sleep_accepted [output_simps]: "0 \<le> gap \<Longrightarrow> sleep gap c = (Inr (), c\<lparr>trace := trace c @ [Slept gap]\<rparr>)"
  by (simp add: sleep_def emit_def writes_def)

lemma item_found: "map_of opts k = Some v \<Longrightarrow> proj v = Some x \<Longrightarrow> item opts k proj c = (Inr x, c)"
  by (simp add: item_def lift_def)

lemma item_or_found: "map_of opts k = Some v \<Longrightarrow> proj v = Some x \<Longrightarrow> item_or opts k proj dflt c = (Inr x, c)"
  by (simp add: item_or_def item_found)

lemma on_world_eval: "m (db c) = (r, w') \<Longrightarrow> on_world m c = (r, c\<lparr>db := w'\<rparr>)"
  by (simp add: on_world_def focused_def)

lemma on_world_reads: "on_world (reads g) c = (Inr (g (db c)), c)"
  by (simp add: on_world_def focused_def reads_def)

lemma on_world_site: "db_ok (db c) \<Longrightarrow> s \<in> set (site_rows (db c)) \<Longrightarrow> on_world (load_site_by_name (site_name s)) c = (Inr (Some s), c)"
  by (simp add: on_world_def focused_def load_site_found)

section \<open>check: the crawl, printed\<close>

text \<open>What the loop of \<open>cmd_check\<close> does with one result.\<close>

definition check_events :: "terminal \<Rightarrow> bool \<Rightarrow> int \<Rightarrow> int \<Rightarrow> check_result \<Rightarrow> event list" where
  "check_events T v num gap r =
     (if v then [Printed (str_result T r) newline] else []) @ (if num > 1 then [Slept gap] else [])"

definition ended :: "pyexn option \<Rightarrow> pyexn + unit" where
  "ended e = (case e of None \<Rightarrow> Inr () | Some x \<Rightarrow> Inl x)"

lemma ended_simps [simp]: "ended None = Inr ()" "ended (Some x) = Inl x"
  by (simp_all add: ended_def)

lemma after_check_accepted:
  assumes "accepts T" "num > 1 \<Longrightarrow> 0 \<le> gap"
  shows "after_check T num gap r c = (Inr (), c\<lparr>trace := trace c @ check_events T (is_verbose c) num gap r\<rparr>)"
  using assms by (simp add: after_check_def check_events_def andThen_def reads_def ret_def output_simps)

lemma crawl_each_run:
  assumes "\<And>r d. is_verbose d = is_verbose c \<Longrightarrow> body r d = (Inr (), d\<lparr>trace := trace d @ ev r\<rparr>)"
    and "crawl select check n pg (db c) = (rs, e, w')"
  shows "crawl_each select check body n pg c = (ended e, c\<lparr>db := w', trace := trace c @ concat (map ev rs)\<rparr>)"
  using assms
proof (induction n arbitrary: pg c rs)
  case (Suc n)
  show ?case
  proof (cases pg)
    case (Some p)
    obtain out w1 where chk: "check p (db c) = (out, w1)" by (cases "check p (db c)")
    show ?thesis
    proof (cases out)
      case (Inl x)
      with Suc.prems(2) Some chk on_world_eval [of "check p" c, OF chk] show ?thesis by (auto simp: andThen_def)
    next
      case (Inr r)
      let ?c = "c\<lparr>db := w1, trace := trace c @ ev r\<rparr>"
      obtain nx w2 where sel: "select w1 = (nx, w2)" by (cases "select w1")
      have start: "crawl_each select check body (Suc n) pg c = andThen (on_world select) (crawl_each select check body n) ?c"
        using Suc.prems(1) [of "c\<lparr>db := w1\<rparr>" r] on_world_eval [of "check p" c, OF chk] Some Inr by (simp add: andThen_def)
      have next_c: "on_world select ?c = (nx, ?c\<lparr>db := w2\<rparr>)" using sel by (intro on_world_eval) simp
      show ?thesis
      proof (cases nx)
        case (Inl x)
        with Suc.prems(2) Some chk \<open>out = Inr r\<close> sel next_c show ?thesis
          unfolding start by (auto simp: andThen_def yielded_def)
      next
        case (Inr q)
        obtain rs' where rest: "crawl select check n q w2 = (rs', e, w')" "rs = r # rs'"
          using Suc.prems(2) Some chk \<open>out = Inr r\<close> sel Inr by (auto simp: yielded_def split: prod.splits)
        have "crawl_each select check body n q (?c\<lparr>db := w2\<rparr>) =
            (ended e, ?c\<lparr>db := w', trace := trace ?c @ concat (map ev rs')\<rparr>)"
          using Suc.IH [of "?c\<lparr>db := w2\<rparr>" q rs'] Suc.prems(1) rest(1) by simp
        with next_c Inr rest(2) show ?thesis unfolding start by (simp add: andThen_def)
      qed
    qed
  qed (use Suc.prems in \<open>simp add: ret_def\<close>)
qed (simp add: ret_def)

lemma for_check_site_run:
  assumes "\<And>r d. is_verbose d = is_verbose c \<Longrightarrow> body r d = (Inr (), d\<lparr>trace := trace d @ ev r\<rparr>)"
    and "check_site env s num (db c) = (rs, e, w')"
  shows "for_check_site env s num body c = (ended e, c\<lparr>db := w', trace := trace c @ concat (map ev rs)\<rparr>)"
proof (cases "next_page_to_check env s (db c)")
  case (Pair out w1)
  note sel = on_world_eval [of "next_page_to_check env s" c, OF Pair]
  show ?thesis
  proof (cases out)
    case (Inl x)
    with assms(2) Pair sel show ?thesis by (auto simp: for_check_site_def check_site_def andThen_def)
  next
    case (Inr pg)
    with assms(2) Pair have "crawl (next_page_to_check env s) (check_page env) (nat num) pg (db (c\<lparr>db := w1\<rparr>)) = (rs, e, w')"
      by (simp add: check_site_def)
    from crawl_each_run [OF _ this, of body ev] assms(1) Inr sel show ?thesis
      by (simp add: for_check_site_def andThen_def)
  qed
qed

lemma check_command_crawls:
  assumes "db_ok (db c)" "s \<in> set (site_rows (db c))" "accepts T" "num > 1 \<Longrightarrow> 0 \<le> gap"
    and "map_of opts ''name'' = Some (OText (site_name s))" "map_of opts ''num'' = Some (OInt num)"
      "map_of opts ''gap'' = Some (OInt gap)"
    and "check_site env s num (db c) = (rs, e, w')"
  shows "cmd_check env T opts c =
    (ended e, c\<lparr>db := w', trace := trace c @ concat (map (check_events T (is_verbose c) num gap) rs) @
       (if e = None then [Heartbeat] else [])\<rparr>)"
proof -
  have "for_check_site env s num (after_check T num gap) c =
      (ended e, c\<lparr>db := w', trace := trace c @ concat (map (check_events T (is_verbose c) num gap) rs)\<rparr>)"
    using after_check_accepted [OF assms(3,4)] by (intro for_check_site_run [OF _ assms(8)]) simp
  then show ?thesis
    using assms(3) on_world_site [OF assms(1,2)] item_found [OF assms(5), of a_text "site_name s"]
      item_found [OF assms(6), of an_int num] item_found [OF assms(7), of an_int gap]
    by (cases e) (simp_all add: cmd_check_def load_site_def andThen_def heartbeat_accepted)
qed

text \<open>The text of an option on the command line: the last one that is given, or the default.\<close>

definition chosen :: "(string \<times> string) list \<Rightarrow> string \<Rightarrow> string \<Rightarrow> string" where
  "chosen given k dflt = (case map_of (rev given) k of Some t \<Rightarrow> t | None \<Rightarrow> dflt)"

definition check_options :: "bool \<Rightarrow> string \<Rightarrow> int \<Rightarrow> int \<Rightarrow> options" where
  "check_options verb name num gap =
     [(''verbose'', OFlag verb), (''func'', OFunc CmdCheck), (''name'', OText name), (''num'', OInt num), (''gap'', OInt gap)]"

lemma parse_check:
  "parse_command verb (Some (''check'', given, [])) =
     (case int_of_str (chosen given ''num'' ''1'') of
        None \<Rightarrow> Inl (CommandError ''invalid int value'')
      | Some num \<Rightarrow>
          (case int_of_str (chosen given ''gap'' ''2'') of
             None \<Rightarrow> Inl (CommandError ''invalid int value'')
           | Some gap \<Rightarrow> Inr (check_options verb (chosen given ''name'' ''default'') num gap)))"
  by (simp add: parse_command_def subcommands_def add_option_def chosen_def [symmetric] check_options_def split: option.split)

lemma handle_check:
  "handle env T (check_options verb name num gap) c =
     cmd_check env T (check_options verb name num gap) (c\<lparr>is_verbose := verb\<rparr>)"
  by (simp add: handle_def andThen_def item_or_def item_def lift_def writes_def run_action_def check_options_def)

lemma check_line_run:
  assumes "db_ok (db c)" "s \<in> set (site_rows (db c))" "accepts T" "num > 1 \<Longrightarrow> 0 \<le> gap"
    and "check_site env s num (db c) = (rs, e, w')"
  shows "handle env T (check_options verb (site_name s) num gap) c =
    (ended e, c\<lparr>db := w', is_verbose := verb, trace := trace c @ concat (map (check_events T verb num gap) rs) @
       (if e = None then [Heartbeat] else [])\<rparr>)"
  using check_command_crawls [of "c\<lparr>is_verbose := verb\<rparr>" s T num gap "check_options verb (site_name s) num gap" env rs e w'] assms
  unfolding handle_check by (simp add: check_options_def)

section \<open>queue and last: the first pages of a query\<close>

text \<open>The loop stops after the row with index \<open>num\<close>, so it takes one row more than \<open>num\<close>.\<close>

lemma limited_rows_take:
  "limited_rows row num i xs acc =
     for_acc (\<lambda>x acc. andThen (row x) (\<lambda>r. ret (acc @ [r]))) (take (nat (num - i) + 1) xs) acc"
proof (induction xs arbitrary: i acc)
  case (Cons x xs)
  show ?case
  proof (cases "i \<ge> num")
    case True
    then show ?thesis by (intro ext) (simp add: andThen_def ret_def split: prod.split sum.split)
  next
    case False
    then have "nat (num - i) = nat (num - (i + 1)) + 1" by simp
    with False Cons.IH show ?thesis by (simp add: andThen_assoc)
  qed
qed simp

text \<open>
  Rows that are computed without an exception; each takes \<open>k\<close> readings. \<open>stamped t k xs\<close> pairs
  the items with the counter before their turn.
\<close>

fun stamped :: "nat \<Rightarrow> nat \<Rightarrow> 'x list \<Rightarrow> (nat \<times> 'x) list" where
  "stamped t k [] = []"
| "stamped t k (x # xs) = (t, x) # stamped (t + k) k xs"

lemma stamped_enumerate: "stamped t 1 xs = enumerate t xs"
  by (induction xs arbitrary: t) simp_all

lemma stamped_same: "stamped t 0 xs = map (\<lambda>x. (t, x)) xs"
  by (induction xs arbitrary: t) simp_all

lemma rows_computed:
  assumes "\<And>x d. x \<in> set xs \<Longrightarrow> tables (db d) = tables (db c) \<Longrightarrow>
      row x d = (Inr (cells (tick (db d)) x), d\<lparr>db := (db d)\<lparr>tick := tick (db d) + k\<rparr>\<rparr>)"
  shows "for_acc (\<lambda>x acc. andThen (row x) (\<lambda>r. ret (acc @ [r]))) xs acc c =
    (Inr (acc @ map (\<lambda>(t, x). cells t x) (stamped (tick (db c)) k xs)),
     c\<lparr>db := (db c)\<lparr>tick := tick (db c) + length xs * k\<rparr>\<rparr>)"
  using assms
proof (induction xs arbitrary: acc c)
  case (Cons x xs)
  let ?c = "c\<lparr>db := (db c)\<lparr>tick := tick (db c) + k\<rparr>\<rparr>"
  define body where "body = (\<lambda>x acc. andThen (row x) (\<lambda>r. ret (acc @ [r])))"
  have "body x acc c = (Inr (acc @ [cells (tick (db c)) x]), ?c)"
    using Cons.prems by (simp add: body_def andThen_def ret_def)
  moreover have "for_acc body xs (acc @ [cells (tick (db c)) x]) ?c =
    (Inr ((acc @ [cells (tick (db c)) x]) @ map (\<lambda>(t, x). cells t x) (stamped (tick (db ?c)) k xs)),
     ?c\<lparr>db := (db ?c)\<lparr>tick := tick (db ?c) + length xs * k\<rparr>\<rparr>)"
    unfolding body_def using Cons.prems by (intro Cons.IH) (simp add: tables_def)
  ultimately show ?case unfolding body_def [symmetric] by (simp add: andThen_def algebra_simps)
qed (simp add: ret_def)

lemma tables_rows: "tables v = tables w \<Longrightarrow> site_rows v = site_rows w \<and> page_rows v = page_rows w \<and> value_rows v = value_rows w"
  by (cases v; cases w) (simp add: tables_def)

text \<open>The text of the relative URL of a page with a clean address.\<close>

lemma relative_url_read:
  assumes "site_get (page_site p) (db c) = Some s" "clean_site s" "clean_page p" "tables (db d) = tables (db c)"
  shows "on_world (page_relative_url p) d = (Inr (with_query (subpath p) (page_params p)), d)"
  using assms tables_rows [OF assms(4)]
  by (simp add: on_world_def focused_def page_relative_url_def andThen_def site_of_def site_get_def lift_def
      relative_url_clean clean_site_def)

definition queue_cells :: "env \<Rightarrow> nat \<Rightarrow> page \<Rightarrow> cell list" where
  "queue_cells env t p =
     map (\<lambda>u. Some (plain u)) [show_nat (id_page p), with_query (subpath p) (page_params p),
       str_timedelta (e_local env t - checked_at p)]"

definition last_cells :: "terminal \<Rightarrow> world \<Rightarrow> page \<Rightarrow> cell list" where
  "last_cells T w p =
     [Some (plain (show_nat (id_page p))), Some (plain (with_query (subpath p) (page_params p))),
      Some (plain (get_value_of p ''title'' [] w)), Some (plain (str_moment T (checked_at p))), Some (as_bool (is_ok p))]"

lemma queue_row_computed:
  assumes "site_get (page_site p) (db c) = Some s" "clean_site s" "clean_page p" "tables (db d) = tables (db c)"
    and "\<not> e_use_tz env"
  shows "queue_row env p d = (Inr (queue_cells env (tick (db d)) p), d\<lparr>db := (db d)\<lparr>tick := tick (db d) + 1\<rparr>\<rparr>)"
  using relative_url_read [OF assms(1-4)] assms(5)
  by (simp add: queue_row_def andThen_def ret_def queue_cells_def on_world_def focused_def waiting_time_def ask_def)

lemma last_row_computed:
  assumes "site_get (page_site p) (db c) = Some s" "clean_site s" "clean_page p" "tables (db d) = tables (db c)"
  shows "last_row T p d = (Inr (last_cells T (db c) p), d)"
  using relative_url_read [OF assms] tables_rows [OF assms(4)]
  by (simp add: last_row_def andThen_def ret_def last_cells_def on_world_def focused_def reads_def get_value_of_def page_values_def)

lemma site_pages_site:
  assumes "db_ok w" "s \<in> set (site_rows w)" "p \<in> set (site_pages s w)"
  shows "site_get (page_site p) w = Some s"
  using assms site_table.get_iff [OF db_ok_keys(1) [OF assms(1)]] by (simp add: site_pages_def)

lemma queries_of_site: "set (all_queued_pages s w) \<subseteq> set (site_pages s w)" "set (all_checked_pages s w) \<subseteq> set (site_pages s w)"
  by (auto simp: all_queued_pages_def all_checked_pages_def Let_def split: if_splits)

lemma cmd_queue_run:
  assumes ok: "db_ok (db c)" "s \<in> set (site_rows (db c))" "accepts T" "clean_site s" "\<not> e_use_tz env"
    and clean: "\<And>p. p \<in> set (site_pages s (db c)) \<Longrightarrow> clean_page p"
    and opts: "map_of opts ''name'' = Some (OText (site_name s))" "map_of opts ''num'' = Some (OInt num)"
  defines "queue \<equiv> all_queued_pages s (db c)"
  shows "cmd_queue env T opts c =
    (let shown = take (nat num + 1) queue; t = tick (db c)
     in (Inr (), c\<lparr>db := (db c)\<lparr>tick := t + length shown\<rparr>, trace := trace c @ [PrintedTable
          \<lparr>sheet_title = Some (plain (''Queue for '' @ site_name s @ '' ('' @ show_nat (length queue) @ '' pages)'')),
           columns = [(''Id'', False), (''URL'', False), (''Waiting time'', True)],
           sheet_rows = map (\<lambda>(i, p). queue_cells env i p) (enumerate t shown)\<rparr>]\<rparr>))"
proof -
  let ?shown = "take (nat num + 1) queue"
  have "limited_rows (queue_row env) num 0 queue [] c =
    (Inr ([] @ map (\<lambda>(i, p). queue_cells env i p) (stamped (tick (db c)) 1 ?shown)),
     c\<lparr>db := (db c)\<lparr>tick := tick (db c) + length ?shown * 1\<rparr>\<rparr>)"
    unfolding limited_rows_take diff_0_right
  proof (rule rows_computed)
    fix p and d :: shell assume "p \<in> set ?shown" "tables (db d) = tables (db c)"
    moreover from this have "p \<in> set (site_pages s (db c))"
      using queries_of_site(1) [of s "db c"] by (auto simp: queue_def dest: in_set_takeD)
    ultimately show "queue_row env p d = (Inr (queue_cells env (tick (db d)) p), d\<lparr>db := (db d)\<lparr>tick := tick (db d) + 1\<rparr>\<rparr>)"
      using site_pages_site [OF ok(1,2)] clean ok(4,5) by (intro queue_row_computed)
  qed
  then show ?thesis
    using on_world_site [OF ok(1,2)] item_found [OF opts(1), of a_text "site_name s"]
      item_or_found [OF opts(2), of an_int num] on_world_reads [of "all_queued_pages s" c]
    by (simp add: cmd_queue_def andThen_def print_table_accepted [OF ok(3)] Let_def stamped_enumerate [unfolded One_nat_def] queue_def)
qed

lemma cmd_last_run:
  assumes ok: "db_ok (db c)" "s \<in> set (site_rows (db c))" "accepts T" "clean_site s"
    and clean: "\<And>p. p \<in> set (site_pages s (db c)) \<Longrightarrow> clean_page p"
    and opts: "map_of opts ''name'' = Some (OText (site_name s))" "map_of opts ''num'' = Some (OInt num)"
  shows "cmd_last T opts c = (Inr (), c\<lparr>trace := trace c @ [PrintedTable
      \<lparr>sheet_title = Some (plain ''Last links''),
       columns = [(''Id'', False), (''URL'', False), (''Title'', False), (''Checked at'', True), (''Is ok'', True)],
       sheet_rows = map (last_cells T (db c)) (take (nat num + 1) (all_checked_pages s (db c)))\<rparr>]\<rparr>)"
proof -
  let ?shown = "take (nat num + 1) (all_checked_pages s (db c))"
  have "limited_rows (last_row T) num 0 (all_checked_pages s (db c)) [] c =
    (Inr ([] @ map (\<lambda>(t, p). last_cells T (db c) p) (stamped (tick (db c)) 0 ?shown)),
     c\<lparr>db := (db c)\<lparr>tick := tick (db c) + length ?shown * 0\<rparr>\<rparr>)"
    unfolding limited_rows_take diff_0_right
  proof (rule rows_computed)
    fix p and d :: shell assume "p \<in> set ?shown" "tables (db d) = tables (db c)"
    moreover from this have "p \<in> set (site_pages s (db c))"
      using queries_of_site(2) [of s "db c"] by (auto dest: in_set_takeD)
    ultimately show "last_row T p d = (Inr (last_cells T (db c) p), d\<lparr>db := (db d)\<lparr>tick := tick (db d) + 0\<rparr>\<rparr>)"
      using site_pages_site [OF ok(1,2)] clean ok(4) last_row_computed [of p c s d T] by simp
  qed
  then show ?thesis
    using on_world_site [OF ok(1,2)] item_found [OF opts(1), of a_text "site_name s"]
      item_or_found [OF opts(2), of an_int num] on_world_reads [of "all_checked_pages s" c]
    by (simp add: cmd_last_def andThen_def print_table_accepted [OF ok(3)] stamped_same comp_def)
qed

section \<open>delete never deletes\<close>

text \<open>For the first page that exists the call of \<open>success\<close> raises; the tables stay as they are.\<close>

lemma delete_one_found:
  assumes "load_page name k (db c) = (Inr (Some p), db c)" "page_full_url p (db c) = (Inr url, db c)"
  shows "delete_one T name k c = (Inl (TypeError ''Command.success() takes 1 positional argument but 2 were given''), c)"
  using assms by (simp add: delete_one_def andThen_def on_world_def focused_def raise_def)

end
