(* ===== verification/Program.thy ===== *)
theory Program
  imports Dispatch Command_Runs
begin

text \<open>
  The program as a state machine: the steps are the public operations of \<open>core.py\<close> and
  \<open>models.py\<close>, the views, the visits of the site and the commands, in any order and each also
  when it raises; a history is a sequence of such steps of several processes, and the reachable
  states are the databases that histories lead to from an empty one. The locale
  \<open>program_invariant\<close> is what a property must satisfy to be kept by every step. That the database
  is well formed, and that keys are never taken back, is its first instance.
\<close>

section \<open>Steps and reachable states\<close>

text \<open>
  One call of a public operation, a view or a command; its result does not matter here. The
  views that are missing change nothing (\<open>lists_keep\<close>). \<open>H\<close> are the pages that some process of
  the program holds: a row as it is now, or as it was when the process read it.
\<close>

inductive calls :: "env \<Rightarrow> page set \<Rightarrow> world \<Rightarrow> world \<Rightarrow> bool" for env H where
  init: "calls env H w (snd (init_site env url name w))"
| reset: "calls env H w (snd (reset_site env name w))"
| adds: "calls env H w (snd (add_page env s url w))"
| links: "calls env H w (snd (link_get_or_create ft w))"
| stores: "calls env H w (snd (upsert p name v w))"
| chooses: "calls env H w (snd (next_page_to_check env s w))"
| checks: "p \<in> H \<Longrightarrow> calls env H w (snd (check_page env p w))"
| updates: "p \<in> H \<Longrightarrow> calls env H w (snd (update_links env s p body w))"
| plugs: "p \<in> H \<Longrightarrow> calls env H w (snd (run_plugins env p headers body w))"
| crawls: "calls env H w (snd (snd (check_site env s num w)))"
| deletes: "calls env H w (delete_pages P w)"
| commands: "calls env H w (db (snd (handle env T opts
    \<lparr>db = w, plugin_registry = R, trace = evs, is_verbose = verb\<rparr>)))"
| visits: "login_guard S \<Longrightarrow> calls env H w (fst (snd (serve env S r (w, ms))))"
| view_check: "p \<in> H \<Longrightarrow> calls env H w (fst (snd (page_check env show_msg r p (w, ms))))"
| view_toogle: "p \<in> H \<Longrightarrow> calls env H w (fst (snd (toogle_is_linkable r p (w, ms))))"
| view_delete: "calls env H w (fst (snd (page_delete r p (w, ms))))"
| view_expunge: "calls env H w (fst (snd (site_expunge r s (w, ms))))"
| view_expunge_all: "calls env H w (fst (snd (site_expunge_all orphans r s (w, ms))))"

text \<open>
  The runs of the program: several processes take their steps in any order, and each may go on
  with any page that was a row at some time, whatever the others have done to it since.
\<close>

inductive history :: "env \<Rightarrow> page set \<Rightarrow> world \<Rightarrow> bool" for env where
  start: "history env {} empty_world"
| call: "history env H w \<Longrightarrow> calls env (H \<union> set (page_rows w)) w w' \<Longrightarrow> history env (H \<union> set (page_rows w)) w'"

definition reachable :: "env \<Rightarrow> world \<Rightarrow> bool" where
  "reachable env w \<longleftrightarrow> (\<exists>H. history env H w)"

lemma reachable_start: "reachable env empty_world"
  unfolding reachable_def by (rule exI, rule history.start)

lemma reachable_call:
  assumes "reachable env w" "\<And>H. calls env H w w'"
  shows "reachable env w'"
proof -
  from assms(1) obtain H where "history env H w" by (auto simp: reachable_def)
  from history.call [OF this assms(2)] show ?thesis unfolding reachable_def by (rule exI)
qed

section \<open>Invariants across the views and the whole program\<close>

lemma assert_keeps: "keeps I m \<Longrightarrow> keeps I (assert b m)"
  unfolding assert_def by (intro keeps_intros)

lemma logged_view: "login_guard S \<Longrightarrow> logged_in r \<Longrightarrow> login_required S v r = v r"
  by (simp add: login_guard_def)

text \<open>\<open>held p w\<close> is what is known of a page that a process holds, whether it is still a row or not.\<close>

locale program_invariant = world_invariant +
  fixes held :: "page \<Rightarrow> world \<Rightarrow> bool"
  assumes row_held: "I w \<Longrightarrow> p \<in> set (page_rows w) \<Longrightarrow> held p w"
    and delete_kept: "I w \<Longrightarrow> I (delete_pages P w)"
    and add_kept: "keeps I (add_page env s url)"
    and link_kept: "keeps I (link_get_or_create ft)"
    and upsert_kept: "keeps I (upsert p name v)"
    and stale_check_kept: "I w \<Longrightarrow> held p w \<Longrightarrow> I (snd (check_page env p w))"
    and toogle_kept: "I w \<Longrightarrow> held p w \<Longrightarrow> I (fst (snd (toogle_is_linkable r p (w, ms))))"
    and update_kept: "I w \<Longrightarrow> held p w \<Longrightarrow> I (snd (update_links env s p body w))"
    and plugs_kept: "I w \<Longrightarrow> held p w \<Longrightarrow> I (snd (run_plugins env p headers body w))"
begin

lemma delete_view_kept: "keeps (\<lambda>v. I (fst v)) (on_db (writes (delete_pages P)))"
  by (intro on_db_keeps keeps_writes delete_kept)

lemma delete_or_complain_kept: "keeps (\<lambda>v. I (fst v)) (delete_or_complain u p n)"
  unfolding delete_or_complain_def by (intro keeps_intros delete_view_kept)

lemma deleting_views_kept:
  "keeps (\<lambda>v. I (fst v)) (page_delete r p)" "keeps (\<lambda>v. I (fst v)) (site_expunge r s)"
  "keeps (\<lambda>v. I (fst v)) (site_expunge_all orphans r s)"
  unfolding page_delete_def site_expunge_def site_expunge_all_def
  by (intro assert_keeps keeps_intros delete_view_kept delete_or_complain_kept)+

lemma view_kept: "keeps (\<lambda>v. I (fst v)) m \<Longrightarrow> I w \<Longrightarrow> I (fst (snd (m (w, ms))))"
  by (simp add: keeps_def)

lemmas listing_kept = lists_keep [where I = "\<lambda>v. I (fst v)", THEN view_kept]
lemmas deletion_kept = deleting_views_kept [THEN view_kept]

lemma page_check_kept:
  assumes "I w" "held p w"
  shows "I (fst (snd (page_check env show_msg r p (w, ms))))"
  unfolding page_check_def
proof (rule keeps_start)
  show "I (fst (snd (on_db (check_page env p) (w, ms))))"
    using stale_check_kept [OF assms] by (auto simp: on_db_eval split: prod.split)
qed (intro keeps_intros)

lemma site_view_kept:
  assumes "map_of (site_views env S) name = Some v" "I w" "login_guard S" "logged_in r"
  shows "I (fst (snd (v s r (w, ms))))"
  using assms(1) unfolding site_views_def
  by (auto simp: logged_view [OF assms(3,4)] listing_kept [OF assms(2)] deletion_kept [OF assms(2)] split: if_splits)

lemma page_view_kept:
  assumes "map_of (page_views env S) name = Some v" "I w" "login_guard S" "logged_in r" "p \<in> set (page_rows w)"
  shows "I (fst (snd (v p r (w, ms))))"
  using assms(1) unfolding page_views_def
  by (auto simp: logged_view [OF assms(3,4)] listing_kept [OF assms(2)] deletion_kept [OF assms(2)]
      page_check_kept [OF assms(2) row_held [OF assms(2,5)]] toogle_kept [OF assms(2) row_held [OF assms(2,5)]] split: if_splits)

lemma call_view_kept:
  assumes "I w" "login_guard S" "logged_in r"
    and "\<And>k p. (k, PageArg p) \<in> set args \<Longrightarrow> p \<in> set (page_rows w)"
  shows "I (fst (snd (call_view env S name args r (w, ms))))"
proof (cases rule: call_view_cases [of env S name args r])
  case home
  with listing_kept(1) [OF assms(1)] show ?thesis by (simp add: logged_view [OF assms(2,3)])
next
  case (site s v)
  with site_view_kept [OF site(2) assms(1-3)] show ?thesis by simp
next
  case (page p v)
  with page_view_kept [OF page(2) assms(1-3)] assms(4) show ?thesis by simp
next
  case (no e)
  with assms(1) show ?thesis by (simp add: raise_def)
qed

text \<open>A visit, of whoever: only the two views without the decorator run for a stranger.\<close>

lemma serve_kept:
  assumes "I w" "login_guard S"
  shows "I (fst (snd (serve env S r (w, ms))))"
proof (cases "\<exists>name args. fst (resolve S (path_info r) w) = Inr (Some (name, args))")
  case False
  with assms(1) show ?thesis by (auto simp: serve_eval split: sum.split option.split)
next
  case True
  then obtain name args where found: "fst (resolve S (path_info r) w) = Inr (Some (name, args))" by blast
  have "I (fst (snd (call_view env S name args r (w, ms))))"
  proof (cases "logged_in r")
    case True
    then show ?thesis
      using call_view_kept [OF assms True] resolve_rows [OF sound [OF assms(1)] found] by blast
  next
    case False
    from anonymous_call [OF assms(2) False, of env name args w ms] assms(1) deletion_kept(2,3) [OF assms(1)]
    show ?thesis by auto
  qed
  then show ?thesis by (auto simp: serve_eval found split: sum.split prod.split)
qed

lemma calls_kept: "calls env H w w' \<Longrightarrow> I w \<Longrightarrow> (\<And>p. p \<in> H \<Longrightarrow> held p w) \<Longrightarrow> I w'"
proof (induction rule: calls.induct)
  case (crawls w s num)
  with crawled.site_run_sound [of w s "nat num"] show ?case
    unfolding check_site_run [symmetric] by (metis prod.collapse)
qed (auto intro: keepsD [OF init_kept] keepsD [OF reset_kept] keepsD [OF next_kept] keepsD [OF add_kept]
    keepsD [OF link_kept] keepsD [OF upsert_kept] stale_check_kept delete_kept update_kept plugs_kept
    handle_kept deletion_kept page_check_kept toogle_kept serve_kept)

end

section \<open>Every reachable database is well formed\<close>

text \<open>
  The first invariant: the database is well formed and at least \<open>n\<close> keys of pages were given
  out. A page that is held has one of the keys given out.
\<close>

definition given_out :: "nat \<Rightarrow> world \<Rightarrow> bool" where
  "given_out n w \<longleftrightarrow> db_ok w \<and> n \<le> next_page w"

definition has_key :: "page \<Rightarrow> world \<Rightarrow> bool" where
  "has_key p w \<longleftrightarrow> id_page p < next_page w"

lemma given_out_live: "0 < n \<Longrightarrow> given_out n = live (n - 1)"
  by (rule ext) (auto simp: given_out_def live_def)

lemma given_out_keeps: "(\<And>k. keeps (live k) m) \<Longrightarrow> keeps db_ok m \<Longrightarrow> keeps (given_out n) m"
  by (cases "n = 0") (simp_all add: given_out_live, simp add: keeps_def given_out_def)

lemma page_insert_grows: "keeps (\<lambda>w. n \<le> next_page w) (page_insert f)"
  by (rule keepsI) (auto simp: page_insert_def page_save_def page_put_def Let_def)

lemma site_insert_grows: "keeps (\<lambda>w. n \<le> next_page w) (site_insert f)"
  by (rule keepsI) (auto simp: site_insert_def site_save_def site_put_def Let_def)

lemma ask_grows: "keeps (\<lambda>w. n \<le> next_page w) (ask f)"
  by (simp add: keeps_def ask_def)

lemma delete_grows: "keeps (\<lambda>w. n \<le> next_page w) (writes (delete_pages P))"
  by (rule keeps_writes) (simp add: delete_pages_def Let_def)

lemma load_or_create_grows: "keeps (\<lambda>w. n \<le> next_page w) (load_or_create env s k)"
proof (rule keepsI)
  fix w :: world assume w: "n \<le> next_page w"
  have "keeps (\<lambda>w. n \<le> next_page w) (andThen (ask (e_now env)) (\<lambda>now.
     andThen (page_insert (new_page (id_site s) (fst k) (snd k) now)) (\<lambda>p. ret (p, True))))"
    by (intro keeps_intros ask_grows page_insert_grows)
  from keepsD [OF this w] w show "n \<le> next_page (snd (load_or_create env s k w))"
    by (auto simp: load_or_create_def split: option.splits)
qed

lemma init_site_grows: "keeps (\<lambda>w. n \<le> next_page w) (init_site env url name)"
  unfolding init_site_def by (intro keeps_intros ask_grows site_insert_grows page_insert_grows)

lemma reset_site_grows: "keeps (\<lambda>w. n \<le> next_page w) (reset_site env name)"
  unfolding reset_site_def add_page_def
  by (intro keeps_intros delete_grows) (auto intro!: keeps_intros delete_grows load_or_create_grows split: option.split)

lemma page_save_grows: "keeps (\<lambda>w. n \<le> next_page w) (page_save q)"
  by (simp add: keeps_def page_save_frame)

lemma has_key_live: "given_out n w \<Longrightarrow> has_key p w \<Longrightarrow> live (id_page p) w"
  by (simp add: given_out_def has_key_def live_def)

lemma check_given_out:
  assumes "given_out n w" "has_key p w"
  shows "given_out n (snd (check_page env p w))"
proof -
  have "db_ok (snd (check_page env p w))"
    using keepsD [OF live_check_page has_key_live [OF assms]] by (simp add: live_def)
  moreover have "next_page (snd (check_page env p w)) = next_page w"
    by (cases rule: check_page_effect [of env p w]) (simp_all add: page_put_def)
  ultimately show ?thesis using assms(1) by (simp add: given_out_def)
qed

lemma toogle_given_out:
  assumes "given_out n w" "has_key p w"
  shows "given_out n (fst (snd (toogle_is_linkable r p (w, ms))))"
proof -
  have "keeps (\<lambda>v. live (id_page p) (fst v)) (toogle_is_linkable r p)"
    unfolding toogle_is_linkable_def Let_def
    by (intro keeps_intros on_db_keeps live_delete_links live_page_save) simp_all
  from keepsD [OF this, of "(w, ms)"] has_key_live [OF assms]
  have "db_ok (fst (snd (toogle_is_linkable r p (w, ms))))" by (simp add: live_def)
  moreover have "keeps (\<lambda>w. n \<le> next_page w) (writes (delete_links P))" for P
    by (rule keeps_writes) (simp add: delete_links_def)
  then have "keeps (\<lambda>v. n \<le> next_page (fst v)) (toogle_is_linkable r p)"
    unfolding toogle_is_linkable_def Let_def
    by (intro keeps_intros on_db_keeps [where I = "\<lambda>w. n \<le> next_page w"] page_save_grows
        message_keeps [where I = "\<lambda>w. n \<le> next_page w"])
  from keepsD [OF this, of "(w, ms)"] assms(1)
  have "n \<le> next_page (fst (snd (toogle_is_linkable r p (w, ms))))" by (simp add: given_out_def)
  ultimately show ?thesis by (simp add: given_out_def)
qed

lemma given_out_conj: "keeps db_ok m \<Longrightarrow> keeps (\<lambda>w. n \<le> next_page w) m \<Longrightarrow> keeps (given_out n) m"
  unfolding given_out_def by (rule keeps_conj)

interpretation keys: program_invariant env "given_out n" has_key for env n
proof (unfold_locales, goal_cases)
  case (1 w)
  then show ?case by (simp add: given_out_def)
next
  case (2 w m)
  then show ?case by (simp add: given_out_def)
next
  case (3 url name)
  show ?case by (rule given_out_conj [OF init_site_keeps init_site_grows])
next
  case (4 name)
  show ?case by (rule given_out_conj [OF reset_site_keeps reset_site_grows])
next
  case (5 w p)
  then show ?case using row_live [of w p] by (intro check_given_out) (simp_all add: given_out_def live_def has_key_def)
next
  case (6 w p)
  then show ?case using row_live [of w p] by (simp add: given_out_def live_def has_key_def)
next
  case (7 w P)
  then show ?case by (simp add: given_out_def delete_pages_ok) (simp add: delete_pages_def Let_def)
next
  case (8 s url)
  have "keeps db_ok (add_page env s url)" unfolding add_page_def by (intro keeps_intros load_or_create_keeps)
  then show ?case by (intro given_out_keeps live_add_page)
next
  case (9 ft)
  show ?case by (intro given_out_keeps live_link_goc link_store.keeps_inv)
next
  case (10 p name v)
  show ?case by (intro given_out_keeps live_upsert upsert_ok)
next
  case (11 w p)
  then show ?case by (rule check_given_out)
next
  case (12 w p r ms)
  then show ?case by (rule toogle_given_out)
next
  case (13 w p s body)
  have "live k (snd (update_links env s p body w))" if "live k w" for k
    by (rule keepsD [OF live_update_links that])
  with 13 has_key_live [OF 13] show ?case by (cases "n = 0") (simp_all add: given_out_live, auto simp: given_out_def live_def)
next
  case (14 w p headers body)
  have "live k (snd (run_plugins env p headers body w))" if "live k w" for k
    by (rule keepsD [OF live_run_plugins that])
  with 14 has_key_live [OF 14] show ?case by (cases "n = 0") (simp_all add: given_out_live, auto simp: given_out_def live_def)
qed

text \<open>Along a history keys are only given out, so every page that is held keeps having one.\<close>

lemma calls_keys:
  assumes "calls env H w w'" "db_ok w" "\<And>p. p \<in> H \<Longrightarrow> has_key p w"
  shows "db_ok w' \<and> next_page w \<le> next_page w'"
  using keys.calls_kept [OF assms(1), of "next_page w"] assms(2,3) by (simp add: given_out_def)

lemma history_keys: "history env H w \<Longrightarrow> db_ok w \<and> (\<forall>p \<in> H. has_key p w)"
proof (induction rule: history.induct)
  case start
  show ?case by (simp add: db_ok_empty)
next
  case (call H w w')
  have rows: "has_key p w" if "p \<in> H \<union> set (page_rows w)" for p
    using that call.IH row_live [of w p] by (auto simp: live_def has_key_def)
  from calls_keys [OF call.hyps(2) _ rows] call.IH have w': "db_ok w'" "next_page w \<le> next_page w'" by auto
  with rows show ?case by (fastforce simp: has_key_def)
qed

lemma reachable_db_ok: "reachable env w \<Longrightarrow> db_ok w"
  using history_keys by (auto simp: reachable_def)

end
