(* ===== verification/Unfetched.thy ===== *)
theory Unfetched
  imports Program
begin

text \<open>
  A consequence of how checks end: no step of the program ever stores an answer of a server. The
  property is a second instance of \<open>program_invariant\<close>.
\<close>

text \<open>A row that holds nothing a server has answered.\<close>

definition unfetched_row :: "page \<Rightarrow> bool" where
  "unfetched_row p \<longleftrightarrow> (status p = -1 \<or> status p = 0) \<and> size_bytes p = 0 \<and> content_type p = []"

definition unfetched :: "world \<Rightarrow> bool" where
  "unfetched w \<longleftrightarrow> (\<forall>p \<in> set (page_rows w). unfetched_row p)"

definition never_fetched :: "world \<Rightarrow> bool" where
  "never_fetched w \<longleftrightarrow> db_ok w \<and> unfetched w"

lemma unfetched_tick [simp]: "unfetched (w\<lparr>tick := n\<rparr>) = unfetched w"
  by (simp add: unfetched_def)

lemma unfetched_ask: "keeps unfetched (ask f)"
  by (simp add: keeps_def ask_def)

lemma unfetched_put: "unfetched w \<Longrightarrow> unfetched_row p \<Longrightarrow> unfetched (page_put p w)"
  by (auto simp: unfetched_def page_put_def row_put_def)

lemma unfetched_new: "unfetched_row (new_page sid sub par now k)"
  by (simp add: unfetched_row_def new_page_def)

lemma unfetched_page_insert:
  assumes "\<And>k. unfetched_row (f k)"
  shows "keeps unfetched (page_insert f)"
proof (rule keepsI)
  fix w assume "unfetched w"
  with unfetched_put [OF this assms] show "unfetched (snd (page_insert f w))"
    by (auto simp: page_insert_def page_save_def Let_def unfetched_def)
qed

lemma same_pages_unfetched: "unaltered page_rows m \<Longrightarrow> keeps unfetched m"
  by (simp add: keeps_def unaltered_def unfetched_def)

lemma other_tables:
  "unaltered page_rows (site_insert f)" "unaltered page_rows (link_get_or_create ft)"
  "unaltered page_rows (writes (delete_links P))" "unaltered page_rows (load_site_by_name name)"
  "unaltered page_rows (upsert p n v)"
proof -
  show "unaltered page_rows (site_insert f)"
    by (auto simp: unaltered_def site_insert_def site_save_def Let_def site_put_def split: prod.split sum.split)
  show "unaltered page_rows (link_get_or_create ft)"
    by (auto simp: unaltered_def link_get_or_create_def get_or_create_def link_insert_def link_save_def Let_def
        link_put_def andThen_def ret_def split: list.split)
  show "unaltered page_rows (writes (delete_links P))"
    by (simp add: unaltered_def writes_def delete_links_def)
  show "unaltered page_rows (load_site_by_name name)"
    by (auto simp: unaltered_def load_site_by_name_def split: list.split)
  show "unaltered page_rows (upsert p n v)"
    using rest_of_upsert by (simp add: unaltered_def rest_of_def)
qed

lemmas unfetched_intros = same_pages_unfetched [OF other_tables(1)] same_pages_unfetched [OF other_tables(2)]
  same_pages_unfetched [OF other_tables(3)] same_pages_unfetched [OF other_tables(4)]
  same_pages_unfetched [OF other_tables(5)] unfetched_ask

lemma unfetched_deletion: "unfetched w \<Longrightarrow> unfetched (delete_pages P w)"
  by (auto simp: unfetched_def delete_pages_def Let_def row_del_def)

lemma unfetched_load_or_create: "keeps unfetched (load_or_create env s k)"
proof (rule keepsI)
  fix w assume w: "unfetched w"
  have "keeps unfetched (andThen (ask (e_now env)) (\<lambda>now.
     andThen (page_insert (new_page (id_site s) (fst k) (snd k) now)) (\<lambda>p. ret (p, True))))"
    by (intro keeps_intros unfetched_ask unfetched_page_insert unfetched_new)
  from keepsD [OF this w] w show "unfetched (snd (load_or_create env s k w))"
    by (auto simp: load_or_create_def split: option.splits)
qed

lemma unfetched_add_page: "keeps unfetched (add_page env s url)"
  unfolding add_page_def by (intro keeps_intros unfetched_load_or_create)

lemma unfetched_init_site: "keeps unfetched (init_site env url name)"
  unfolding init_site_def
  by (intro keeps_intros unfetched_intros unfetched_page_insert) (simp add: unfetched_row_def new_page_def)

lemma unfetched_reset_site: "keeps unfetched (reset_site env name)"
  unfolding reset_site_def
  by (intro keeps_intros unfetched_intros)
    (auto intro!: keeps_intros keeps_writes unfetched_deletion unfetched_add_page split: option.split)

lemma unfetched_update_links: "keeps unfetched (update_links env s p body)"
proof -
  have "keeps unfetched (follow_link env s p cf l a)" for cf l a
    unfolding follow_link_def
    by (intro keeps_intros) (auto intro!: keeps_intros unfetched_intros unfetched_add_page split: option.split prod.split)
  moreover have "keeps unfetched (get_all_valid_links env s body)"
    unfolding get_all_valid_links_def get_robots_txt_def Let_def by (intro keeps_intros unfetched_intros)
  ultimately show ?thesis
    unfolding update_links_def Let_def
    by (intro keeps_intros) (auto intro!: keeps_intros unfetched_intros split: prod.split)
qed

lemma unfetched_run_plugins: "keeps unfetched (run_plugins env p headers body)"
proof -
  have d: "keeps unfetched (writes (delete_values P))" for P
    by (rule keeps_writes) (simp add: unfetched_def delete_values_def)
  have "keeps unfetched (store_values p vals)" for vals
    unfolding store_values_def by (intro keeps_intros unfetched_intros d)
  moreover have "keeps unfetched (run_plugin p headers body np acc)" for np acc
    by (simp add: keeps_def run_plugin_step)
  ultimately show ?thesis
    unfolding run_plugins_def by (intro keeps_intros) (auto intro!: keeps_intros split: prod.split)
qed

lemma unfetched_check:
  assumes "unfetched w" "unfetched_row p"
  shows "unfetched (snd (check_page env p w))"
proof -
  have "unfetched_row (failed_row env p t err)" for t err
    using assms(2) by (auto simp: unfetched_row_def failed_row_def)
  with unfetched_put [OF assms(1)] assms(1) show ?thesis
    by (cases rule: check_page_effect [of env p w]) auto
qed

lemma unfetched_page_save: "unfetched_row q \<Longrightarrow> keeps unfetched (page_save q)"
  by (rule keepsI) (auto simp: page_save_def unfetched_put)

lemma unfetched_toogle:
  assumes "unfetched w" "unfetched_row p"
  shows "unfetched (fst (snd (toogle_is_linkable r p (w, ms))))"
proof -
  have "unfetched_row (p\<lparr>is_linkable := b\<rparr>)" for b using assms(2) by (simp add: unfetched_row_def)
  then have "keeps (\<lambda>v. unfetched (fst v)) (toogle_is_linkable r p)"
    unfolding toogle_is_linkable_def Let_def
    by (intro keeps_intros unfetched_intros unfetched_page_save)
  from keepsD [OF this, of "(w, ms)"] assms(1) show ?thesis by simp
qed

text \<open>A page that is held was a row once, so it holds nothing that was fetched either.\<close>

definition blank :: "page \<Rightarrow> world \<Rightarrow> bool" where
  "blank p w \<longleftrightarrow> has_key p w \<and> unfetched_row p"

lemma never_fetched_given_out: "never_fetched w \<longleftrightarrow> given_out 0 w \<and> unfetched w"
  by (simp add: never_fetched_def given_out_def)

interpretation fetchless: program_invariant env never_fetched blank for env
proof (unfold_locales, goal_cases)
  case (1 w)
  then show ?case by (simp add: never_fetched_def)
next
  case (2 w n)
  then show ?case by (simp add: never_fetched_def)
next
  case (3 url name)
  show ?case unfolding never_fetched_def by (intro keeps_conj init_site_keeps unfetched_init_site)
next
  case (4 name)
  show ?case unfolding never_fetched_def by (intro keeps_conj reset_site_keeps unfetched_reset_site)
next
  case (5 w p)
  then have "unfetched_row p" by (simp add: never_fetched_def unfetched_def)
  with 5 show ?case by (simp add: never_fetched_def check_page_ok unfetched_check)
next
  case (6 w p)
  then show ?case using keys.row_held [of 0 w p] by (simp add: blank_def never_fetched_given_out unfetched_def)
next
  case (7 w P)
  then show ?case by (simp add: never_fetched_def delete_pages_ok unfetched_deletion)
next
  case (8 s url)
  show ?case unfolding never_fetched_given_out by (intro keeps_conj unfetched_add_page keys.add_kept)
next
  case (9 ft)
  show ?case unfolding never_fetched_given_out by (intro keeps_conj unfetched_intros keys.link_kept)
next
  case (10 p name v)
  show ?case unfolding never_fetched_given_out by (intro keeps_conj unfetched_intros keys.upsert_kept)
next
  case (11 w p)
  then show ?case by (simp add: never_fetched_given_out blank_def keys.stale_check_kept unfetched_check)
next
  case (12 w p r ms)
  then show ?case by (simp add: never_fetched_given_out blank_def keys.toogle_kept unfetched_toogle)
next
  case (13 w p s body)
  then show ?case
    by (simp add: never_fetched_given_out blank_def keys.update_kept keepsD [OF unfetched_update_links])
next
  case (14 w p headers body)
  then show ?case
    by (simp add: never_fetched_given_out blank_def keys.plugs_kept keepsD [OF unfetched_run_plugins])
qed

lemma history_unfetched: "history env H w \<Longrightarrow> never_fetched w \<and> (\<forall>p \<in> H. unfetched_row p)"
proof (induction rule: history.induct)
  case start
  show ?case by (simp add: never_fetched_def db_ok_empty) (simp add: unfetched_def empty_world_def)
next
  case (call H w w')
  have "blank p w" if "p \<in> H \<union> set (page_rows w)" for p
    using that call.IH history_keys [OF call.hyps(1)] fetchless.row_held [of w p]
    by (auto simp: blank_def)
  with fetchless.calls_kept [OF call.hyps(2)] call.IH show ?case
    by (auto simp: blank_def)
qed

lemma reachable_unfetched: "reachable env w \<Longrightarrow> never_fetched w"
  using history_unfetched by (auto simp: reachable_def)

end
