(* ===== verification/Constraints.thy ===== *)
theory Constraints
  imports Program
begin

text \<open>
  What the database never has to refuse. The unique constraints and foreign keys of the tables
  are the last line of defence: this theory shows that the code asks before it writes, so that
  on the rows of a well-formed database no operation runs into one of them, with one exception,
  a new site under the URL of another one.
\<close>

section \<open>Operations that are not refused\<close>

fun integrity :: "pyexn \<Rightarrow> bool" where
  "integrity (IntegrityError _) = True"
| "integrity _ = False"

fun refused :: "pyexn + 'a \<Rightarrow> bool" where
  "refused (Inl e) = integrity e"
| "refused (Inr _) = False"

lemma refused_iff: "refused r \<longleftrightarrow> (\<exists>x. r = Inl (IntegrityError x))"
  by (cases r) (auto elim: integrity.elims)

text \<open>\<open>accepted I m\<close>: from a state with \<open>I\<close> the operation \<open>m\<close> does not end in an \<open>IntegrityError\<close>.\<close>

definition accepted :: "('s \<Rightarrow> bool) \<Rightarrow> ('s, 'a) py \<Rightarrow> bool" where
  "accepted I m \<longleftrightarrow> (\<forall>s. I s \<longrightarrow> \<not> refused (fst (m s)))"

named_theorems accepted_intros "rules that prove accepted of a composed operation"

lemma acceptedI: "(\<And>s. I s \<Longrightarrow> \<not> refused (fst (m s))) \<Longrightarrow> accepted I m"
  by (simp add: accepted_def)

lemma acceptedD: "accepted I m \<Longrightarrow> I s \<Longrightarrow> \<not> refused (fst (m s))"
  by (simp add: accepted_def)

lemma accepted_total [accepted_intros]: "accepted I (ret x)" "accepted I (reads g)" "accepted I (writes h)"
  by (simp_all add: accepted_def ret_def reads_def writes_def)

lemma accepted_lift: "\<not> refused r \<Longrightarrow> accepted I (lift r)"
  by (simp add: accepted_def lift_def)

lemma accepted_bind:
  assumes "accepted I m" "\<And>s x t. I s \<Longrightarrow> m s = (Inr x, t) \<Longrightarrow> \<not> refused (fst (f x t))"
  shows "accepted I (andThen m f)"
proof (rule acceptedI)
  fix s assume s: "I s"
  show "\<not> refused (fst (andThen m f s))"
  proof (rule andThen_cases [of m s f])
    fix e t assume "m s = (Inl e, t)" "andThen m f s = (Inl e, t)"
    with acceptedD [OF assms(1) s] show ?thesis by simp
  next
    fix x t assume "m s = (Inr x, t)" "andThen m f s = f x t"
    with assms(2) [OF s] show ?thesis by simp
  qed
qed

lemma accepted_andThen [accepted_intros]:
  assumes "accepted I m" "keeps I m" "\<And>x. accepted I (f x)"
  shows "accepted I (andThen m f)"
  using assms by (intro accepted_bind) (auto dest: keeps_resultD acceptedD)

lemma accepted_for_acc [accepted_intros]:
  assumes "\<And>x a. accepted I (body x a)" "\<And>x a. keeps I (body x a)"
  shows "accepted I (for_acc body xs a)"
  by (induction xs arbitrary: a) (auto intro!: accepted_intros assms)

lemma accepted_if [accepted_intros]: "accepted I m \<Longrightarrow> accepted I n \<Longrightarrow> accepted I (if b then m else n)"
  by simp

lemma accepted_split [accepted_intros]: "(\<And>x y. accepted I (f x y)) \<Longrightarrow> accepted I (case p of (x, y) \<Rightarrow> f x y)"
  by (cases p) simp

section \<open>Saves that the constraints allow\<close>

lemma no_clash_at_key:
  assumes "unique_by nat_key rows" "r \<in> set rows" "key q = key r" "nat_key q = nat_key r"
  shows "\<not> clashes key nat_key q rows"
  using assms distinct_map_eqD [of nat_key rows _ r] by (auto simp: clashes_def unique_by_def)

lemma no_clash_new: "nat_key q \<notin> nat_key ` set rows \<Longrightarrow> \<not> clashes key nat_key q rows"
  by (auto simp: clashes_def image_iff)

lemma known_page: "k \<in> page_ids w \<Longrightarrow> page_get k w \<noteq> None"
  by (simp only: in_ids_get)

lemma link_goc_accepted:
  assumes "db_ok w" "fst ft \<in> page_ids w" "snd ft \<in> page_ids w"
  shows "\<not> refused (fst (link_get_or_create ft w))"
proof (cases "ft \<in> link_nat_key ` set (link_rows w)")
  case True
  then obtain l where "l \<in> set (link_rows w)" "ft = link_nat_key l" by auto
  with link_store.found [OF assms(1)] show ?thesis by simp
next
  case False
  let ?l = "\<lparr>id_link = next_link w, from_page = fst ft, to_page = snd ft\<rparr>"
  have "\<not> clashes id_link link_nat_key ?l (link_rows w)"
    using False by (intro no_clash_new) (simp add: link_nat_key_def)
  moreover have "page_get (fst ft) w \<noteq> None" "page_get (snd ft) w \<noteq> None"
    using known_page [OF assms(2)] known_page [OF assms(3)] .
  ultimately show ?thesis
    using False by (auto simp: link_get_or_create_def get_or_create_new andThen_def link_insert_def link_save_def Let_def ret_def)
qed

lemma value_goc_accepted:
  assumes "db_ok w" "fst k \<in> page_ids w"
  shows "\<not> refused (fst (value_get_or_create k w))"
proof (cases "k \<in> value_nat_key ` set (value_rows w)")
  case True
  then obtain v where "v \<in> set (value_rows w)" "k = value_nat_key v" by auto
  with value_store.found [OF assms(1)] show ?thesis by simp
next
  case False
  let ?v = "\<lparr>id_value = next_value w, value_page = fst k, value_name = snd k, value_text = []\<rparr>"
  have "\<not> clashes id_value value_nat_key ?v (value_rows w)"
    using False by (intro no_clash_new) (simp add: value_nat_key_def)
  moreover have "page_get (fst k) w \<noteq> None" using assms(2) by (rule known_page)
  ultimately show ?thesis
    using False by (auto simp: value_get_or_create_def get_or_create_new andThen_def value_insert_def value_save_def Let_def ret_def)
qed

lemma upsert_accepted:
  assumes "db_ok w" "id_page p \<in> page_ids w"
  shows "\<not> refused (fst (upsert p n v w))"
proof (cases "value_get_or_create (id_page p, n) w")
  case (Pair out u)
  show ?thesis
  proof (cases out)
    case (Inl e)
    with Pair value_goc_accepted [OF assms(1), of "(id_page p, n)"] assms(2) show ?thesis
      by (simp add: upsert_def andThen_def)
  next
    case (Inr rb)
    obtain r b where rb: "rb = (r, b)" by (cases rb)
    have u: "db_ok u" by (rule value_store.inv_after [OF assms(1) Pair])
    have r: "r \<in> set (value_rows u)" using value_store.returned(2) [OF assms(1)] Pair Inr rb by fastforce
    let ?r = "r\<lparr>value_text := str_scalar v\<rparr>"
    have "\<not> clashes id_value value_nat_key ?r (value_rows u)"
      using db_ok_unique(4) [OF u] r by (intro no_clash_at_key) (simp_all add: value_nat_key_def)
    moreover have "page_get (value_page ?r) u \<noteq> None" using u r by (intro known_page) (simp add: db_ok_defs)
    ultimately show ?thesis
      using Pair Inr rb by (auto simp: upsert_def andThen_def ret_def Let_def value_save_def)
  qed
qed

lemma url_errors: "urlparse u sch = Inl e \<Longrightarrow> \<not> integrity e" "urljoin b u = Inl e \<Longrightarrow> \<not> integrity e"
proof -
  show p: "\<not> integrity e" if "urlparse u sch = Inl e" for u sch e
    using that by (auto simp: urlparse_def urlsplit_def Let_def split: sum.splits prod.splits if_splits)
  show "\<not> integrity e" if "urljoin b u = Inl e"
    using that p by (auto simp: urljoin_def Let_def split: sum.splits if_splits)
qed

lemma address_errors:
  "get_full_url s p = Inl e \<Longrightarrow> \<not> integrity e" "get_relative_url s p = Inl e \<Longrightarrow> \<not> integrity e"
  using url_errors(2) by (auto simp: get_full_url_def get_relative_url_def split: sum.splits)

lemma site_known: "s \<in> set (site_rows w) \<Longrightarrow> site_get (id_site s) w \<noteq> None"
  by (simp only: in_ids_get site_ids_def imageI)

lemma load_or_create_accepted:
  assumes "db_ok w" "s \<in> set (site_rows w)"
  shows "\<not> refused (fst (load_or_create env s k w))"
proof (cases "k \<in> page_addr ` set (site_pages s w)")
  case True
  then obtain p where "p \<in> set (site_pages s w)" "k = page_addr p" by auto
  with page_store.found [OF assms(1)] show ?thesis by simp
next
  case False
  let ?q = "new_page (id_site s) (fst k) (snd k) (e_now env (tick w)) (next_page w)"
  have "page_nat_key ?q \<notin> page_nat_key ` set (page_rows w)"
    using False by (auto simp: page_nat_key_def new_page_def page_addr_def site_pages_def image_iff)
  then have "\<not> clashes id_page page_nat_key ?q (page_rows w)" by (rule no_clash_new)
  moreover have "page_site ?q = id_site s" by (simp add: new_page_def)
  ultimately show ?thesis
    using site_known [OF assms(2)]
    by (auto simp: load_or_create_new [OF False] andThen_def ask_def page_insert_def page_save_def Let_def ret_def site_get_def)
qed

lemma add_page_accepted:
  assumes "db_ok w" "s \<in> set (site_rows w)"
  shows "\<not> refused (fst (add_page env s url w))"
  using load_or_create_accepted [OF assms] url_errors(1) [of url "[]"]
  by (cases "urlparse url []") (simp_all add: add_page_def andThen_def lift_def)

section \<open>Checks and views of a row\<close>

lemma check_page_accepted:
  assumes "db_ok w" "p \<in> set (page_rows w)"
  shows "\<not> refused (fst (check_page env p w))"
proof -
  obtain s where s: "site_get (page_site p) w = Some s" using row_site [OF assms] by blast
  have url: "get_full_url s (p\<lparr>checked_at := x, is_checked := b\<rparr>) = get_full_url s p" for x b
    by (simp add: get_full_url_def split: sum.split)
  show ?thesis
  proof (cases "get_full_url s p")
    case (Inl e)
    with address_errors(1) [OF Inl] s show ?thesis
      by (simp add: check_page_def andThen_def ask_def site_of_def site_get_def lift_def url Let_def)
  next
    case (Inr u)
    show ?thesis
    proof (cases "has_url_type u")
      case False
      with Inr s show ?thesis
        by (simp add: check_page_def andThen_def ask_def site_of_def site_get_def lift_def url is_valid_def raise_def Let_def)
    next
      case True
      show ?thesis
        by (simp add: check_page_outcome [OF assms s Inr True] Let_def split: head_outcome.split)
    qed
  qed
qed

lemma toogle_accepted:
  assumes "db_ok w" "p \<in> set (page_rows w)"
  shows "\<not> refused (fst (toogle_is_linkable r p (w, ms)))"
  by (simp add: toogle_outcome [OF assms] Let_def)

section \<open>Links and values of a row\<close>

text \<open>A page and its site that are rows while others come and go.\<close>

definition standing :: "page \<Rightarrow> site \<Rightarrow> world \<Rightarrow> bool" where
  "standing p s w \<longleftrightarrow> db_ok w \<and> id_page p \<in> page_ids w \<and> s \<in> set (site_rows w)"

lemma standing_row: "db_ok w \<Longrightarrow> p \<in> set (page_rows w) \<Longrightarrow> s \<in> set (site_rows w) \<Longrightarrow> standing p s w"
  by (simp add: standing_def page_ids_def)

lemma standing_tick [simp]: "standing p s (w\<lparr>tick := n\<rparr>) = standing p s w"
  by (simp add: standing_def page_ids_def)

lemma standing_ask: "keeps (standing p s) (ask f)" "accepted I (ask f)"
  by (simp_all add: keeps_def accepted_def ask_def)

lemma standing_upsert: "keeps (standing p s) (upsert q n v)"
proof (rule keepsI)
  fix w assume w: "standing p s w"
  have "rest_of (snd (upsert q n v w)) = rest_of w" by (rule rest_of_upsert)
  with w keepsD [OF upsert_ok, of w q n v] show "standing p s (snd (upsert q n v w))"
    by (simp add: standing_def page_ids_def rest_of_def)
qed

lemma standing_writes:
  "keeps (standing p s) (writes (delete_values P))" "keeps (standing p s) (writes (delete_links Q))"
  by (rule keeps_writes, auto simp: standing_def delete_values_ok delete_links_ok, simp_all add: page_ids_def delete_values_def delete_links_def)+

lemma run_plugins_accepted: "accepted (standing p s) (run_plugins env p headers body)"
proof -
  have one: "accepted (standing p s) (run_plugin p headers body np acc)" "keeps (standing p s) (run_plugin p headers body np acc)" for np acc
    by (simp_all add: accepted_def keeps_def run_plugin_step)
  have up: "accepted (standing p s) (upsert p n v)" for n v
    by (rule acceptedI) (simp add: upsert_accepted standing_def)
  have "accepted (standing p s) (store_values p vals)" "keeps (standing p s) (store_values p vals)" for vals
    unfolding store_values_def by (intro accepted_intros keeps_intros up standing_upsert standing_writes)+
  with one show ?thesis
    unfolding run_plugins_def by (intro accepted_intros keeps_intros)
qed

lemma standing_add_page:
  "accepted (standing p s) (add_page env s url)" "keeps (standing p s) (add_page env s url)"
proof -
  show "accepted (standing p s) (add_page env s url)"
    by (rule acceptedI) (simp add: add_page_accepted standing_def)
  have "keeps (standing p s) (load_or_create env s k)" for k
  proof (rule keepsI)
    fix w assume w: "standing p s w"
    then have ok: "db_ok w" by (simp add: standing_def)
    obtain out u where u: "load_or_create env s k w = (out, u)" by (cases "load_or_create env s k w")
    note f = load_or_create_frame(1,2) [OF ok u]
    from keeps_resultD [OF load_or_create_keeps ok u] f w show "standing p s (snd (load_or_create env s k w))"
      by (auto simp: u standing_def page_ids_def)
  qed
  then show "keeps (standing p s) (add_page env s url)"
    unfolding add_page_def by (intro keeps_intros)
qed

lemma standing_link_goc: "keeps (standing p s) (link_get_or_create ft)"
  using keepsD [OF link_store.keeps_inv]
  by (intro keepsI) (simp add: standing_def page_ids_def link_goc_frame)

lemma valid_link_errors: "valid_link s p cf l = Inl e \<Longrightarrow> \<not> integrity e"
  using url_errors address_errors
  by (auto simp: valid_link_def is_local_def split: sum.splits if_splits)

lemma follow_link_standing:
  "accepted (standing p s) (follow_link env s p cf l acc)" "keeps (standing p s) (follow_link env s p cf l acc)"
proof -
  show "keeps (standing p s) (follow_link env s p cf l acc)"
    unfolding follow_link_def
    by (intro keeps_intros) (auto intro!: keeps_intros standing_add_page standing_link_goc split: option.split prod.split)
  show "accepted (standing p s) (follow_link env s p cf l acc)"
  proof (rule acceptedI)
    fix w assume w: "standing p s w"
    then have ok: "db_ok w" by (simp add: standing_def)
    show "\<not> refused (fst (follow_link env s p cf l acc w))"
    proof (cases "valid_link s p cf l")
      case (Inl e)
      with valid_link_errors show ?thesis by (simp add: follow_link_def andThen_def lift_def)
    next
      case (Inr new)
      show ?thesis
      proof (cases new)
        case None
        with Inr show ?thesis by (simp add: follow_link_def andThen_def lift_def ret_def)
      next
        case (Some url)
        obtain out u where u: "add_page env s url w = (out, u)" by (cases "add_page env s url w")
        have v: "standing p s u" using keeps_resultD [OF standing_add_page(2) w u] .
        show ?thesis
        proof (cases out)
          case (Inl e)
          with Inr Some u acceptedD [OF standing_add_page(1) w, of env url] show ?thesis
            by (simp add: follow_link_def andThen_def lift_def)
        next
          case (Inr qb)
          obtain q b where qb: "qb = (q, b)" by (cases qb)
          from u Inr qb obtain info :: url_parts where "load_or_create env s (path info, query info) w = (Inr (q, b), u)"
            by (auto simp: add_page_def andThen_def lift_def split: sum.splits)
          from page_store.returned(2) [OF ok this] have "id_page q \<in> page_ids u"
            by (auto simp: page_ids_def site_pages_def)
          with v have "\<not> refused (fst (link_get_or_create (id_page p, id_page q) u))"
            by (intro link_goc_accepted) (simp_all add: standing_def)
          with \<open>valid_link s p cf l = Inr new\<close> Some u Inr qb show ?thesis
            by (auto simp: follow_link_def andThen_def lift_def ret_def split: prod.split sum.split)
        qed
      qed
    qed
  qed
qed

lemma update_links_accepted:
  assumes "\<And>t url e. e_robots env t url = Inl e \<Longrightarrow> \<not> integrity e"
  shows "accepted (standing p s) (update_links env s p body)"
proof -
  have "accepted (standing p s) (get_all_valid_links env s body)"
    using assms
    by (auto simp: accepted_def get_all_valid_links_def get_robots_txt_def Let_def andThen_def ask_def lift_def ret_def
        split: prod.split sum.split)
  moreover have "keeps (standing p s) (get_all_valid_links env s body)"
    unfolding get_all_valid_links_def get_robots_txt_def Let_def by (intro keeps_intros standing_ask)
  ultimately show ?thesis
    unfolding update_links_def Let_def
    by (intro accepted_intros keeps_intros follow_link_standing standing_writes)
qed

section \<open>The life of a site\<close>

lemma reset_site_accepted:
  assumes "db_ok w"
  shows "\<not> refused (fst (reset_site env name w))"
proof (cases "name \<in> site_name ` set (site_rows w)")
  case False
  then show ?thesis by (simp add: reset_site_missing)
next
  case True
  then obtain s where s: "s \<in> set (site_rows w)" "name = site_name s" by auto
  let ?u = "delete_pages (\<lambda>p. page_site p = id_site s) w"
  have "db_ok ?u" by (rule delete_pages_ok [OF assms])
  moreover have "s \<in> set (site_rows ?u)" using s(1) by (simp add: delete_pages_def Let_def)
  ultimately have "\<not> refused (fst (add_page env s (site_path s) ?u))" by (rule add_page_accepted)
  then show ?thesis
    using load_site_found [OF assms s(1)] s(2)
    by (auto simp: reset_site_def andThen_def writes_def ret_def split: prod.split sum.split)
qed

text \<open>
  The exception: nothing asks whether the URL of a new site is that of another one, and the
  unique constraint has to refuse it.
\<close>

definition url_taken :: "env \<Rightarrow> string \<Rightarrow> string \<Rightarrow> world \<Rightarrow> bool" where
  "url_taken env url name w \<longleftrightarrow> name \<notin> site_name ` set (site_rows w) \<and>
     (\<exists>info. urlparse url [] = Inr info \<and> site_fits (seeded_site env info name w) \<and>
        (\<exists>s \<in> set (site_rows w). site_url_key s = (scheme info, netloc info, path info)))"

lemma init_site_refused:
  assumes "db_ok w"
  shows "refused (fst (init_site env url name w)) \<longleftrightarrow> url_taken env url name w"
proof (cases "name \<in> site_name ` set (site_rows w)")
  case True
  with init_site_exists [OF assms True, of env url] show ?thesis by (simp add: url_taken_def)
next
  case free: False
  show ?thesis
  proof (cases "urlparse url []")
    case (Inl e)
    with load_site_missing [OF free] url_errors(1) [OF Inl] show ?thesis
      by (simp add: url_taken_def init_site_def andThen_def lift_def)
  next
    case (Inr info)
    let ?s = "seeded_site env info name w"
    have key: "site_url_key ?s = (scheme info, netloc info, path info)" by (simp add: seeded_site_def site_url_key_def)
    define f where "f = (\<lambda>k. \<lparr>id_site = k, site_name = name, site_scheme = scheme info,
      site_netloc = netloc info, site_path = path info, site_created_at = e_now env (tick w)\<rparr>)"
    have f: "f (next_site w) = ?s" by (simp add: f_def seeded_site_def)
    let ?w = "w\<lparr>tick := Suc (tick w)\<rparr>"
    have fails: "fst (init_site env url name w) = Inl e" if "fst (site_insert f ?w) = Inl e" for e
      using that load_site_missing [OF free] Inr
      by (cases "site_insert f ?w") (simp add: init_site_def andThen_def lift_def ask_def f_def)
    have name: "\<not> clashes id_site site_name ?s (site_rows w)"
      using free by (intro no_clash_new) (simp add: seeded_site_def)
    show ?thesis
    proof (cases "site_fits ?s")
      case False
      then have "fst (site_insert f ?w) = Inl (DataError ''site'')"
        by (simp add: site_insert_def site_save_def Let_def f)
      with fails False Inr show ?thesis by (simp add: url_taken_def)
    next
      case fits: True
      show ?thesis
      proof (cases "\<exists>s \<in> set (site_rows w). site_url_key s = site_url_key ?s")
        case True
        then obtain s where s: "s \<in> set (site_rows w)" "site_url_key s = site_url_key ?s" by blast
        moreover have "id_site s \<noteq> id_site ?s"
          using db_ok_keys_ok(1) [OF assms] s(1) by (auto simp: keys_ok_def seeded_site_def)
        ultimately have "clashes id_site site_url_key ?s (site_rows w)" by (auto simp: clashes_def)
        with name fits have "fst (site_insert f ?w) = Inl (IntegrityError ''unique_url'')"
          by (simp add: site_insert_def site_save_def Let_def f)
        with fails True free fits Inr key show ?thesis by (auto simp: url_taken_def)
      next
        case False
        then have "site_url_key ?s \<notin> site_url_key ` set (site_rows w)" by force
        with init_site_new [OF assms free Inr fits] False key Inr show ?thesis by (simp add: url_taken_def)
      qed
    qed
  qed
qed

section \<open>The crawl\<close>

text \<open>A crawler none of whose services raises a bad exception does not end in one.\<close>

locale clean_crawler = crawler +
  fixes bad :: "pyexn \<Rightarrow> bool"
  assumes select_clean: "inv w \<Longrightarrow> select w = (Inl e, w') \<Longrightarrow> \<not> bad e"
    and check_clean: "inv w \<Longrightarrow> ready p w \<Longrightarrow> check p w = (Inl e, w') \<Longrightarrow> \<not> bad e"
begin

lemma crawl_clean:
  assumes "inv w" "\<And>p. pg = Some p \<Longrightarrow> ready p w" "crawl select check n pg w = (rs, Some e, w')"
  shows "\<not> bad e"
  using assms
proof (induction n arbitrary: pg w rs)
  case (Suc n)
  from Suc.prems(3) obtain p where p: "pg = Some p" by (cases pg) auto
  note ready = Suc.prems(2) [OF p]
  obtain out w1 where c: "check p w = (out, w1)" by (cases "check p w")
  note i1 = check_inv [OF Suc.prems(1) ready c]
  obtain nx w2 where n: "select w1 = (nx, w2)" by (cases "select w1")
  show ?case
  proof (cases "\<exists>x. out = Inl x \<or> nx = Inl x")
    case True
    with Suc.prems(3) p c n check_clean [OF Suc.prems(1) ready] select_clean [OF i1] show ?thesis
      by (cases out) (auto simp: yielded_def)
  next
    case False
    then obtain r q where rq: "out = Inr r" "nx = Inr q" by (metis sum.exhaust)
    then obtain rs' where "crawl select check n q w2 = (rs', Some e, w')"
      using Suc.prems(3) p c n by (auto simp: yielded_def split: prod.splits)
    moreover have "ready x w2" if "q = Some x" for x using select_ready [OF i1] n rq that by simp
    ultimately show ?thesis using Suc.IH [OF select_inv [OF i1 n]] by blast
  qed
qed simp

lemma site_run_clean: "inv w \<Longrightarrow> site_run select check n w = (rs, Some e, w') \<Longrightarrow> \<not> bad e"
  using select_inv [of w] select_ready [of w] select_clean [of w] crawl_clean [of _ _ n rs e w']
  by (auto simp: site_run_def split: prod.splits sum.splits)

end

interpretation clean_site_crawl: clean_crawler "next_page_to_check env s" "check_page env" db_ok
    "\<lambda>p w. p \<in> set (page_rows w)" is_failure integrity for env s
proof (unfold_locales, goal_cases)
  case (1 w e w')
  then show ?case using next_page_returns [of env s w] by auto
next
  case (2 w p e w')
  then show ?case using check_page_accepted [of w p env] by simp
qed

lemma check_site_accepted:
  assumes "db_ok w" "check_site env s num w = (rs, Some e, w')"
  shows "\<not> integrity e"
  using clean_site_crawl.site_run_clean [OF assms(1)] assms(2) unfolding check_site_run by blast

end
