(* ===== verification/Spec2Isabelle.thy ===== *)
theory Spec2Isabelle
  imports Focus Py_Regex Py_Url Results Seqtools Webparser Core Natural_Keys Frontier Addresses Links Values
    Check Crawl Coverage Sites Fechas Plugins Routes Views Races Listings Dispatch Command_Runs Program Unfetched Constraints
begin

text \<open>
  Spidercheck: a crawler that keeps the pages of a web site in a database, checks them one
  after the other, follows their links and lets plug-ins store values of them. This
  development models the package \<open>src/src/spidercheck\<close> and the link extractor \<open>src/parser.py\<close>.

  \<^bold>\<open>The program.\<close> \<open>models.py\<close> holds five tables (sites, pages, links between pages, values of
  pages, schedules) and the queries on them; \<open>core.py\<close> creates and resets sites, chooses the
  next page (\<open>Site.next_page_to_check\<close>), checks it (\<open>check_page\<close>: a \<open>HEAD\<close> request, then the
  download, the update of the links and the plug-ins) and loops (\<open>check_site\<close>). \<open>parser.py\<close>
  collects the links of a page, \<open>webparser.py\<close> tests for HTML, \<open>plugins/\<close> and \<open>search.py\<close> compute
  values and index documents, \<open>results.py\<close>, \<open>seqtools.py\<close> and \<open>fechas.py\<close> are tools. Two front ends
  use all this: the views (\<open>views.py\<close> with \<open>urls.py\<close>, \<open>links.py\<close>, \<open>converters.py\<close>) and the command
  \<open>management/commands/spidercheck.py\<close>.

  \<^bold>\<open>Style of the model.\<close> An operation is a function from a state to a result and a new state,
  \<open>('s, 'a) py\<close> of \<open>Prelude\<close>: the result is \<open>Inl\<close> an exception or \<open>Inr\<close> a value, and what was
  written before an exception stays written (Django's autocommit). The state is the record
  \<open>world\<close> of \<open>Store\<close>: the rows of the tables in the order of a scan, the sequences of the keys, and
  a counter \<open>tick\<close>. Everything outside the program (clocks, chance, web server, \<open>robots.txt\<close>,
  HTML tokenizer, iteration order of sets, plug-ins, a setting) is a record \<open>env\<close> of functions whose answers
  may depend on the counter, which grows with each question: two readings of a clock or two
  requests may differ. An object of the code is the record that is passed on.

  \<^bold>\<open>Theories.\<close>
  \<^item> \<open>Prelude\<close>: exceptions, the monad, \<open>keeps I m\<close> (every outcome of \<open>m\<close> keeps \<open>I\<close>) with its rules.
    \<open>Focus\<close>: an operation on a part of a larger state, as a locale.
  \<^item> \<open>Py_Str\<close>, \<open>Py_Regex\<close>, \<open>Py_Url\<close>, \<open>Py_Float\<close>: what is used of Python's \<open>str\<close>, \<open>int\<close>, \<open>re\<close>,
    \<open>urllib.parse\<close> and \<open>float\<close>.
  \<^item> \<open>Results\<close>, \<open>Seqtools\<close>, \<open>Fechas\<close>, \<open>Webparser\<close>, \<open>Link_Parser\<close>: the modules of these names.
  \<^item> \<open>Table\<close>, \<open>Store\<close>, \<open>Store_Inv\<close>: rows with keys (locale \<open>keyed_table\<close>, interpreted for four
    tables), saves, inserts, cascading deletions, and the invariant \<open>db_ok\<close>.
  \<^item> \<open>Models\<close>: the methods of \<open>models.py\<close>. \<open>Natural_Keys\<close>: find-or-create as a locale with three
    interpretations. \<open>Frontier\<close>: the choice of the next page. \<open>Addresses\<close>: URLs of pages.
  \<^item> \<open>Core\<close>: the functions of \<open>core.py\<close>. \<open>Links\<close>, \<open>Values\<close>, \<open>Check\<close>: outcomes of the update of links,
    of the plug-ins and of a check. \<open>Crawl\<close>: the loop over the locale \<open>crawler\<close> of the two services
    it needs. \<open>Coverage\<close>: which pages a crawl takes, over the locale \<open>draining_crawler\<close> that adds
    a queue. \<open>Sites\<close>: creation and reset. \<open>World_Laws\<close>: the locale \<open>world_invariant\<close> of the
    properties that \<open>core.py\<close> keeps.
  \<^item> \<open>Plugins\<close>: registry, the three plug-ins, the index. \<open>Routes\<close>: converters, routes, links.
  \<^item> \<open>Views\<close>: the views, on the database and the messages left for the user; a page to render is
    the name of its template with its context. \<open>Races\<close>: a view and a check on one page.
    \<open>Listings\<close>: what the queries of a site give and what its page shows of them. \<open>Dispatch\<close>: from
    the path of a request over routes and converters to the view, decorated or not.
  \<^item> \<open>Console\<close>, \<open>Commands\<close>: output and subcommands of the management command, on a \<open>shell\<close> (the
    database, the registry, the trace of prints, sleeps and heartbeats). \<open>Command_Runs\<close>: what the
    commands do. \<open>Program\<close>: the histories of the program, in which the steps of several processes
    come in any order and each may hold pages as they were when it read them, the reachable
    databases, and the locale \<open>program_invariant\<close> of what every step keeps. \<open>Unfetched\<close>: its second
    instance. \<open>Constraints\<close>: which operations the constraints of the tables never refuse.

  \<^bold>\<open>What is shown.\<close> C1 is about the whole program: views, visits, commands and operations in any
  order, with pages that may be out of date, keep the database well formed, and its constraints
  then never have to stop an operation on its rows, but for the one guard that \<open>init_site\<close> lacks. C2 to C9
  describe checking: the outcome of a check for every answer (C2, C3), the choice of the page
  against its documented priorities (C4), the two refinements of links (C5) and values (C6) to an
  abstract update, the phase after the request (C7), the bounds and progress of the crawl (C8) and
  the order in which it takes the pages (C9). C10 and C12 to C14 are the life of sites and pages
  with the round trip of addresses, C11 what a site lists, C15 and C16 which links are followed,
  C17 a check and a view on the same page, C18 the values as a map, C19 to C22 the small modules.
  C23 to C28 are the web: what a stranger can change, what the page of a site shows, the views
  that delete, and that links lead to the views they name. C29 is another invariant of the whole
  program. C30 to C32 are registry, plug-ins and index, C33 to C37 dates, C38 to C40 the command
  line. Several properties state a behaviour that is not what the code means to do, in particular
  C3 and C29: \<open>is_valid\<close> returns \<open>Success()\<close> without the response, so no check ever succeeds, no page
  ever holds what a server answered, and the phase of C7, modelled for any response, is not
  reached.

  \<^bold>\<open>Loops.\<close> Loops over lists are structural (\<open>for_acc\<close>). \<open>batch\<close> and \<open>text_as_fragments\<close> are
  \<open>partial_function (option)\<close>, where \<open>None\<close> is a run that never finishes; C21 and C22 say when they
  finish. The crawl recurses over \<open>nat num\<close>, the number of rounds left, which the code counts
  down too, so there is no fuel. Generators are the list of what they yield with the exception
  that ended them, except in the command \<open>check\<close>, whose loop body acts between the yields.

  \<^bold>\<open>Bounds and conventions.\<close> Text is Latin-1 (\<open>char list\<close>); the signs beyond it that the program
  prints are constructors (\<open>glyph\<close>), and the message of a successful check is kept as its parts
  (\<open>check_msg\<close>). Integers are unbounded as in Python; columns check their ranges and lengths when a
  row is saved. Points in time are microseconds since the epoch; \<open>check_time\<close> is an exact rational,
  and the percentage of \<open>progress\<close> is rounded as the processor and \<open>round\<close> do (\<open>Py_Float\<close>). Ties in
  the order of a query come in the order of the scan, and texts are compared by their code points.
  \<open>subpath\<close> and \<open>params\<close> may be NULL in the table, but the program never stores NULL, and the model
  has none. The limit of Python on the digits of \<open>int()\<close> is not modelled.

  \<^bold>\<open>Not modelled.\<close> Templates, \<open>setup.py\<close>, \<open>docs/conf.py\<close> and the test: no behaviour of the program.
  Logging. \<open>dbraw\<close>, which the views import and the repository lacks, \<open>heartbeat\<close>, \<open>login_required\<close>,
  the matching of a path with a route, the paginator, \<open>rich\<close>, \<open>pytz\<close>, BeautifulSoup and the search
  service are arguments; what is relied on of the login check and of the matching is stated as
  \<open>login_guard\<close> and \<open>honours_paths\<close>. Other middleware of the surrounding project (sessions, CSRF) is
  left out. Of argparse, the splitting of the command line is left out; its defaults, conversions
  and errors are in. Processes interleave at the granularity of the public operations; what
  happens between two statements of one operation is only modelled through pages that are out of
  date.
\<close>

section \<open>A small world\<close>

text \<open>A site with two pages, one linking to the other, and an outside world that answers.\<close>

definition omega :: site where
  "omega = \<lparr>id_site = 1, site_name = ''omega'', site_scheme = ''http'', site_netloc = ''localhost'',
     site_path = ''/alpha/'', site_created_at = 5\<rparr>"

definition home :: page where
  "home = \<lparr>id_page = 1, page_site = 1, subpath = ''/alpha/'', page_params = [], is_checked = False,
     checked_at = 0, check_time = 0, status = -1, page_created_at = 5, size_bytes = 0, content_type = [],
     error_message = [], is_linkable = True\<rparr>"

definition broken :: page where
  "broken = \<lparr>id_page = 2, page_site = 1, subpath = ''/alpha/b'', page_params = ''x=1'', is_checked = True,
     checked_at = 20, check_time = 1, status = 404, page_created_at = 6, size_bytes = 0, content_type = [],
     error_message = ''Not Found'', is_linkable = True\<rparr>"

definition small :: world where
  "small = \<lparr>site_rows = [omega], page_rows = [home, broken], link_rows = [\<lparr>id_link = 1, from_page = 1, to_page = 2\<rparr>],
     value_rows = [\<lparr>id_value = 1, value_page = 1, value_name = ''title'', value_text = ''Alpha''\<rparr>],
     sched_rows = [], next_site = 2, next_page = 3, next_link = 2, next_value = 2, tick = 0\<rparr>"

definition markup :: string where
  "markup = ''<html><body></body></html>''"

definition outside :: env where
  "outside = \<lparr>e_now = (\<lambda>t. 100 + int t), e_local = (\<lambda>t. 100 + int t), e_time = of_nat, e_random = (\<lambda>_. 0),
     e_head = (\<lambda>_ _. HeadRaises ''timed out''),
     e_get = (\<lambda>_ _. GetOk [(''content-type'', HText ''text/html'')] markup),
     e_robots = (\<lambda>_ _. Inr (\<lambda>_. True)),
     e_tags = (\<lambda>_. [(''a'', [(''href'', Some ''/gamma'')])]), e_iter = (\<lambda>xs. xs),
     e_plugins = [(''get_title'', \<lambda>_ _ _ _. Inr (Some [(''version'', PText ''7'')]))],
     e_use_tz = False\<rparr>"

lemma small_rows: "home \<in> set (page_rows small)" "broken \<in> set (page_rows small)" "omega \<in> set (site_rows small)"
  "home \<in> set (site_pages omega small)" "broken \<in> set (site_pages omega small)"
  by (simp_all add: small_def site_pages_def home_def broken_def omega_def)

lemma small_ok: "db_ok small"
  by (simp add: db_ok_defs small_def omega_def home_def broken_def keys_ok_def unique_by_def site_url_key_def
      page_nat_key_def link_nat_key_def value_nat_key_def site_ids_def page_ids_def site_fits_def page_fits_def
      value_fits_def int_fits_def)

lemma small_site: "site_get (page_site home) small = Some omega"
  by (simp add: site_get_def row_get_def small_def home_def omega_def)

lemma clean_home: "clean_site omega" "clean_page home" "clean_page broken"
  by code_simp+

section \<open>Checking and crawling\<close>

text \<open>
  C1. The code asks before it writes. In every database that the program reaches, whatever
  operations, views and commands of its processes ran before, in whatever order, also when they
  raised and when they went on with pages that were out of date, the tables are well formed; and
  no operation on their rows then ends in an \<open>IntegrityError\<close>: finding or creating a page, a link
  or a value never creates it twice or for a row that is gone, and checks, crawls, resets, updates
  of links and values and the toggle of a flag never violate a constraint. The one exception is
  \<open>init_site\<close>, exactly when the name is free but the URL is that of another site, which the code
  does not test. (For a page that is out of date this does not hold: C17.)
\<close>

theorem no_constraint_refuses:
  assumes "reachable env w" and "\<And>t url e. e_robots env t url = Inl e \<Longrightarrow> \<not> integrity e"
  shows "db_ok w \<and>
    (\<forall>url name. refused (fst (init_site env url name w)) = url_taken env url name w) \<and>
    (\<forall>name. \<not> refused (fst (reset_site env name w))) \<and>
    (\<forall>s \<in> set (site_rows w). \<forall>url. \<not> refused (fst (add_page env s url w))) \<and>
    (\<forall>s num rs e w'. check_site env s num w = (rs, Some e, w') \<longrightarrow> \<not> integrity e) \<and>
    (\<forall>p \<in> set (page_rows w).
       \<not> refused (fst (check_page env p w)) \<and>
       (\<forall>s \<in> set (site_rows w). \<forall>body. \<not> refused (fst (update_links env s p body w))) \<and>
       (\<forall>headers body. \<not> refused (fst (run_plugins env p headers body w))) \<and>
       (\<forall>n v. \<not> refused (fst (upsert p n v w))) \<and>
       (\<forall>q \<in> set (page_rows w). \<not> refused (fst (link_get_or_create (id_page p, id_page q) w))) \<and>
       (\<forall>r ms. \<not> refused (fst (toogle_is_linkable r p (w, ms)))))"
proof -
  have ok: "db_ok w" by (rule reachable_db_ok [OF assms(1)])
  have row: "\<not> refused (fst (check_page env p w)) \<and>
      (\<forall>s \<in> set (site_rows w). \<forall>body. \<not> refused (fst (update_links env s p body w))) \<and>
      (\<forall>headers body. \<not> refused (fst (run_plugins env p headers body w))) \<and>
      (\<forall>n v. \<not> refused (fst (upsert p n v w))) \<and>
      (\<forall>q \<in> set (page_rows w). \<not> refused (fst (link_get_or_create (id_page p, id_page q) w))) \<and>
      (\<forall>r ms. \<not> refused (fst (toogle_is_linkable r p (w, ms))))"
    if p: "p \<in> set (page_rows w)" for p
  proof (intro conjI ballI allI)
    have ids: "id_page q \<in> page_ids w" if "q \<in> set (page_rows w)" for q using that by (simp add: page_ids_def)
    obtain s0 where s0: "s0 \<in> set (site_rows w)" using row_site [OF ok p] by blast
    show "\<not> refused (fst (check_page env p w))" by (rule check_page_accepted [OF ok p])
    show "\<not> refused (fst (update_links env s p body w))" if "s \<in> set (site_rows w)" for s body
      by (rule acceptedD [OF update_links_accepted [OF assms(2)] standing_row [OF ok p that]])
    show "\<not> refused (fst (run_plugins env p headers body w))" for headers body
      by (rule acceptedD [OF run_plugins_accepted standing_row [OF ok p s0]])
    show "\<not> refused (fst (upsert p n v w))" for n v by (rule upsert_accepted [OF ok ids [OF p]])
    show "\<not> refused (fst (link_get_or_create (id_page p, id_page q) w))" if "q \<in> set (page_rows w)" for q
      using link_goc_accepted [OF ok, of "(id_page p, id_page q)"] ids [OF p] ids [OF that] by simp
    show "\<not> refused (fst (toogle_is_linkable r p (w, ms)))" for r ms by (rule toogle_accepted [OF ok p])
  qed
  show ?thesis
  proof (intro conjI ballI allI impI)
    fix s num rs e w' assume "check_site env s num w = (rs, Some e, w')"
    then show "\<not> integrity e" by (rule check_site_accepted [OF ok])
  qed (insert row, simp_all add: ok init_site_refused [OF ok] reset_site_accepted [OF ok] add_page_accepted [OF ok])
qed

definition seeded :: world where
  "seeded = snd (init_site outside ''http://localhost/alpha/'' ''omega'' empty_world)"

lemma seeded_reachable: "reachable outside seeded"
  unfolding seeded_def by (rule reachable_call [OF reachable_start calls.init])

theorem no_constraint_refuses_witness:
  "refused (fst (init_site outside ''http://localhost/alpha/'' ''beta'' seeded)) \<and>
   \<not> refused (fst (init_site outside ''http://localhost/alpha/'' ''omega'' seeded)) \<and> \<not> refused (fst (reset_site outside ''omega'' seeded))"
proof -
  have "refused (fst (init_site outside ''http://localhost/alpha/'' ''beta'' seeded))"
    "''omega'' \<in> site_name ` set (site_rows seeded)" by code_simp+
  moreover have "\<not> integrity e" if "e_robots outside t url = Inl e" for t url e using that by (simp add: outside_def)
  note no_constraint_refuses [OF seeded_reachable this]
  ultimately show ?thesis by (auto simp: url_taken_def)
qed

text \<open>
  C2. What a check of a stored page does for every answer to its \<open>HEAD\<close> request. When the
  request raises, the row is saved as checked now with status \<open>-1\<close>, the text of the exception
  and the time it took (if that text fits its column), and the check returns a failure. When
  the server responds, the check raises and no row changes: \<open>AttributeError\<close> for a status
  in 200 to 299, because the success of \<open>is_valid\<close> carries \<open>True\<close> instead of a response, and
  \<open>TypeError\<close> for any other, because that failure carries no code. (The branch of \<open>is_valid\<close>
  for such a status is modelled because the code has it; \<open>urlopen\<close> itself raises \<open>HTTPError\<close>
  outside 200 to 299, which is the first case.)
\<close>

theorem check_page_answers:
  assumes "db_ok w" "p \<in> set (page_rows w)" "site_get (page_site p) w = Some s"
    and "get_full_url s p = Inr url" "has_url_type url"
  shows "check_page env p w =
    (let t = tick w
     in case e_head env (t + 2) url of
          HeadRaises err \<Rightarrow>
            if length err \<le> 512
            then (Inr (Failure (failed_text url err) None), (page_put (failed_row env p t err) w)\<lparr>tick := t + 4\<rparr>)
            else (Inl (DataError ''page''), w\<lparr>tick := t + 4\<rparr>)
        | HeadResponds st \<Rightarrow>
            (Inl (if 200 \<le> st \<and> st < 300 then AttributeError ''status_code''
                  else TypeError ''int() argument must be a string, a bytes-like object or a real number, not NoneType''),
             w\<lparr>tick := t + 3\<rparr>))"
  using assms by (rule check_page_outcome)

lemma home_url: "get_full_url omega home = Inr ''http://localhost/alpha/''" "has_url_type ''http://localhost/alpha/''"
  by code_simp+

theorem check_page_answers_witness:
  "fst (check_page outside home small) = Inr (Failure ''Error al comprobar http://localhost/alpha/: -1: timed out'' None)"
  using check_page_answers [OF small_ok small_rows(1) small_site home_url, of outside]
  by (simp add: outside_def failed_text_def Let_def)

text \<open>
  C3. A check never returns a success, whatever the page, the state and the servers: the
  branch after \<open>page.is_valid()\<close> that stores links and values is never reached from it.
\<close>

theorem check_page_never_succeeds: "fst (check_page env p w) \<noteq> Inr (Success m)"
  using check_page_fails [of env p] unfolding returns_def by (metis is_failure.simps(1))

text \<open>
  C29. What C3 means for the data: in whatever database the program reaches, no page holds
  anything that a server answered. Its status is \<open>-1\<close> or the initial 0, its size and content
  type are the initial ones, it is not in order, and once checked it is among the errors.
\<close>

theorem nothing_is_fetched:
  assumes "reachable env w" "p \<in> set (page_rows w)"
  shows "(status p = -1 \<or> status p = 0) \<and> size_bytes p = 0 \<and> content_type p = [] \<and> \<not> is_ok p \<and>
    is_error_row p = is_checked p"
proof -
  have "unfetched_row p"
    using reachable_unfetched [OF assms(1)] assms(2) by (simp add: never_fetched_def unfetched_def)
  then show ?thesis by (auto simp: unfetched_row_def is_ok_def is_error_row_def)
qed

theorem nothing_is_fetched_witness:
  "\<exists>p \<in> set (page_rows seeded). \<not> is_ok p"
proof -
  have "page_rows seeded \<noteq> []" by code_simp
  then obtain p where p: "p \<in> set (page_rows seeded)"
    by (meson list.set_sel(1))
  with nothing_is_fetched [OF seeded_reachable p] show ?thesis by blast
qed

text \<open>
  C4. The page that is to be checked next is the one the documented priorities give: a page
  whose schedule is due, the one checked longest ago first; else, with the random choice and
  if any page is in error, the one of those checked longest ago; else the unchecked page that
  was discovered first; else the page checked longest ago. There is no page to check exactly
  if the site has none, and the choice changes nothing but the readings of clock and chance.
\<close>

theorem next_page_priorities:
  assumes "db_ok w"
  shows "\<exists>choice n. next_page_to_check env s w = (Inr choice, w\<lparr>tick := n\<rparr>) \<and>
    (case choice of
       None \<Rightarrow> site_pages s w = []
     | Some p \<Rightarrow> frontier_choice s w (e_now env (tick w)) (e_random env (Suc (tick w)) \<le> 1 / 2) p)"
proof -
  obtain choice n where c: "next_page_to_check env s w = (Inr choice, w\<lparr>tick := n\<rparr>)"
    using next_page_returns by blast
  with next_page_None_iff [OF db_ok_keys(2) [OF assms], of env s]
    next_page_meets_spec [OF db_ok_keys(2) [OF assms], of env s]
  show ?thesis by (cases choice) auto
qed

theorem next_page_priorities_witness:
  "\<exists>choice n. next_page_to_check outside omega small = (Inr choice, small\<lparr>tick := n\<rparr>) \<and>
    (case choice of
       None \<Rightarrow> site_pages omega small = []
     | Some p \<Rightarrow> frontier_choice omega small (e_now outside (tick small)) (e_random outside (Suc (tick small)) \<le> 1 / 2) p)"
  by (rule next_page_priorities [OF small_ok])

text \<open>
  C5. When the update of the links of a page returns, its outgoing links are exactly the
  linkable pages at the addresses of the links that were followed; every such address has a
  row; the two results are the targets that are gone and those that are new; the links of
  other pages, the values and the sites are as before, and no page row was changed.
\<close>

theorem update_links_refines:
  assumes "db_ok w" "update_links env s p body w = (Inr out, w')"
  shows "\<exists>cf. e_robots env (tick w) (site_url s ''robots.txt'') = Inr cf \<and>
    links_updated s p (addresses s p cf (candidates env body)) w out w'"
  using assms by (rule update_links_outcome)

lemma small_update: "\<exists>out w'. update_links outside omega home markup small = (Inr out, w')"
proof -
  have "case fst (update_links outside omega home markup small) of Inl _ \<Rightarrow> False | Inr _ \<Rightarrow> True" by code_simp
  then show ?thesis by (cases "update_links outside omega home markup small") (auto split: sum.splits)
qed

theorem update_links_refines_witness:
  "\<exists>out w' cf. update_links outside omega home markup small = (Inr out, w') \<and>
    links_updated omega home (addresses omega home cf (candidates outside markup)) small out w'"
  using small_update update_links_refines [OF small_ok, of outside omega home markup] by blast

text \<open>
  C6. When the phase of the plug-ins returns, the values of the page are exactly what the
  plug-ins returned, later ones overriding earlier ones, as text; a plug-in that raised only
  adds its message to the failure that is returned; values of other pages and all other
  tables are as before.
\<close>

theorem plugins_replace_values:
  assumes "db_ok w" "run_plugins env p headers body w = (Inr r, w')"
  shows "let outs = plugin_outcomes p headers body (tick w) (e_plugins env) in
     db_ok w' \<and> rest_of w' = rest_of w \<and>
     value_map w' = (\<lambda>(k, n). if k = id_page p then map_option str_scalar (map_of (merged [] outs) n)
                              else value_map w (k, n)) \<and>
     r = (if \<forall>out \<in> snd ` set outs. \<not> raised out then Success (merged [] outs)
          else Failure (plugin_failure_text (plugin_failures outs)) None)"
  unfolding Let_def using run_plugins_outcome [OF assms] by blast

lemma small_plugins: "\<exists>r w'. run_plugins outside home [] markup small = (Inr r, w')"
proof -
  have "case fst (run_plugins outside home [] markup small) of Inl _ \<Rightarrow> False | Inr _ \<Rightarrow> True" by code_simp
  then show ?thesis by (cases "run_plugins outside home [] markup small") (auto split: sum.splits)
qed

theorem plugins_replace_values_witness:
  "\<exists>r w'. run_plugins outside home [] markup small = (Inr r, w') \<and> db_ok w' \<and>
     value_map w' (1, ''version'') = Some ''7'' \<and> value_map w' (1, ''title'') = None"
proof -
  obtain r w' where run: "run_plugins outside home [] markup small = (Inr r, w')" using small_plugins by blast
  from plugins_replace_values [OF small_ok run] have
    "db_ok w'" "value_map w' = (\<lambda>(k, n). if k = id_page home then map_option str_scalar
       (map_of (merged [] (plugin_outcomes home [] markup (tick small) (e_plugins outside))) n)
       else value_map small (k, n))"
    by (simp_all only: Let_def)
  with run show ?thesis
    by (intro exI [of _ r] exI [of _ w']) (simp add: home_def outside_def dict_update_def)
qed

text \<open>
  C7. The phase after the \<open>HEAD\<close> request, for any response: the row is saved with the status,
  content type, size and time of the response; content that is not HTML ends the check;
  HTML of another site loses the outgoing links of the page; HTML of this site is downloaded,
  and a body that does not look like HTML is saved as status 418, while for a valid one the
  links and the values are brought up to date and the message counts the links.
\<close>

theorem responded_phase:
  assumes "db_ok w" "row_of w p" "check_responded env s p url start r w = (Inr res, w')"
  shows "\<exists>ct sz q w1. get_content_type (resp_headers r) = Inr ct \<and> get_content_length (resp_headers r) = Inr sz \<and>
    q = responded_row p r ct sz (e_time env (tick w) - start) \<and>
    w1 = (page_put q w)\<lparr>tick := Suc (tick w)\<rparr> \<and>
    (if ct \<noteq> ''text/html'' then res = Success (Checked url None) \<and> w' = w1
     else if is_local s (resp_url r) = Inr True then html_outcome env s q url w1 res w'
     else res = Success (Checked url None) \<and> w' = delete_links (\<lambda>l. from_page l = id_page p) w1)"
  using assms by (rule check_responded_outcome)

definition sample_response :: response where
  "sample_response = \<lparr>status_code = 200, resp_headers = [(''Content-Type'', HText ''text/html; charset=utf-8'')],
     resp_url = ''http://localhost/alpha/''\<rparr>"

lemma small_responded:
  "\<exists>w'. check_responded outside omega home ''http://localhost/alpha/'' 0 sample_response small =
     (Inr (Success (Checked ''http://localhost/alpha/'' (Some (1, 1, True)))), w')"
proof -
  have "fst (check_responded outside omega home ''http://localhost/alpha/'' 0 sample_response small) =
     Inr (Success (Checked ''http://localhost/alpha/'' (Some (1, 1, True))))" by code_simp
  then show ?thesis by (metis prod.collapse)
qed

lemma home_row: "row_of small home"
  using small_rows(1) by (auto simp: row_of_def)

theorem responded_phase_witness:
  "\<exists>ct sz. get_content_type (resp_headers sample_response) = Inr ct \<and>
     get_content_length (resp_headers sample_response) = Inr sz"
proof -
  obtain w' where "check_responded outside omega home ''http://localhost/alpha/'' 0 sample_response small =
     (Inr (Success (Checked ''http://localhost/alpha/'' (Some (1, 1, True)))), w')"
    using small_responded by blast
  from responded_phase [OF small_ok home_row this] show ?thesis by blast
qed

text \<open>
  C8. The crawl loop keeps the database well formed, yields at most \<open>num\<close> results however it
  ends, and each of them is a failure (which is what C3 says of a check). If no exception ends it
  and the site has a page, there are exactly \<open>num\<close> results: the frontier never runs dry.
\<close>

theorem check_site_bounded:
  assumes "db_ok w" "check_site env s num w = (rs, e, w')"
  shows "db_ok w' \<and> length rs \<le> nat num \<and> (\<forall>r \<in> set rs. is_failure r) \<and>
    (e = None \<and> site_pages s w \<noteq> [] \<longrightarrow> length rs = nat num)"
  using check_site_sound [OF assms] check_site_full [OF assms(1)] assms(2) by blast

theorem check_site_bounded_witness:
  "db_ok (snd (snd (check_site outside omega 3 small))) \<and> length (fst (check_site outside omega 3 small)) \<le> 3"
proof -
  obtain rs e w' where "check_site outside omega 3 small = (rs, e, w')" by (cases "check_site outside omega 3 small")
  with check_site_bounded [OF small_ok this] show ?thesis by simp
qed

text \<open>
  If the site has a page and no exception ends the loop, it yields exactly \<open>num\<close> results:
  the frontier never runs dry.
\<close>

lemma check_site_exhausts_num:
  assumes "db_ok w" "site_pages s w \<noteq> []" "check_site env s num w = (rs, None, w')"
  shows "length rs = nat num"
  using assms by (rule check_site_full)

lemma small_crawl: "\<exists>rs w'. check_site outside omega 3 small = (rs, None, w')"
proof -
  have "fst (snd (check_site outside omega 3 small)) = None" by code_simp
  then show ?thesis by (metis prod.collapse)
qed

lemma check_site_exhausts_num_small: "length (fst (check_site outside omega 3 small)) = 3"
proof -
  obtain rs w' where run: "check_site outside omega 3 small = (rs, None, w')" using small_crawl by blast
  have "site_pages omega small \<noteq> []" using small_rows(4) by auto
  with check_site_exhausts_num [OF small_ok _ run] run show ?thesis by simp
qed

text \<open>
  C9. A crawl takes the pages never checked in the order of their discovery: when the site has
  no schedules and chance gives no second tries to pages in error, each result that it yields is
  that of the first page of that list, which leaves it, and nothing else joins or leaves. So a
  crawl that no exception ends has checked the first \<open>num\<close> of them, and all if there are no more.
\<close>

theorem crawl_follows_discovery:
  assumes "db_ok w" "unscheduled s w" "\<And>t. 1 / 2 < e_random env t" "check_site env s num w = (rs, e, w')"
  shows "discovered s w' = drop (length rs) (discovered s w) \<and>
    (e = None \<longrightarrow> discovered s w' = drop (nat num) (discovered s w)) \<and>
    (e = None \<and> length (discovered s w) \<le> nat num \<longrightarrow> unchecked_pages s w' = {})"
  using check_site_drains [OF assms] set_discovered [of s w'] by auto

definition calm :: env where
  "calm = outside\<lparr>e_random := (\<lambda>_. 1)\<rparr>"

theorem crawl_follows_discovery_witness:
  "discovered omega small = [home] \<and> unchecked_pages omega (snd (snd (check_site calm omega 1 small))) = {}"
proof -
  have one: "discovered omega small = [home]"
    by (simp add: discovered_def site_pages_def small_def omega_def home_def broken_def)
  have "fst (snd (check_site calm omega 1 small)) = None" by code_simp
  then obtain rs w' where run: "check_site calm omega 1 small = (rs, None, w')" by (metis prod.collapse)
  have "unscheduled omega small" "\<And>t. 1 / 2 < e_random calm t"
    by (simp_all add: unscheduled_def small_def calm_def)
  from crawl_follows_discovery [OF small_ok this run] one run show ?thesis by simp
qed

section \<open>The life of a site\<close>

text \<open>
  C10. A new site under a free name and a free URL: one row with the parts of the URL, and
  one unchecked page of status \<open>-1\<close> at its path, the seed of the frontier; nothing else changes.
  (The documentation of the tables gives a page that was never checked the status 0; that is the
  default of the column, which \<open>init_site\<close> overrides.)
\<close>

theorem init_site_creates:
  assumes "db_ok w" "name \<notin> site_name ` set (site_rows w)" "urlparse url [] = Inr info"
    and "site_fits (seeded_site env info name w)"
    and "site_url_key (seeded_site env info name w) \<notin> site_url_key ` set (site_rows w)"
  shows "init_site env url name w = (Inr (seeded_site env info name w),
     w\<lparr>site_rows := site_rows w @ [seeded_site env info name w], next_site := Suc (next_site w),
       page_rows := page_rows w @ [seed_page env info w], next_page := Suc (next_page w),
       tick := tick w + 2\<rparr>)"
  using assms by (rule init_site_new)

definition beta_parts :: url_parts where
  "beta_parts = plain_parts ''http'' ''localhost'' ''/beta/'' []"

theorem init_site_creates_witness:
  "fst (init_site outside ''http://localhost/beta/'' ''beta'' small) = Inr (seeded_site outside beta_parts ''beta'' small)"
proof -
  have "urlparse ''http://localhost/beta/'' [] = Inr beta_parts" by code_simp
  moreover have "''beta'' \<notin> site_name ` set (site_rows small)" "site_fits (seeded_site outside beta_parts ''beta'' small)"
    "site_url_key (seeded_site outside beta_parts ''beta'' small) \<notin> site_url_key ` set (site_rows small)"
    by code_simp+
  ultimately show ?thesis using init_site_creates [OF small_ok] by simp
qed

text \<open>A name that is taken is refused with \<open>ValueError\<close>, and nothing is written.\<close>

lemma init_site_refuses:
  assumes "db_ok w" "name \<in> site_name ` set (site_rows w)"
  shows "init_site env url name w = (Inl (ValueError (''Error: El site '' @ name @ '' ya existe'')), w)"
  using assms by (rule init_site_exists)

lemma init_site_refuses_small:
  "init_site outside ''http://x/'' ''omega'' small = (Inl (ValueError ''Error: El site omega ya existe''), small)"
  using init_site_refuses [OF small_ok, of "''omega''" outside "''http://x/''"] by (simp add: small_def omega_def)

text \<open>
  C12. A reset leaves the site with one page, new and unchecked, at the path of the site; the
  pages of other sites and the rows of the sites are as before; and of the links exactly
  those go that touch a page of the site.
\<close>

theorem reset_site_restarts:
  assumes "db_ok w" "s \<in> set (site_rows w)" "urlparse (site_path s) [] = Inr info"
    and "length (query info) \<le> 1024" "length (path info) \<le> 280"
    and "reset_site env (site_name s) w = (r, w')"
  shows "r = Inr s \<and>
    site_pages s w' = [new_page (id_site s) (path info) (query info) (e_now env (tick w)) (next_page w)] \<and>
    (\<forall>s'. id_site s' \<noteq> id_site s \<longrightarrow> site_pages s' w' = site_pages s' w) \<and> site_rows w' = site_rows w \<and>
    set (link_rows w') = {l \<in> set (link_rows w). from_page l \<notin> id_page ` set (site_pages s w) \<and>
       to_page l \<notin> id_page ` set (site_pages s w)}"
  using reset_site_pages [OF assms] by blast

definition alpha_parts :: url_parts where
  "alpha_parts = plain_parts [] [] ''/alpha/'' []"

theorem reset_site_restarts_witness:
  "length (site_pages omega (snd (reset_site outside ''omega'' small))) = 1"
proof -
  have "urlparse (site_path omega) [] = Inr alpha_parts" by code_simp
  moreover have "length (query alpha_parts) \<le> 1024" "length (path alpha_parts) \<le> 280"
    by (simp_all add: alpha_parts_def plain_parts_def)
  moreover obtain r w' where run: "reset_site outside (site_name omega) small = (r, w')"
    by (cases "reset_site outside (site_name omega) small")
  ultimately have "site_pages omega w' =
      [new_page (id_site omega) (path alpha_parts) (query alpha_parts) (e_now outside (tick small)) (next_page small)]"
    using reset_site_restarts [OF small_ok small_rows(3), of alpha_parts outside r w'] by blast
  moreover have "snd (reset_site outside ''omega'' small) = w'" using run by (simp add: omega_def)
  ultimately show ?thesis by simp
qed

section \<open>Pages and their addresses\<close>

text \<open>
  C13. For a page and a site of ordinary form, both addresses that the page prints, the full
  one and the relative one, lead \<open>add_page\<close> back to the row of the page: nothing is created.
\<close>

theorem page_address_round_trip:
  assumes "db_ok w" "p \<in> set (site_pages s w)" "clean_site s" "clean_page p"
    and "get_full_url s p = Inr full" "get_relative_url s p = Inr rel"
  shows "add_page env s full w = (Inr (p, False), w) \<and> add_page env s rel w = (Inr (p, False), w)"
proof -
  have "clean_base (site_path s)" using assms(3) by (simp add: clean_site_def)
  then have rel: "rel = with_query (subpath p) (page_params p)"
    using relative_url_clean [OF _ assms(4)] assms(6) by simp
  have full: "full = absolute_url (site_scheme s) (site_netloc s) (with_query (subpath p) (page_params p))"
    using full_url_clean [OF assms(3,4)] assms(5) by simp
  show ?thesis
    using add_page_of_page [OF assms(1,2) full_url_parsed(1) [OF assms(3,4), folded full]]
      add_page_of_page [OF assms(1,2) rel_url_parsed(1) [OF assms(4), folded rel]] by simp
qed

theorem page_address_round_trip_witness:
  "add_page outside omega ''http://localhost/alpha/b?x=1'' small = (Inr (broken, False), small)"
proof -
  have "get_full_url omega broken = Inr ''http://localhost/alpha/b?x=1''"
    "get_relative_url omega broken = Inr ''/alpha/b?x=1''" by code_simp+
  with page_address_round_trip [OF small_ok small_rows(5) clean_home(1,3)] show ?thesis by blast
qed

text \<open>
  C14. Adding a page is idempotent: the page that is returned has the path and the query of
  the URL, the pages of the site grow by at most this one, and adding the same URL again
  finds it without a change of the state. (The query is stored as it stands in the URL; the
  documentation says that the parameters are stored as JSON, and that \<open>load_or_create\<close> is given a
  dictionary of them.)
\<close>

theorem add_page_idempotent:
  assumes "db_ok w" "add_page env s url w = (Inr (p, created), w')"
  shows "add_page env' s url w' = (Inr (p, False), w') \<and>
    set (site_pages s w') = insert p (set (site_pages s w)) \<and>
    (\<exists>info. urlparse url [] = Inr info \<and> page_addr p = (path info, query info))"
proof -
  obtain info where info: "urlparse url [] = Inr info"
    using assms(2) by (auto simp: add_page_def andThen_def lift_def split: sum.splits)
  note found = assms(2) [unfolded add_page_parsed [OF info]]
  note ret = page_store.returned [OF assms(1) found]
  have "db_ok w'" by (rule page_store.inv_after [OF assms(1) found])
  moreover have "p \<in> set (site_pages s w')" using ret(2) by simp
  ultimately have "load_or_create env' s (page_addr p) w' = (Inr (p, False), w')" by (rule page_store.found)
  with ret info show ?thesis by (simp add: add_page_parsed [OF info])
qed

theorem add_page_idempotent_witness:
  "\<exists>p w'. add_page outside omega ''/gamma?y=2'' small = (Inr (p, True), w') \<and>
     add_page outside omega ''/gamma?y=2'' w' = (Inr (p, False), w')"
proof -
  have "case fst (add_page outside omega ''/gamma?y=2'' small) of Inl _ \<Rightarrow> False | Inr (_, c) \<Rightarrow> c" by code_simp
  then obtain p w' where "add_page outside omega ''/gamma?y=2'' small = (Inr (p, True), w')"
    by (cases "add_page outside omega ''/gamma?y=2'' small") (auto split: sum.splits)
  with add_page_idempotent [OF small_ok this] show ?thesis by blast
qed

text \<open>
  C15. A link with an absolute URL of ordinary form is followed exactly if its scheme and host
  are those of the site, it is not the page itself and \<open>robots.txt\<close> allows it; it is then
  followed as it stands.
\<close>

theorem absolute_link_followed:
  assumes "clean_site s" "clean_page p"
    and "clean_scheme sch" "clean_netloc net" "clean_path pth" "clean_query q"
  shows "let l = absolute_url sch net (with_query pth q) in valid_link s p can_fetch l =
    Inr (if sch = site_scheme s \<and> net = site_netloc s \<and> Inr l \<noteq> get_full_url s p \<and> can_fetch l
         then Some l else None)"
  unfolding Let_def using assms by (rule valid_link_absolute)

theorem absolute_link_followed_witness:
  "valid_link omega home (\<lambda>_. True) ''https://localhost/x'' = Inr None"
proof -
  have "clean_scheme ''https''" "clean_netloc ''localhost''" "clean_path ''/x''" "clean_query []" by code_simp+
  from absolute_link_followed [OF clean_home(1,2) this, of "\<lambda>_. True"] show ?thesis
    by (simp add: absolute_url_def with_query_def omega_def)
qed

text \<open>
  C16. A link that starts at the root of the host is followed if it is not the page itself and
  \<open>robots.txt\<close> allows it, also when it leaves the path of the site.
\<close>

theorem rooted_link_followed:
  assumes "clean_site s" "clean_page p" "site_scheme s \<in> set uses_relative"
    and "clean_path pth" "clean_query q"
  shows "let r = with_query pth q in valid_link s p can_fetch r =
    Inr (if Inr (absolute_url (site_scheme s) (site_netloc s) r) \<noteq> get_full_url s p \<and> can_fetch r
         then Some r else None)"
  unfolding Let_def using assms by (rule valid_link_rooted)

theorem rooted_link_followed_witness:
  "valid_link omega home (\<lambda>_. True) ''/omega/'' = Inr (Some ''/omega/'')"
proof -
  have "site_scheme omega \<in> set uses_relative" "clean_path ''/omega/''" "clean_query []" by code_simp+
  from rooted_link_followed [OF clean_home(1,2) this, of "\<lambda>_. True"] home_url(1) show ?thesis
    by (simp add: with_query_def absolute_url_def omega_def Let_def)
qed

text \<open>
  A URL of ordinary form is local exactly if its scheme and its host are those of the
  site: the path of the site plays no part, although the documentation says it does.
\<close>

lemma local_means_same_host:
  assumes "clean_scheme sch" "clean_netloc net" "clean_path p" "clean_query q"
  shows "is_local s (absolute_url sch net (with_query p q)) = Inr (sch = site_scheme s \<and> net = site_netloc s) \<and>
    is_local (s\<lparr>site_path := other\<rparr>) (absolute_url sch net (with_query p q)) =
    is_local s (absolute_url sch net (with_query p q))"
  using is_local_absolute [OF assms] by simp

lemma local_means_same_host_small: "is_local omega ''http://localhost/omega/'' = Inr True"
proof -
  have "clean_scheme ''http''" "clean_netloc ''localhost''" "clean_path ''/omega/''" "clean_query []" by code_simp+
  from local_means_same_host [OF this, of omega] show ?thesis
    by (simp add: absolute_url_def with_query_def omega_def)
qed

section \<open>Values\<close>

text \<open>
  C18. An upsert that returns has set one entry of the map from (page, name) to text, to the
  text of the value, and left every other entry; the page reads that text back under that
  name, and another name or page reads what it read before.
\<close>

theorem upsert_then_read:
  assumes "db_ok w" "upsert p n v w = (Inr r, w')"
  shows "value_map w' = (value_map w)((id_page p, n) \<mapsto> str_scalar v) \<and>
    get_value_of p n dflt w' = str_scalar v \<and>
    get_value_of q m dflt w' =
      (if id_page q = id_page p \<and> m = n then str_scalar v else get_value_of q m dflt w)"
proof -
  have "db_ok w'" using keeps_resultD [OF upsert_ok assms] .
  with upsert_map [OF assms] show ?thesis
    by (auto simp: get_value_lookup assms(1))
qed

theorem upsert_then_read_witness:
  "\<exists>r w'. upsert home ''title'' (PInt 12) small = (Inr r, w') \<and> get_title home w' = ''12''"
proof -
  have "case fst (upsert home ''title'' (PInt 12) small) of Inl _ \<Rightarrow> False | Inr _ \<Rightarrow> True" by code_simp
  then obtain r w' where run: "upsert home ''title'' (PInt 12) small = (Inr r, w')"
    by (cases "upsert home ''title'' (PInt 12) small") (auto split: sum.splits)
  have "str_scalar (PInt 12) = ''12''" by code_simp
  with run upsert_then_read [OF small_ok run, of unknown_text] show ?thesis by (auto simp: get_title_def)
qed

section \<open>Texts and their links\<close>

text \<open>
  C19. A body counts as HTML exactly if, without the white space around it, it has at least 14
  characters, ends in \<open></html>\<close> in any case, and somewhere opens an \<open>html\<close> tag that is closed
  on the same line.
\<close>

theorem valid_html_means:
  "is_valid_html body \<longleftrightarrow>
     14 \<le> length (strip body) \<and>
     lower (drop (length (strip body) - 7) (strip body)) = ''</html>'' \<and>
     (\<exists>u tag attrs v. strip body = u @ tag @ attrs @ ''>'' @ v \<and> lower tag = ''<html'' \<and> CHR 0x0A \<notin> set attrs)"
  using is_valid_html_spec [of body] by (simp add: opens_html_def)

text \<open>
  C20. The candidate links of a text are, in whatever order the sets are visited, the
  non-empty \<open>href\<close> of its anchors that do not start with one of the excluded paths in any
  case, the \<open>href\<close> of its \<open>link\<close> tags and the \<open>src\<close> of its images and scripts.
\<close>

theorem candidate_links:
  assumes "set_order (e_iter env)"
  shows "set (candidates env body) = {u. \<exists>t \<in> set (e_tags env body).
     fst t = ''a'' \<and> get_attr (snd t) ''href'' = Some u \<and> lower (take 5 u) \<noteq> ''/api/'' \<and>
       lower (take 6 u) \<noteq> ''/api2/'' \<and> lower (take 11 u) \<noteq> ''/__debug__/'' \<or>
     fst t = ''link'' \<and> get_attr (snd t) ''href'' = Some u \<or>
     (fst t = ''img'' \<or> fst t = ''script'') \<and> get_attr (snd t) ''src'' = Some u}"
proof -
  have "tag_link t = Some u \<longleftrightarrow>
     fst t = ''a'' \<and> get_attr (snd t) ''href'' = Some u \<and> is_valid_url u \<or>
     fst t = ''link'' \<and> get_attr (snd t) ''href'' = Some u \<or>
     (fst t = ''img'' \<or> fst t = ''script'') \<and> get_attr (snd t) ''src'' = Some u" for t u
    by (auto simp: tag_link_def split: option.splits)
  then show ?thesis
    using set_all_links [OF assms, of "feed (e_tags env body) extractor_init"]
      found_links_feed [of "e_tags env body" extractor_init]
    by (simp only: candidates_def found_links_init is_valid_url_spec) simp
qed

theorem candidate_links_witness: "''/gamma'' \<in> set (candidates outside markup)"
proof -
  have "set_order (e_iter outside)" by (simp add: set_order_def outside_def)
  from candidate_links [OF this, of markup] show ?thesis
    by (simp add: outside_def get_attr_def lower_def)
qed

text \<open>
  C21. \<open>batch\<close> with a positive size cuts the items, in their order, into chunks of that size,
  only the last of which may be shorter, and none of which is empty; with any other size it
  never finishes.
\<close>

theorem batch_cuts:
  "if 0 < sz then \<exists>chunks. batch items sz = Some chunks \<and> concat chunks = items \<and> chunked (nat sz) chunks
   else batch items sz = None"
proof (cases "0 < sz")
  case True
  then obtain n where "sz = int n" "0 < n" by (metis zero_less_imp_eq_int)
  with batch_total [of n items] show ?thesis by simp
next
  case False
  with batch_diverges [of sz items] show ?thesis by simp
qed

text \<open>
  C22. With positive sizes a text is cut into fragments that put together give the text again,
  none is empty or longer than the maximum, and all but the last have at least the mean size
  (or the maximum, where that is smaller).
\<close>

theorem fragments_rejoin:
  assumes "0 < mean" "0 < mx"
  shows "\<exists>fs. text_as_fragments s mean mx = Some fs \<and> concat fs = s \<and>
    (\<forall>f \<in> set fs. f \<noteq> [] \<and> int (length f) \<le> mx) \<and> (\<forall>f \<in> set (butlast fs). min mean mx \<le> int (length f))"
  using fragments_total [OF assms, of s] by (simp add: fragmented_def)

theorem fragments_rejoin_witness:
  "\<exists>fs. text_as_fragments ''uno dos tres'' 3 5 = Some fs \<and> concat fs = ''uno dos tres''"
  using fragments_rejoin [of 3 5 "''uno dos tres''"] by auto

text \<open>
  Reading the value of a failure or the message of a success raises, and only that; a
  result is true exactly if it is a success, and never both success and failure.
\<close>

lemma result_accessors:
  "raised (get_value r) = is_failure r \<and> raised (get_error_message r) = is_success r \<and>
     bool_of r = is_success r \<and> is_failure r = (\<not> is_success r)"
  using result_iffs [of r] by blast

text \<open>
  A checked page of status 300 is neither in order nor among the errors; for every other
  status a checked page is in error exactly if it is not in order.
\<close>

lemma status_300_gap:
  "is_checked p \<Longrightarrow> is_error_row p = (\<not> is_ok p \<and> status p \<noteq> 300)"
  by (auto simp: is_error_row_def is_ok_def)

lemma status_300_gap_small: "is_error_row broken = (\<not> is_ok broken \<and> status broken \<noteq> 300)"
  using status_300_gap [of broken] by (simp add: broken_def)

section \<open>What a site lists\<close>

text \<open>
  C11. The listings of a site. Every page is either among the checked or among the pending ones,
  once; the errors are the checked pages that are not in order, but for status 300; the queue is
  what is pending, oldest first, and when nothing is, all pages with the one checked longest ago
  first; the progress is the percentage of checked pages but for the rounding to two digits: it is
  100 when nothing is pending, and for fewer than 20000 pages only then (99999 of 100000 pages are
  shown as 100 too); and a search by text gives the pages whose path has the text in it, whatever
  the case, those of highest status first.
\<close>

theorem site_listings:
  "mset (all_checked_pages s w) + mset (all_pending_pages s w) = mset (site_pages s w) \<and>
   set (all_checked_pages s w) = {p \<in> set (site_pages s w). is_checked p} \<and>
   set (pages_with_errors s w) = {p \<in> set (all_checked_pages s w). \<not> is_ok p \<and> status p \<noteq> 300} \<and>
   mset (all_queued_pages s w) = mset (if all_pending_pages s w \<noteq> [] then all_pending_pages s w else all_checked_pages s w) \<and>
   sorted (map (if all_pending_pages s w \<noteq> [] then page_created_at else checked_at) (all_queued_pages s w)) \<and>
   0 \<le> progress s w \<and> progress s w \<le> 100 \<and>
   \<bar>progress s w * of_nat (length (site_pages s w)) - 100 * of_nat (length (all_checked_pages s w))\<bar>
     \<le> (1 / 200 + 1 / 10 ^ 13) * of_nat (length (site_pages s w)) \<and>
   (site_pages s w \<noteq> [] \<and> all_pending_pages s w = [] \<longrightarrow> progress s w = 100) \<and>
   (site_pages s w \<noteq> [] \<and> length (site_pages s w) < 20000 \<and> progress s w = 100 \<longrightarrow> all_pending_pages s w = []) \<and>
   (case search compile s q False w of (found, e) \<Rightarrow>
      e = None \<and> set found = {p \<in> set (site_pages s w). contains (lower q) (lower (subpath p))} \<and>
      sorted (map search_order found))"
  using checked_and_pending [of s w] listing_sets(1) [of s w] errors_listed [of s w] queue_listed [of s w]
    progress_range [of s w] progress_full [of s w] search_text [of compile s q w]
  by (auto simp only: split: prod.split)

theorem site_listings_witness: "progress omega small = 50 \<and> all_pending_pages omega small \<noteq> []"
proof -
  have half: "progress omega small = 50" by code_simp
  moreover have "site_pages omega small \<noteq> []" using small_rows(4) by auto
  ultimately show ?thesis using site_listings [where s = omega and w = small] by auto
qed

section \<open>The web front end\<close>

text \<open>
  C25. Expunging pages of a site deletes some of those that were asked for, each of them only
  when no link led to it any more: a link to a deleted page came from a deleted page, and the
  links that are gone are those that left deleted pages. The count in the message is the
  number of pages deleted.
\<close>

theorem expunge_keeps_linked_pages:
  assumes "db_ok w" "site_expunge r s (w, ms) = (Inr reply, w', ms')"
  shows "\<exists>ids D. is_post r \<and> ints_of (id_pages r) = Inr ids \<and> expunged w D w' \<and>
    D \<subseteq> {p \<in> set (site_pages s w). int (id_page p) \<in> set ids} \<and>
    reply = Redirect (a_site_orphans (ToSite s)) \<and>
    last ms' = SuccessMessage (id_usuario r) (''Borradas '' @ show_nat (card D) @ '' p'' @ [CHR 0xE1] @ ''ginas de '' @ site_name s)"
  using assms by (rule site_expunge_outcome)

definition expunge_request :: request where
  "expunge_request = \<lparr>is_post = True, GET = [], id_pages = [''1'', ''2''], id_usuario = 7\<rparr>"

theorem expunge_keeps_linked_pages_witness:
  "\<exists>reply w' ms' D. site_expunge expunge_request omega (small, []) = (Inr reply, w', ms') \<and> expunged small D w'"
proof -
  have "case fst (site_expunge expunge_request omega (small, [])) of Inl _ \<Rightarrow> False | Inr _ \<Rightarrow> True" by code_simp
  then obtain reply w' ms' where run: "site_expunge expunge_request omega (small, []) = (Inr reply, w', ms')"
    by (cases "site_expunge expunge_request omega (small, [])") (auto split: sum.splits)
  with expunge_keeps_linked_pages [OF small_ok run] show ?thesis by blast
qed

text \<open>
  C24. What the view of a site shows is what its rows hold, and showing it changes nothing: the
  numbers of all pages, of those checked, in error, without links to them allowed and in the
  queue, and for each version the number of pages that have it.
\<close>

theorem site_page_adds_up:
  assumes "db_ok w"
  shows "\<exists>ctx versions. site_detail hours r s (w, ms) = (Inr (Render ''spidercheck/site_detail.html'' ctx), (w, ms)) \<and>
    map_of ctx ''num_pages'' = Some (CNat (card (set (site_pages s w)))) \<and>
    map_of ctx ''num_processed'' = Some (CNat (card {p \<in> set (site_pages s w). is_checked p})) \<and>
    map_of ctx ''num_errores'' =
      Some (CNat (card {p \<in> set (site_pages s w). is_checked p \<and> \<not> is_ok p \<and> status p \<noteq> 300})) \<and>
    map_of ctx ''num_no_links'' = Some (CNat (card {p \<in> set (site_pages s w). \<not> is_linkable p})) \<and>
    map_of ctx ''num_queued'' = Some (CNat (if unchecked_pages s w = {} then card (set (site_pages s w))
      else card (unchecked_pages s w))) \<and>
    map_of ctx ''versiones'' = Some (CBarChart versions ''Versiones'') \<and>
    (\<forall>t. map_of versions t = (if holders s ''version'' t w = {} then None else Some (card (holders s ''version'' t w))))"
  using count_values_pages [OF assms, of s "''version''"]
  by (simp add: site_detail_eval listing_lengths [OF assms] length_filter_card [OF site_pages_distinct [OF assms]])

theorem site_page_adds_up_witness:
  "\<exists>ctx. site_detail (\<lambda>_ _. []) expunge_request omega (small, []) =
       (Inr (Render ''spidercheck/site_detail.html'' ctx), (small, [])) \<and> map_of ctx ''num_pages'' = Some (CNat 2)"
proof -
  have "card (set (site_pages omega small)) = 2"
    by (simp add: site_pages_def small_def omega_def home_def broken_def)
  then have two: "CNat (card (set (site_pages omega small))) = CNat 2" by (simp only:)
  from site_page_adds_up [OF small_ok, where hours = "\<lambda>_ _. []" and r = expunge_request and s = omega and ms = "[]"] obtain ctx where
    "site_detail (\<lambda>_ _. []) expunge_request omega (small, []) =
       (Inr (Render ''spidercheck/site_detail.html'' ctx), (small, []))"
    "map_of ctx ''num_pages'' = Some (CNat (card (set (site_pages omega small))))" by (elim exE conjE) (rule that)
  with two show ?thesis by (intro exI [of _ ctx] conjI) (simp_all only:)
qed

text \<open>
  C26. Toggling the flag of a stored page saves the row with the other value; if the page stops
  being linkable, all links to it are deleted and their number is reported, if it is not zero.
\<close>

theorem toogle_saves_and_unlinks:
  assumes "db_ok w" "p \<in> set (page_rows w)"
  shows "toogle_is_linkable r p (w, ms) =
    (let q = p\<lparr>is_linkable := \<not> is_linkable p\<rparr>; n = length (incoming_links p w)
     in (Inr (Redirect (a_detalle_pagina (ToPage q))),
         if is_linkable p
         then (page_put q (delete_links (\<lambda>l. to_page l = id_page p) w),
               if n > 0 then ms @ [SuccessMessage (id_usuario r) (''Se han eliminado '' @ show_nat n @ '' enlaces'')] else ms)
         else (page_put q w, ms)))"
  using assms by (rule toogle_outcome)

theorem toogle_saves_and_unlinks_witness:
  "snd (snd (toogle_is_linkable expunge_request broken (small, []))) = [SuccessMessage 7 ''Se han eliminado 1 enlaces'']"
proof -
  have "length (incoming_links broken small) = 1" "is_linkable broken"
    by (simp_all add: incoming_links_def small_def broken_def)
  moreover have "''Se han eliminado '' @ show_nat 1 @ '' enlaces'' = ''Se han eliminado 1 enlaces''" by code_simp
  ultimately show ?thesis
    using toogle_saves_and_unlinks [OF small_ok small_rows(2), of expunge_request "[]"]
    by (simp add: Let_def expunge_request_def)
qed

text \<open>
  C27. Deleting a page from the front end. A page that any link leads to is refused and nothing
  changes; this includes a link from the page itself, although the documentation speaks of links
  from other pages only. Any other page is deleted with exactly the links that leave it, its values
  and its schedule, and the user is sent to its site.
\<close>

theorem page_delete_is_safe:
  assumes "db_ok w" "p \<in> set (page_rows w)" "is_post r" "page_delete r p (w, ms) = (out, w', ms')"
  shows "ms' = ms \<and>
    (if \<exists>l \<in> set (link_rows w). to_page l = id_page p
     then out = Inl AssertionError \<and> w' = w
     else (\<exists>s. site_get (page_site p) w = Some s \<and> out = Inr (Redirect (a_detalle_site (ToSite s)))) \<and>
       db_ok w' \<and> site_rows w' = site_rows w \<and> set (page_rows w') = set (page_rows w) - {p} \<and>
       set (link_rows w') = {l \<in> set (link_rows w). from_page l \<noteq> id_page p} \<and>
       set (value_rows w') = {v \<in> set (value_rows w). value_page v \<noteq> id_page p} \<and>
       set (sched_rows w') = {c \<in> set (sched_rows w). sched_page c \<noteq> id_page p})"
  using assms by (rule page_delete_effect)

theorem page_delete_is_safe_witness:
  "fst (page_delete expunge_request broken (small, [])) = Inl AssertionError \<and>
   set (page_rows (fst (snd (page_delete expunge_request home (small, []))))) = {broken}"
proof -
  have post: "is_post expunge_request" by (simp add: expunge_request_def)
  have three: "x = (fst x, fst (snd x), snd (snd x))" for x :: "'x \<times> 'y \<times> 'z" by simp
  have "\<exists>l \<in> set (link_rows small). to_page l = id_page broken" "\<not> (\<exists>l \<in> set (link_rows small). to_page l = id_page home)"
    "set (page_rows small) - {home} = {broken}"
    by (auto simp: small_def broken_def home_def)
  with page_delete_is_safe [OF small_ok small_rows(2) post three, of "[]"]
    page_delete_is_safe [OF small_ok small_rows(1) post three, of "[]"]
  show ?thesis by (auto split: if_splits)
qed

text \<open>
  The converters of the URL parameters are inverse on stored rows: the text of a site leads
  back to the site, the number of a page back to the page.
\<close>

lemma converters_round_trip:
  assumes "db_ok w" "s \<in> set (site_rows w)" "p \<in> set (page_rows w)"
  shows "(\<exists>t. site_to_url (Instance s) = Inr t \<and> site_to_python (Inr t) w = (Inr s, w)) \<and>
    (\<exists>i. page_to_url (Instance p) = Inr i \<and> page_to_python (Inr (show_int i)) w = (Inr p, w))"
  using site_url_round_trip [OF assms(1,2)] page_url_round_trip [OF assms(1,3)]
  by (simp add: site_to_url_def page_to_url_def)

lemma converters_round_trip_small: "site_to_python (Inr ''omega'') small = (Inr omega, small)"
  using converters_round_trip [OF small_ok small_rows(3,1)] by (auto simp: site_to_url_def omega_def)

text \<open>
  C17. A page that changes while a crawl holds it. If between the choice of a page and its check
  (whose request fails) a user toggles its flag, the save at the end of the check takes the flag
  back, but not the deletion of the links; if a user deletes the page, the save inserts it again
  under its old key, checked, without its values and links.
\<close>

theorem stale_page_is_written_back:
  assumes "db_ok w" "p \<in> set (page_rows w)" "site_get (page_site p) w = Some s" "get_full_url s p = Inr url"
    "has_url_type url" "e_head env (tick w + 2) url = HeadRaises err" "length err \<le> 512"
  shows "(let v = fst (snd (toogle_is_linkable r p (w, ms))); u = snd (check_page env p v)
     in (\<exists>q. page_get (id_page p) v = Some q \<and> is_linkable q \<noteq> is_linkable p) \<and>
        (\<exists>q. page_get (id_page p) u = Some q \<and> is_linkable q = is_linkable p \<and> is_checked q) \<and>
        (is_linkable p \<longrightarrow> incoming_links p u = [])) \<and>
    (is_post r \<and> can_be_deleted p w \<longrightarrow>
     (let v = fst (snd (page_delete r p (w, ms))); u = snd (check_page env p v)
      in page_get (id_page p) v = None \<and> (\<exists>q. page_get (id_page p) u = Some q \<and> is_checked q) \<and>
         page_values p u = [] \<and> outgoing_links p u = []))"
proof -
  have three: "x = (fst x, fst (snd x), snd (snd x))" for x :: "'x \<times> 'y \<times> 'z" by simp
  have two: "y = (fst y, snd y)" for y :: "'x \<times> 'y" by simp
  show ?thesis
    unfolding Let_def
    using check_undoes_toogle [OF assms three two, of r ms] check_revives_page [OF assms _ _ three two, of r ms] by blast
qed

theorem stale_page_is_written_back_witness:
  "\<exists>q. page_get 1 (snd (check_page outside home (fst (snd (page_delete expunge_request home (small, [])))))) = Some q"
proof -
  have "get_full_url omega home = Inr ''http://localhost/alpha/''" "has_url_type ''http://localhost/alpha/''" by code_simp+
  note url = this
  have "is_post expunge_request \<and> can_be_deleted home small" "id_page home = 1"
    "e_head outside (tick small + 2) ''http://localhost/alpha/'' = HeadRaises ''timed out''" "length ''timed out'' \<le> 512"
    by (simp_all add: expunge_request_def can_be_deleted_def incoming_links_def small_def home_def outside_def)
  with stale_page_is_written_back [OF small_ok small_rows(1) small_site url, of outside "''timed out''" expunge_request "[]"]
  show ?thesis unfolding Let_def by auto
qed

text \<open>
  C23. Who may change the database through the web. A visitor who is not logged in leaves it as
  it is, whatever the path and the form, but with a POST to one of the two routes of \<open>expunge\<close>,
  whose views lack the decorator; and then, however the request ends, what it deletes are pages
  that no link of a page that stays leads to.
\<close>

theorem anonymous_visits:
  assumes "db_ok w" "login_guard S" "\<not> logged_in r"
  shows "fst (snd (serve env S r (w, ms))) = w \<or>
    is_post r \<and> (\<exists>D. expunged w D (fst (snd (serve env S r (w, ms))))) \<and>
    (\<exists>s. fst (resolve S (path_info r) w) \<in>
       {Inr (Some (''site_expunge'', [(''site'', SiteArg s)])), Inr (Some (''site_expunge_all'', [(''site'', SiteArg s)]))})"
  using assms by (rule anonymous_serve)

text \<open>A concrete surrounding: the login page for strangers, one page of a listing, the pages without links as orphans.\<close>

definition front :: services where
  "front = \<lparr>matches = path_matches,
     login_required = (\<lambda>v r. if logged_in r then v r else ret (Redirect (''intranet:login'', []))),
     paginate = (\<lambda>ps n i. Inr ps), get_hour_progress = (\<lambda>_ _. []),
     load_paginas_huerfanas = (\<lambda>k w. filter (\<lambda>p. page_site p = k \<and> incoming_links p w = []) (page_rows w)),
     repr_msg = (\<lambda>_. [])\<rparr>"

definition stranger :: visit where
  "stranger = \<lparr>is_post = True, GET = [], id_pages = [], id_usuario = 0,
     path_info = ''site/omega/expunge/all/'', logged_in = False\<rparr>"

lemma front_fits: "login_guard front" "honours_paths front"
  by (simp_all add: login_guard_def honours_paths_def front_def ret_def)

theorem anonymous_visits_witness:
  "\<exists>D. D \<noteq> {} \<and> expunged small D (fst (snd (serve outside front stranger (small, []))))"
proof -
  have "map id_page (page_rows (fst (snd (serve outside front stranger (small, []))))) = [2]" by code_simp
  then have gone: "fst (snd (serve outside front stranger (small, []))) \<noteq> small" "home \<notin> set (page_rows (fst (snd (serve outside front stranger (small, [])))))"
    by (auto simp: small_def home_def)
  have "\<not> logged_in stranger" by (simp add: stranger_def)
  from anonymous_visits [OF small_ok front_fits(1) this, of outside "[]"] gone(1) obtain D where
    D: "expunged small D (fst (snd (serve outside front stranger (small, []))))" by blast
  with gone(2) small_rows(1) have "home \<in> D" by (auto simp: expunged_def)
  with D show ?thesis by blast
qed

text \<open>
  C28. Links lead where they say: the path that a link is resolved to is found in the table of
  routes, its converters give back the same row, and the view is the one the link names. For a
  site this holds exactly if its name is made of letters, digits, dashes and underscores; the
  name of a site is not restricted to those, and for any other name the link raises. The link
  \<open>a_add_no_link\<close> always does.
\<close>

theorem links_lead_to_views:
  assumes "honours_paths S" "db_ok w" "s \<in> set (site_rows w)" "p \<in> set (page_rows w)"
    and "(link, name, tail) \<in> set site_links"
  shows "(if full_match site_regex (site_name s)
     then leads_to S w (link (ToSite s)) name [(''site'', SiteArg s)]
     else reverse_path (link (ToSite s)) = None) \<and>
   leads_to S w (a_detalle_pagina (ToPage p)) ''detail_page'' [(''page'', PageArg p)] \<and>
   leads_to S w a_homepage ''homepage'' [] \<and> reverse_path (a_add_no_link v) = None"
  using site_links_lead [OF assms(1-3) _ assms(5)] site_links_reverse [OF assms(5)] page_link_leads [OF assms(1,2,4)]
    home_link_leads [OF assms(1)] other_links_reverse(2)
  by simp

theorem links_lead_to_views_witness:
  "leads_to front small (a_site_queue (ToSite omega)) ''site_queue'' [(''site'', SiteArg omega)]"
proof -
  have "full_match site_regex (site_name omega)" by code_simp
  moreover have "(a_site_queue, ''site_queue'', [''queue'']) \<in> set site_links" by (simp add: site_links_def)
  ultimately show ?thesis using links_lead_to_views [OF front_fits(2) small_ok small_rows(3,1)] by metis
qed

text \<open>
  Every link function names a route that exists with just those parameters, but
  \<open>a_add_no_link\<close>, whose route the table lacks.
\<close>

lemma links_name_routes:
  "resolves (a_homepage :: 'a lazy_link) \<and> resolves (a_detalle_pagina v) \<and> resolves (a_detalle_site v) \<and>
     resolves (a_site_errors v) \<and> resolves (a_site_no_links v) \<and> resolves (a_site_orphans v) \<and>
     resolves (a_site_last v) \<and> resolves (a_site_scheduled v) \<and> resolves (a_site_queue v) \<and>
     \<not> resolves (a_add_no_link v)"
  by (simp add: links_resolve)

section \<open>Plug-ins\<close>

text \<open>
  C30. When the registry returns its plug-ins, they are the modules whose name does not start
  with an underscore, in that order, each with the process its import gave; a second call
  returns the same and imports nothing.
\<close>

theorem registry_loads_once:
  assumes "distinct stems" "get_all_plugins load (registry_init stems) = (Inr ps, r)"
  shows "map fst ps = filter (\<lambda>stem. \<not> starts_with ''_'' stem) stems \<and> (\<forall>np \<in> set ps. loaded load np) \<and>
    get_all_plugins load' r = (Inr ps, r)"
  using registry_ready [OF assms] by blast

definition title_only :: "string \<Rightarrow> pyexn + plugin" where
  "title_only name = Inr (\<lambda>_. get_title_process (\<lambda>_. []))"

theorem registry_loads_once_witness:
  "\<exists>ps r. get_all_plugins title_only (registry_init [''__init__'', ''get_title'']) = (Inr ps, r) \<and>
     map fst ps = [''get_title'']"
proof -
  obtain ps r where run: "get_all_plugins title_only (registry_init [''__init__'', ''get_title'']) = (Inr ps, r)"
    by (simp add: get_all_plugins_def initialize_def registry_init_def load_module_def title_only_def
        andThen_def reads_def writes_def lift_def ret_def)
  have "distinct [''__init__'', ''get_title'']" by simp
  from registry_loads_once [OF this run] run show ?thesis by simp
qed

text \<open>
  C31. On an HTML page the version plug-in returns the digits of a version tag of the body, and
  nothing exactly if the body has no such tag.
\<close>

theorem version_is_found:
  assumes "content_is_html headers = Inr True"
  shows "(\<exists>v. version_tag v body \<and> get_version_process p headers body = Inr (Some [(''version'', PText v)])) \<or>
    (\<nexists>v. version_tag v body) \<and> get_version_process p headers body = Inr (Some [])"
  using assms by (rule get_version_spec)

theorem version_is_found_witness:
  "(\<exists>v. version_tag v markup \<and> get_version_process home [(''content-type'', HText ''text/html'')] markup =
       Inr (Some [(''version'', PText v)])) \<or>
   (\<nexists>v. version_tag v markup) \<and> get_version_process home [(''content-type'', HText ''text/html'')] markup = Inr (Some [])"
proof -
  have "content_is_html [(''content-type'', HText ''text/html'')] = Inr True" by code_simp
  then show ?thesis by (rule version_is_found)
qed

text \<open>
  C32. What the index plug-in sends to the search service. For a page that is not HTML nothing;
  for an HTML page one document for the index \<open>web\<close> with the fields of the schema in their order,
  which holds the relative URL twice, the key of the page, and the keywords, the area and the
  version that the last \<open>meta\<close> element of each kind declares. It conforms to the types of the schema
  exactly when the key is a 64-bit and the version a 32-bit integer: the version is whatever number
  the page declares, and one of ten digits may not be.
\<close>

theorem index_documents_fit:
  assumes "index_process data parse accept s p headers body docs = (Inr out, docs')"
  shows "out = Some [] \<and>
    (content_is_html headers = Inr False \<and> docs' = docs \<or>
     content_is_html headers = Inr True \<and>
       (\<exists>doc url. docs' = docs @ [(INDEX_NAME, doc)] \<and> get_relative_url s p = Inr url \<and>
          map fst doc = map fst (schema_fields INDEX_SCHEMA) \<and>
          map_of doc ''id'' = Some (FText url) \<and> map_of doc ''url'' = Some (FText url) \<and>
          map_of doc ''page_id'' = Some (FInt (int (id_page p))) \<and>
          map_of doc ''keywords'' = Some (FTexts (declared_keywords (s_metas (parse body)))) \<and>
          map_of doc ''area'' = Some (FText (declared_area (s_metas (parse body)))) \<and>
          map_of doc ''version'' = Some (FInt (declared_version (s_metas (parse body)))) \<and>
          list_all2 field_fits doc (schema_fields INDEX_SCHEMA) =
            (int_fits 64 (int (id_page p)) \<and> int_fits 32 (declared_version (s_metas (parse body))))))"
  using index_process_sends [OF assms] unfolding indexed_def by blast

definition sample_soup :: soup where
  "sample_soup = \<lparr>s_title = Some ''Hola'', s_metas = [[(''name'', ''version''), (''content'', ''3'')]],
     s_main = None, s_body = Some \<lparr>el_text = '' uno  dos '', el_find_all = (\<lambda>_. [])\<rparr>\<rparr>"

theorem index_documents_fit_witness:
  "\<exists>docs'. index_process (\<lambda>t. [t]) (\<lambda>_. sample_soup) (\<lambda>_. Inr ()) omega home
      [(''content-type'', HText ''text/html'')] markup [] = (Inr (Some []), docs') \<and> length docs' = 1 \<and>
      map_of (snd (hd docs')) ''version'' = Some (FInt 3)"
proof -
  have run: "case index_process (\<lambda>t. [t]) (\<lambda>_. sample_soup) (\<lambda>_. Inr ()) omega home
      [(''content-type'', HText ''text/html'')] markup [] of (Inr _, ds) \<Rightarrow> length ds = 1 | _ \<Rightarrow> False" by code_simp
  then obtain out ds where o: "index_process (\<lambda>t. [t]) (\<lambda>_. sample_soup) (\<lambda>_. Inr ()) omega home
      [(''content-type'', HText ''text/html'')] markup [] = (Inr out, ds)" "length ds = 1"
    by (auto split: prod.splits sum.splits)
  have "declared_version (s_metas sample_soup) = 3" by code_simp
  with index_documents_fit [OF o(1)] o show ?thesis by auto
qed

section \<open>Dates\<close>

text \<open>
  C33. A date after the year 100 that is written as \<open>yyyy-mm-dd\<close> is read back as that date:
  none of the patterns that are tried earlier takes it.
\<close>

theorem date_round_trip:
  assumes "valid_date d" "100 < year d"
  shows "parse_date (iso_date d) = Inr (Some \<lparr>year = year d, month = month d, day = day d\<rparr>)"
  using assms by (rule parse_iso_date)

theorem date_round_trip_witness:
  "parse_date ''2024-02-29'' = Inr (Some \<lparr>year = 2024, month = 2, day = 29\<rparr>)"
proof -
  have "valid_date \<lparr>year = 2024, month = 2, day = 29\<rparr>" "iso_date \<lparr>year = 2024, month = 2, day = 29\<rparr> = ''2024-02-29''"
    by code_simp+
  with date_round_trip [of "\<lparr>year = 2024, month = 2, day = 29\<rparr>"] show ?thesis by simp
qed

text \<open>C34. The same for a date with a time, with a space or the letter T between them.\<close>

theorem datetime_round_trip:
  assumes "valid_date (date_of t)" "100 < year t" "valid_time (hour t) (minute t) (second t)"
    and "sep = CHR '' '' \<or> sep = CHR ''T''"
  shows "parse_datetime (iso_datetime sep t) = Inr (Some (t\<lparr>microsecond := 0\<rparr>))"
  using assms by (rule parse_iso_datetime)

theorem datetime_round_trip_witness:
  "parse_datetime ''1999-12-31T23:59:58'' =
     Inr (Some \<lparr>year = 1999, month = 12, day = 31, hour = 23, minute = 59, second = 58, microsecond = 0\<rparr>)"
proof -
  let ?t = "\<lparr>year = 1999, month = 12, day = 31, hour = 23, minute = 59, second = 58, microsecond = 0\<rparr>"
  have "valid_date (date_of ?t)" "iso_datetime (CHR ''T'') ?t = ''1999-12-31T23:59:58''" "valid_time 23 59 58"
    by code_simp+
  with datetime_round_trip [of ?t "CHR ''T''"] show ?thesis by simp
qed

text \<open>
  C35. The next month of a date, but for December 9999, is a valid date in the month that
  follows, on the same day or on the last one if the month is shorter.
\<close>

theorem next_month_follows:
  assumes "valid_date d" "year d < 9999 \<or> month d < 12"
  shows "\<exists>d'. next_month hoy d = Inr d' \<and> valid_date d' \<and>
     year d' * 12 + month d' = year d * 12 + month d + 1 \<and> day d' = min (day d) (month_days (year d') (month d'))"
  using assms by (rule next_month_spec)

theorem next_month_follows_witness:
  "\<exists>d'. next_month \<lparr>year = 2024, month = 5, day = 1\<rparr> \<lparr>year = 2023, month = 1, day = 31\<rparr> = Inr d' \<and> day d' = min 31 (month_days (year d') (month d'))"
proof -
  have "valid_date \<lparr>year = 2023, month = 1, day = 31\<rparr>" by code_simp
  with next_month_follows [of "\<lparr>year = 2023, month = 1, day = 31\<rparr>"] show ?thesis by fastforce
qed

text \<open>
  C36. The next day: adding \<open>ONE_DAY\<close> to a date gives the valid date whose ordinal in the Gregorian
  calendar is one higher, across months, years and leap days; only on the last day that the type
  holds, the 31st of December 9999, it raises.
\<close>

theorem next_day_follows:
  assumes "valid_date d"
  shows "if year d = 9999 \<and> month d = 12 \<and> day d = 31
    then next_day d = Inl (OverflowError ''date value out of range'')
    else \<exists>d'. next_day d = Inr d' \<and> valid_date d' \<and> ordinal d' = ordinal d + 1"
  using date_succ_end [OF assms] date_succ_ordinal [OF assms]
  by (cases "date_succ d") (auto simp: next_day_succ)

theorem next_day_follows_witness:
  "\<exists>d'. next_day \<lparr>year = 2024, month = 2, day = 28\<rparr> = Inr d' \<and> ordinal d' = ordinal \<lparr>year = 2024, month = 2, day = 28\<rparr> + 1"
proof -
  have "valid_date \<lparr>year = 2024, month = 2, day = 28\<rparr>" by code_simp
  from next_day_follows [OF this] show ?thesis by auto
qed

text \<open>
  C37. The last hours are consecutive: each is one hour before the one yielded before it, also
  across days, months and years, and there are as many as asked for, unless the generator raises
  because the last one it yielded is the first hour that the type holds.
\<close>

theorem last_hours_consecutive:
  assumes "valid_datetime t" "last_hours t n = (hs, e)"
  shows "map hour_index hs = map (\<lambda>i. hour_index (year t, month t, day t, hour t) - int i) [0..<length hs] \<and>
    (case e of
       None \<Rightarrow> length hs = n
     | Some x \<Rightarrow> x = OverflowError ''date value out of range'' \<and> length hs \<le> n \<and> last hs = (1, 1, 1, 0))"
  using assms by (rule last_hours_indices)

theorem last_hours_consecutive_witness:
  "fst (last_hours (EPOCH\<lparr>hour := 1\<rparr>) 3) = [(1970, 1, 1, 1), (1970, 1, 1, 0), (1969, 12, 31, 23)] \<and>
   length (fst (last_hours (EPOCH\<lparr>hour := 1\<rparr>) 3)) = 3"
proof -
  have run: "last_hours (EPOCH\<lparr>hour := 1\<rparr>) 3 = ([(1970, 1, 1, 1), (1970, 1, 1, 0), (1969, 12, 31, 23)], None)"
    "valid_datetime (EPOCH\<lparr>hour := 1\<rparr>)" by code_simp+
  from last_hours_consecutive [OF run(2,1)] run(1) show ?thesis by simp
qed

section \<open>The command line\<close>

text \<open>A terminal that accepts every output, and the shell of a command on the small world.\<close>

definition console :: terminal where
  "console = \<lparr>prints = (\<lambda>_ _. None), prints_table = (\<lambda>_. None), str_panel = plain, str_moment = show_int,
     str_message = (\<lambda>_. []), beats = None, compiles = (\<lambda>_. Inr (\<lambda>_. True)),
     loads = (\<lambda>_. Inl (OtherError [])), doc_of = (\<lambda>_. None)\<rparr>"

definition session :: shell where
  "session = \<lparr>db = small, plugin_registry = registry_init [], trace = [], is_verbose = True\<rparr>"

lemma session_ok: "db_ok (db session)" "omega \<in> set (site_rows (db session))" "accepts console"
  using small_ok small_rows(3) by (simp_all add: session_def accepts_def console_def)

text \<open>
  C38. The command line \<open>check\<close>, with any of \<open>--name\<close>, \<open>--num\<close> and \<open>--gap\<close> (by default the site
  \<open>default\<close>, one page and two seconds), is accepted when the two numbers are, and \<open>handle\<close> then
  runs the crawl of \<open>core.check_site\<close> step by step: on a terminal that accepts the output it
  leaves the same database, has printed each result when it is verbose and slept between the
  checks when there are several, in the order of the checks, and ends with the heartbeat, or
  with the exception that ended the crawl.
\<close>

theorem check_from_command_line:
  assumes "db_ok (db c)" "s \<in> set (site_rows (db c))" "accepts T" "num > 1 \<Longrightarrow> 0 \<le> gap"
    and "chosen given ''name'' ''default'' = site_name s"
      "int_of_str (chosen given ''num'' ''1'') = Some num" "int_of_str (chosen given ''gap'' ''2'') = Some gap"
    and "check_site env s num (db c) = (rs, e, w')"
  shows "\<exists>opts. parse_command verb (Some (''check'', given, [])) = Inr opts \<and>
    handle env T opts c =
      (ended e, c\<lparr>db := w', is_verbose := verb,
        trace := trace c @ concat (map (check_events T verb num gap) rs) @ (if e = None then [Heartbeat] else [])\<rparr>)"
  using check_line_run [OF assms(1-4,8)] assms(5-7) by (simp add: parse_check)

theorem check_from_command_line_witness:
  "\<exists>rs w' opts. parse_command True (Some (''check'', [(''num'', ''7''), (''name'', ''omega''), (''num'', ''3'')], [])) = Inr opts \<and>
     handle outside console opts session =
       (Inr (), session\<lparr>db := w', trace := concat (map (\<lambda>r. [Printed (str_result console r) newline, Slept 2]) rs) @ [Heartbeat]\<rparr>)"
proof -
  obtain rs w' where crawl: "check_site outside omega 3 (db session) = (rs, None, w')"
    using small_crawl by (auto simp: session_def)
  have line: "chosen [(''num'', ''7''), (''name'', ''omega''), (''num'', ''3'')] ''name'' ''default'' = site_name omega"
    "int_of_str (chosen [(''num'', ''7''), (''name'', ''omega''), (''num'', ''3'')] ''num'' ''1'') = Some 3"
    "int_of_str (chosen [(''num'', ''7''), (''name'', ''omega''), (''num'', ''3'')] ''gap'' ''2'') = Some 2"
    by code_simp+
  from check_from_command_line [OF session_ok(1,2,3) _ line crawl, of True] show ?thesis
    by (intro exI [of _ rs] exI [of _ w']) (simp add: session_def check_events_def [abs_def])
qed

text \<open>
  C39. The command \<open>queue\<close> prints the whole length of the queue and its first pages in order,
  with the time each has waited: not \<open>num\<close> of them but one more, because the loop is left only
  after the row with the index \<open>num\<close>. It changes no table. (With the setting \<open>USE_TZ\<close> the time
  waited cannot be computed, and the command raises \<open>TypeError\<close>.)
\<close>

theorem queue_shows_one_more:
  assumes "db_ok (db c)" "s \<in> set (site_rows (db c))" "accepts T" "clean_site s" "\<not> e_use_tz env"
    and "\<And>p. p \<in> set (site_pages s (db c)) \<Longrightarrow> clean_page p"
    and "map_of opts ''name'' = Some (OText (site_name s))" "map_of opts ''num'' = Some (OInt num)"
  shows "cmd_queue env T opts c =
    (let queue = all_queued_pages s (db c); shown = take (nat num + 1) queue; t = tick (db c)
     in (Inr (), c\<lparr>db := (db c)\<lparr>tick := t + length shown\<rparr>, trace := trace c @ [PrintedTable
          \<lparr>sheet_title = Some (plain (''Queue for '' @ site_name s @ '' ('' @ show_nat (length queue) @ '' pages)'')),
           columns = [(''Id'', False), (''URL'', False), (''Waiting time'', True)],
           sheet_rows = map (\<lambda>(i, p). queue_cells env i p) (enumerate t shown)\<rparr>]\<rparr>))"
  using cmd_queue_run [OF assms] unfolding Let_def .

lemma session_clean: "p \<in> set (site_pages omega (db session)) \<Longrightarrow> clean_page p"
  using clean_home(2,3) by (auto simp: session_def small_def site_pages_def split: if_splits)

lemma session_queue: "all_queued_pages omega (db session) = [home]"
  by (simp add: session_def small_def all_queued_pages_def site_pages_def home_def broken_def omega_def)

theorem queue_shows_one_more_witness:
  "trace (snd (cmd_queue outside console [(''name'', OText ''omega''), (''num'', OInt 0)] session)) =
     [PrintedTable
       \<lparr>sheet_title = Some (plain ''Queue for omega (1 pages)''),
        columns = [(''Id'', False), (''URL'', False), (''Waiting time'', True)],
        sheet_rows = [queue_cells outside 0 home]\<rparr>]"
proof -
  have tz: "\<not> e_use_tz outside" by (simp add: outside_def)
  have "show_nat 1 = ''1''" by code_simp
  then show ?thesis
    using queue_shows_one_more [OF session_ok clean_home(1) tz session_clean,
      of "[(''name'', OText ''omega''), (''num'', OInt 0)]" 0]
    by (simp add: session_queue Let_def) (simp add: omega_def session_def small_def)
qed

text \<open>
  C40. Whatever its options, a command leaves a well-formed database, also when it raises; and
  every command but \<open>init\<close>, \<open>reset\<close>, \<open>check\<close> and \<open>recheck\<close> leaves all tables as they are. This
  holds for \<open>delete\<close> too, which never deletes a page.
\<close>

theorem commands_keep_database:
  assumes "db_ok (db c)"
  shows "db_ok (db (snd (handle env T opts c))) \<and>
    ((\<forall>act. map_of opts ''func'' = Some (OFunc act) \<longrightarrow> reports act) \<longrightarrow>
       tables (db (snd (handle env T opts c))) = tables (db c))"
  using handle_ok [OF assms] handle_reports by blast

theorem commands_keep_database_witness:
  "page_rows (db (snd (handle outside console [(''name'', OText ''omega''), (''ids'', OInts [2]),
     (''func'', OFunc CmdDelete)] session))) = [home, broken]"
proof -
  have "tables (db (snd (handle outside console [(''name'', OText ''omega''), (''ids'', OInts [2]),
     (''func'', OFunc CmdDelete)] session))) = tables small"
    using commands_keep_database [OF session_ok(1), of outside console
        "[(''name'', OText ''omega''), (''ids'', OInts [2]), (''func'', OFunc CmdDelete)]"]
    by (simp add: reports_def session_def)
  from tables_rows [OF this] show ?thesis by (simp add: small_def)
qed

end
